(* ===== verification/Prelude.thy ===== *)
theory Prelude
  imports Main "HOL-Library.AList"
begin

text \<open>
  Shared vocabulary of the development: the pieces of the Rust standard library that several
  components use (\<open>Option\<close> predicates, saturating \<open>i64\<close> arithmetic, stable sorting and
  \<open>max_by_key\<close>, decimal display, \<open>HashMap\<close>), the collections of facts that the proofs share,
  and the interface of a keyed map.

  A Rust \<open>HashMap\<close> is an association list with distinct keys; the order of the list stands for
  the unspecified iteration order, and every theorem quantifies over all such lists, hence over
  all iteration orders. Instants (\<open>DateTime<Utc>\<close>) are integers (nanoseconds since the epoch),
  and each read of the clock is an argument of the operation that reads it.
\<close>

named_theorems store_simps \<open>unfolding rules of the store operations\<close>
named_theorems keeps_wf \<open>operations that keep a store well formed\<close>

type_synonym instant = int
type_synonym ('k, 'v) hmap = "('k \<times> 'v) list"

section \<open>Option predicates\<close>

definition is_none_or :: "('a \<Rightarrow> bool) \<Rightarrow> 'a option \<Rightarrow> bool" where
  "is_none_or P x = (case x of None \<Rightarrow> True | Some v \<Rightarrow> P v)"

definition is_some_and :: "('a \<Rightarrow> bool) \<Rightarrow> 'a option \<Rightarrow> bool" where
  "is_some_and P x = (case x of None \<Rightarrow> False | Some v \<Rightarrow> P v)"

definition unwrap_or :: "'a \<Rightarrow> 'a option \<Rightarrow> 'a" where
  "unwrap_or d x = (case x of None \<Rightarrow> d | Some v \<Rightarrow> v)"

definition opt_or :: "'a option \<Rightarrow> 'a option \<Rightarrow> 'a option" where
  "opt_or x y = (case x of None \<Rightarrow> y | Some v \<Rightarrow> Some v)"

lemma opt_combinators [simp]:
  "is_none_or P None" "is_none_or P (Some v) = P v"
  "\<not> is_some_and P None" "is_some_and P (Some v) = P v"
  "unwrap_or d None = d" "unwrap_or d (Some v) = v"
  "opt_or None y = y" "opt_or (Some v) y = Some v"
  by (simp_all add: is_none_or_def is_some_and_def unwrap_or_def opt_or_def)

section \<open>Results\<close>

text \<open>A Rust \<open>Result<T, E>\<close> is \<open>E + T\<close>; \<open>and_then\<close> is the \<open>?\<close> operator.\<close>

definition and_then :: "'e + 'a \<Rightarrow> ('a \<Rightarrow> 'e + 'b) \<Rightarrow> 'e + 'b" where
  "and_then r f = (case r of Inl e \<Rightarrow> Inl e | Inr x \<Rightarrow> f x)"

lemma and_then_simps [simp]:
  "and_then (Inl e) f = Inl e"
  "and_then (Inr x) f = f x"
  by (simp_all add: and_then_def)

lemma and_then_Inr: "and_then r f = Inr y \<longleftrightarrow> (\<exists>x. r = Inr x \<and> f x = Inr y)"
  by (cases r) auto

lemma and_then_Inl:
  "and_then r f = Inl e \<longleftrightarrow> r = Inl e \<or> (\<exists>x. r = Inr x \<and> f x = Inl e)"
  by (cases r) auto

definition map_err :: "('e \<Rightarrow> 'f) \<Rightarrow> 'e + 'a \<Rightarrow> 'f + 'a" where
  "map_err f r = (case r of Inl e \<Rightarrow> Inl (f e) | Inr x \<Rightarrow> Inr x)"

lemma map_err_simps [simp]:
  "map_err f (Inl e) = Inl (f e)"
  "map_err f (Inr x) = Inr x"
  by (simp_all add: map_err_def)

section \<open>Saturating 64-bit arithmetic\<close>

definition i64_min :: int where "i64_min = - (2 ^ 63)"
definition i64_max :: int where "i64_max = 2 ^ 63 - 1"

definition in_i64 :: "int \<Rightarrow> bool" where
  "in_i64 x \<longleftrightarrow> i64_min \<le> x \<and> x \<le> i64_max"

definition saturating_add_i64 :: "int \<Rightarrow> int \<Rightarrow> int" where
  "saturating_add_i64 a b = max i64_min (min i64_max (a + b))"

lemma saturating_add_i64_in_range: "in_i64 (saturating_add_i64 a b)"
  by (simp add: saturating_add_i64_def in_i64_def i64_min_def i64_max_def)

lemma saturating_add_i64_mono:
  "in_i64 a \<Longrightarrow> 0 \<le> b \<Longrightarrow> a \<le> saturating_add_i64 a b"
  by (auto simp: saturating_add_i64_def in_i64_def)

lemma saturating_add_i64_exact:
  "in_i64 (a + b) \<Longrightarrow> saturating_add_i64 a b = a + b"
  by (auto simp: saturating_add_i64_def in_i64_def)

section \<open>Decimal display\<close>

definition digit_char :: "nat \<Rightarrow> char" where
  "digit_char d = char_of (48 + d)"

fun show_nat :: "nat \<Rightarrow> string" where
  "show_nat n = (if n < 10 then [digit_char n] else show_nat (n div 10) @ [digit_char (n mod 10)])"

declare show_nat.simps [simp del]

definition show_int :: "int \<Rightarrow> string" where
  "show_int i = (if i < 0 then ''-'' @ show_nat (nat (- i)) else show_nat (nat i))"

lemma show_nat_nonempty [simp]: "show_nat n \<noteq> []"
  by (subst show_nat.simps) simp

section \<open>Iterators\<close>

text \<open>\<open>iter().skip(offset).take(limit)\<close>.\<close>

definition skip_take :: "nat \<Rightarrow> nat \<Rightarrow> 'a list \<Rightarrow> 'a list" where
  "skip_take offset limit xs = take limit (drop offset xs)"

lemma length_skip_take: "length (skip_take offset limit xs) = min limit (length xs - offset)"
  by (simp add: skip_take_def)

lemma set_skip_take: "set (skip_take offset limit xs) \<subseteq> set xs"
  unfolding skip_take_def by (meson order_trans set_drop_subset set_take_subset)

lemma distinct_skip_take: "distinct xs \<Longrightarrow> distinct (skip_take offset limit xs)"
  by (simp add: skip_take_def)

lemma skip_take_all: "length xs \<le> limit \<Longrightarrow> skip_take 0 limit xs = xs"
  by (simp add: skip_take_def)

lemma sorted_skip_take:
  "sorted (map f xs) \<Longrightarrow> sorted (map f (skip_take offset limit xs))"
  by (simp add: skip_take_def take_map drop_map sorted_wrt_take sorted_wrt_drop
      flip: take_map drop_map)

text \<open>\<open>Iterator::find\<close> is \<^term>\<open>find\<close>.\<close>

lemma find_snoc:
  "find P (xs @ [x]) = (case find P xs of Some y \<Rightarrow> Some y | None \<Rightarrow> if P x then Some x else None)"
  by (induction xs) auto

lemma find_unique:
  "x \<in> set xs \<Longrightarrow> P x \<Longrightarrow> (\<And>y. y \<in> set xs \<Longrightarrow> P y \<Longrightarrow> y = x) \<Longrightarrow> find P xs = Some x"
proof (induction xs)
  case (Cons a xs)
  show ?case
  proof (cases "P a")
    case True
    with Cons.prems(3) [of a] show ?thesis by simp
  next
    case False
    with Cons.prems(1,2) have "x \<in> set xs" by auto
    moreover have "\<And>y. y \<in> set xs \<Longrightarrow> P y \<Longrightarrow> y = x" by (rule Cons.prems(3)) simp_all
    ultimately have "find P xs = Some x" using Cons.prems(2) by (intro Cons.IH)
    with False show ?thesis by simp
  qed
qed simp

lemma find_SomeD: "find P xs = Some x \<Longrightarrow> x \<in> set xs \<and> P x"
  by (induction xs) (auto split: if_splits)

text \<open>Consecutive pages tile a listing: the next page starts where this one ended.\<close>

lemma skip_take_append:
  "skip_take offset limit xs @ skip_take (offset + limit) limit' xs
     = skip_take offset (limit + limit') xs"
  by (simp add: skip_take_def take_add add.commute)

text \<open>\<open>Iterator::max_by_key\<close> returns the last of several maximal elements.\<close>

fun max_by_key :: "('a \<Rightarrow> int) \<Rightarrow> 'a list \<Rightarrow> 'a option" where
  "max_by_key f [] = None"
| "max_by_key f (x # xs) =
     (case max_by_key f xs of
        None \<Rightarrow> Some x
      | Some y \<Rightarrow> if f y < f x then Some x else Some y)"

lemma max_by_key_None [simp]: "max_by_key f xs = None \<longleftrightarrow> xs = []"
  by (cases xs) (auto split: option.splits)

lemma max_by_key_Some:
  "max_by_key f xs = Some y \<Longrightarrow> y \<in> set xs \<and> (\<forall>x \<in> set xs. f x \<le> f y)"
proof (induction xs arbitrary: y)
  case Nil
  then show ?case by simp
next
  case (Cons x xs)
  then show ?case
    by (cases "max_by_key f xs") (fastforce split: if_splits)+
qed

section \<open>Hash maps\<close>

text \<open>
  The operations the code uses: \<open>get\<close> is \<^term>\<open>map_of\<close>, \<open>insert\<close> is \<^term>\<open>AList.update\<close>,
  \<open>remove\<close> is \<^term>\<open>AList.delete\<close>, and \<open>get_mut\<close> followed by a write is \<open>hm_modify\<close>.
\<close>

definition hm_wf :: "('k, 'v) hmap \<Rightarrow> bool" where
  "hm_wf m \<longleftrightarrow> distinct (map fst m)"

definition hm_contains :: "'k \<Rightarrow> ('k, 'v) hmap \<Rightarrow> bool" where
  "hm_contains k m \<longleftrightarrow> map_of m k \<noteq> None"

definition hm_modify :: "'k \<Rightarrow> ('v \<Rightarrow> 'v) \<Rightarrow> ('k, 'v) hmap \<Rightarrow> ('k, 'v) hmap" where
  "hm_modify k f m = AList.map_entry k f m"

definition hm_values :: "('k, 'v) hmap \<Rightarrow> 'v list" where
  "hm_values m = map snd m"

definition hm_retain :: "('k \<Rightarrow> 'v \<Rightarrow> bool) \<Rightarrow> ('k, 'v) hmap \<Rightarrow> ('k, 'v) hmap" where
  "hm_retain P m = filter (\<lambda>(k, v). P k v) m"

lemma hm_wf_Nil [simp]: "hm_wf []"
  by (simp add: hm_wf_def)

lemma hm_wf_update [intro, keeps_wf]: "hm_wf m \<Longrightarrow> hm_wf (AList.update k v m)"
  by (simp add: hm_wf_def distinct_update)

lemma hm_wf_delete [intro, keeps_wf]: "hm_wf m \<Longrightarrow> hm_wf (AList.delete k m)"
  by (simp add: hm_wf_def distinct_delete)

lemma hm_modify_keys [simp]: "map fst (hm_modify k f m) = map fst m"
  unfolding hm_modify_def by (induction m) auto

lemma hm_wf_modify [intro, keeps_wf]: "hm_wf m \<Longrightarrow> hm_wf (hm_modify k f m)"
  by (simp add: hm_wf_def)

lemma hm_get_modify:
  "map_of (hm_modify k f m) j = (if j = k then map_option f (map_of m k) else map_of m j)"
  unfolding hm_modify_def by (induction m) auto

lemma hm_get_update:
  "map_of (AList.update k v m) j = (if j = k then Some v else map_of m j)"
  by (simp add: update_conv')

lemma hm_get_delete:
  "map_of (AList.delete k m) j = (if j = k then None else map_of m j)"
  by (simp add: delete_conv')

lemma hm_wf_retain [intro, keeps_wf]: "hm_wf m \<Longrightarrow> hm_wf (hm_retain P m)"
  unfolding hm_wf_def hm_retain_def by (rule distinct_map_filter)

lemma hm_get_in: "hm_wf m \<Longrightarrow> (k, v) \<in> set m \<longleftrightarrow> map_of m k = Some v"
  by (simp add: hm_wf_def)

lemma hm_values_in: "hm_wf m \<Longrightarrow> v \<in> set (hm_values m) \<longleftrightarrow> (\<exists>k. map_of m k = Some v)"
  by (auto simp: hm_values_def simp flip: hm_get_in) (force+)

lemma hm_get_retain:
  "hm_wf m \<Longrightarrow>
     map_of (hm_retain P m) k = (case map_of m k of None \<Rightarrow> None | Some v \<Rightarrow> if P k v then Some v else None)"
proof (induction m)
  case Nil
  then show ?case by (simp add: hm_retain_def)
next
  case (Cons kv m)
  obtain k' v' where kv: "kv = (k', v')" by force
  from Cons.prems kv have wf: "hm_wf m" and notin: "map_of m k' = None"
    by (auto simp: hm_wf_def map_of_eq_None_iff)
  show ?case
    using Cons.IH [OF wf] notin by (auto simp: kv hm_retain_def split: option.splits)
qed

lemma hm_retain_length: "length (hm_retain P m) \<le> length m"
  by (simp add: hm_retain_def)

lemma values_modify:
  "(\<And>g. h (f g) = h g) \<Longrightarrow> map h (hm_values (hm_modify i f m)) = map h (hm_values m)"
  unfolding hm_values_def hm_modify_def by (induction m) auto

lemma values_update_new:
  "\<not> hm_contains k m \<Longrightarrow> hm_values (AList.update k v m) = hm_values m @ [v]"
  by (induction m) (auto simp: hm_contains_def hm_values_def split: if_splits)

lemmas hm_simps = hm_get_modify hm_get_update hm_get_delete hm_get_retain hm_contains_def

section \<open>The interface of a keyed map\<close>

text \<open>
  What the stores need of the map they keep their rows in. The clients' lemmas (a row that is
  not touched is unchanged; writing is idempotent) are proved once here, from the laws alone.
\<close>

locale keyed_map =
  fixes lookup :: "'m \<Rightarrow> 'k \<Rightarrow> 'v option"
    and put :: "'k \<Rightarrow> 'v \<Rightarrow> 'm \<Rightarrow> 'm"
    and del :: "'k \<Rightarrow> 'm \<Rightarrow> 'm"
    and modify :: "'k \<Rightarrow> ('v \<Rightarrow> 'v) \<Rightarrow> 'm \<Rightarrow> 'm"
    and wf :: "'m \<Rightarrow> bool"
  assumes lookup_put: "lookup (put k v m) j = (if j = k then Some v else lookup m j)"
    and lookup_del: "lookup (del k m) j = (if j = k then None else lookup m j)"
    and lookup_modify: "lookup (modify k f m) j
          = (if j = k then map_option f (lookup m k) else lookup m j)"
    and wf_put: "wf m \<Longrightarrow> wf (put k v m)"
    and wf_del: "wf m \<Longrightarrow> wf (del k m)"
    and wf_modify: "wf m \<Longrightarrow> wf (modify k f m)"
begin

lemma frame: "j \<noteq> k \<Longrightarrow> lookup (put k v m) j = lookup m j
    \<and> lookup (del k m) j = lookup m j \<and> lookup (modify k f m) j = lookup m j"
  by (simp add: lookup_put lookup_del lookup_modify)

lemma modify_missing: "lookup m k = None \<Longrightarrow> lookup (modify k f m) = lookup m"
  by (rule ext) (simp add: lookup_modify)

lemma put_twice: "lookup (put k v (put k w m)) = lookup (put k v m)"
  by (rule ext) (simp add: lookup_put)

lemma put_del: "lookup (del k (put k v m)) = lookup (del k m)"
  by (rule ext) (simp add: lookup_put lookup_del)

text \<open>Writing the same field update to a set of keys, one key at a time.\<close>

lemma lookup_fold_modify:
  "distinct ks \<Longrightarrow> lookup (fold (\<lambda>k. modify k (f k)) ks m) j
     = (if j \<in> set ks then map_option (f j) (lookup m j) else lookup m j)"
proof (induction ks arbitrary: m)
  case Nil
  then show ?case by simp
next
  case (Cons k ks)
  then show ?case by (auto simp: lookup_modify)
qed

lemma wf_fold_modify: "wf m \<Longrightarrow> wf (fold (\<lambda>k. modify k (f k)) ks m)"
  by (induction ks arbitrary: m) (auto intro: wf_modify)

end

interpretation hm: keyed_map map_of AList.update AList.delete hm_modify hm_wf
  by unfold_locales (auto simp: hm_simps)

end
