(* ===== verification/Rust_Text.thy ===== *)
theory Rust_Text
  imports Prelude
begin

text \<open>
  Rust strings and the text helpers of \<open>crabgent-core\<close>: \<open>src/text.rs\<close> (truncation at UTF-8
  boundaries) and \<open>src/sanitize.rs\<close> (the boundary tags around tool output). A Rust \<open>str\<close> is the
  list of its UTF-8 bytes, so \<^term>\<open>length\<close> is \<open>str::len\<close>, and a character boundary is a byte
  that is not a continuation byte. Escaping only replaces ASCII characters, so walking over bytes
  is walking over \<open>chars\<close>.
\<close>

section \<open>UTF-8 boundaries\<close>

definition is_continuation :: "char \<Rightarrow> bool" where
  "is_continuation c \<longleftrightarrow> 128 \<le> (of_char c :: nat) \<and> (of_char c :: nat) < 192"

definition is_char_boundary :: "string \<Rightarrow> nat \<Rightarrow> bool" where
  "is_char_boundary s i \<longleftrightarrow>
     i = 0 \<or> i = length s \<or> (i < length s \<and> \<not> is_continuation (s ! i))"

text \<open>\<open>str::get(..k)\<close>: the prefix of \<open>k\<close> bytes, if \<open>k\<close> is a boundary in range.\<close>

definition str_get_to :: "string \<Rightarrow> nat \<Rightarrow> string option" where
  "str_get_to s k = (if k \<le> length s \<and> is_char_boundary s k then Some (take k s) else None)"

text \<open>\<open>str::floor_char_boundary\<close>.\<close>

fun floor_boundary :: "string \<Rightarrow> nat \<Rightarrow> nat" where
  "floor_boundary s 0 = 0"
| "floor_boundary s (Suc i) = (if is_char_boundary s (Suc i) then Suc i else floor_boundary s i)"

definition floor_char_boundary :: "string \<Rightarrow> nat \<Rightarrow> nat" where
  "floor_char_boundary s idx = floor_boundary s (min idx (length s))"

lemma floor_boundary_le: "floor_boundary s i \<le> i"
  by (induction s i rule: floor_boundary.induct) auto

lemma floor_boundary_is_boundary: "is_char_boundary s (floor_boundary s i)"
  by (induction s i rule: floor_boundary.induct) (auto simp: is_char_boundary_def)

lemma floor_boundary_greatest: "j \<le> i \<Longrightarrow> is_char_boundary s j \<Longrightarrow> j \<le> floor_boundary s i"
proof (induction s i rule: floor_boundary.induct)
  case (1 s)
  then show ?case by simp
next
  case (2 s i)
  then show ?case by (cases "j = Suc i") auto
qed

lemma floor_char_boundary_le: "floor_char_boundary s idx \<le> min idx (length s)"
  unfolding floor_char_boundary_def by (rule floor_boundary_le)

definition truncate_bytes_at_boundary :: "string \<Rightarrow> nat \<Rightarrow> string" where
  "truncate_bytes_at_boundary s max_bytes
     = unwrap_or s (str_get_to s (floor_char_boundary s max_bytes))"

text \<open>\<open>char_indices\<close>: the byte offsets at which a character starts.\<close>

definition char_indices :: "string \<Rightarrow> nat list" where
  "char_indices s = filter (\<lambda>i. \<not> is_continuation (s ! i)) [0..<length s]"

definition char_count :: "string \<Rightarrow> nat" where
  "char_count s = length (char_indices s)"

text \<open>\<open>chars().take(n).collect()\<close>.\<close>

definition take_chars :: "nat \<Rightarrow> string \<Rightarrow> string" where
  "take_chars n s =
     (if n < length (char_indices s) then take (char_indices s ! n) s else s)"

definition truncate_chars :: "string \<Rightarrow> nat \<Rightarrow> string" where
  "truncate_chars s max_chars =
     (if max_chars < length (char_indices s)
      then unwrap_or s (str_get_to s (char_indices s ! max_chars))
      else s)"

definition truncate_with_ellipsis :: "string \<Rightarrow> nat \<Rightarrow> string \<Rightarrow> string" where
  "truncate_with_ellipsis s max_bytes suffix =
     (if length s \<le> max_bytes then s
      else let head_len = floor_char_boundary s (max_bytes - length suffix)
           in (case str_get_to s head_len of None \<Rightarrow> [] | Some head \<Rightarrow> head) @ suffix)"

lemma str_get_floor:
  "str_get_to s (floor_char_boundary s n) = Some (take (floor_char_boundary s n) s)"
proof -
  have "floor_char_boundary s n \<le> length s"
    using floor_char_boundary_le [of s n] by simp
  then show ?thesis
    by (simp add: str_get_to_def floor_char_boundary_def floor_boundary_is_boundary)
qed

lemma truncate_bytes_eq:
  "truncate_bytes_at_boundary s n = take (floor_char_boundary s n) s"
  by (simp add: truncate_bytes_at_boundary_def str_get_floor)

lemma truncate_with_ellipsis_eq:
  "truncate_with_ellipsis s n suffix =
     (if length s \<le> n then s else take (floor_char_boundary s (n - length suffix)) s @ suffix)"
  by (simp add: truncate_with_ellipsis_def str_get_floor Let_def)

section \<open>Trimming and splitting\<close>

text \<open>
  \<open>str::trim\<close> strips the characters of the Unicode class White_Space; here are their UTF-8
  encodings: the ASCII ones, then U+0085, U+00A0, U+1680, U+2000 to U+200A, U+2028, U+2029,
  U+202F, U+205F and U+3000.
\<close>

definition ws_encodings :: "nat list list" where
  "ws_encodings =
     [[9], [10], [11], [12], [13], [32], [194, 133], [194, 160], [225, 154, 128]]
     @ map (\<lambda>n. [226, 128, 128 + n]) [0..<11]
     @ [[226, 128, 168], [226, 128, 169], [226, 128, 175], [226, 129, 159], [227, 128, 128]]"

definition bytes_of :: "string \<Rightarrow> nat list" where
  "bytes_of s = map of_char s"

fun strip_one :: "nat list list \<Rightarrow> string \<Rightarrow> string option" where
  "strip_one [] s = None"
| "strip_one (w # ws) s =
     (if w \<noteq> [] \<and> take (length w) (bytes_of s) = w then Some (drop (length w) s)
      else strip_one ws s)"

lemma strip_one_shorter: "strip_one ws s = Some r \<Longrightarrow> length r < length s"
proof (induction ws)
  case Nil
  then show ?case by simp
next
  case (Cons w ws)
  then show ?case
    by (cases "s = []") (auto simp: bytes_of_def split: if_splits)
qed

function strip_while :: "nat list list \<Rightarrow> string \<Rightarrow> string" where
  "strip_while ws s = (case strip_one ws s of None \<Rightarrow> s | Some r \<Rightarrow> strip_while ws r)"
  by pat_completeness auto
termination
  by (relation "measure (\<lambda>(ws, s). length s)") (auto dest: strip_one_shorter)

declare strip_while.simps [simp del]

definition trim_start :: "string \<Rightarrow> string" where
  "trim_start s = strip_while ws_encodings s"

definition trim_end :: "string \<Rightarrow> string" where
  "trim_end s = rev (strip_while (map rev ws_encodings) (rev s))"

definition trim :: "string \<Rightarrow> string" where
  "trim s = trim_end (trim_start s)"

lemma trim_plain:
  assumes "strip_one ws_encodings s = None" "strip_one (map rev ws_encodings) (rev s) = None"
  shows "trim s = s"
proof -
  from assms(1) have "trim_start s = s"
    unfolding trim_start_def by (subst strip_while.simps) simp
  moreover from assms(2) have "trim_end s = s"
    unfolding trim_end_def by (subst strip_while.simps) simp
  ultimately show ?thesis by (simp add: trim_def)
qed

lemma strip_while_stop: "strip_one ws (strip_while ws s) = None"
proof (induction ws s rule: strip_while.induct)
  case (1 ws s)
  show ?case
  proof (cases "strip_one ws s")
    case None
    then show ?thesis by (subst strip_while.simps) simp
  next
    case (Some r)
    with "1.IH" have "strip_one ws (strip_while ws r) = None" by simp
    with Some show ?thesis by (subst strip_while.simps) simp
  qed
qed

lemma strip_while_idem: "strip_while ws (strip_while ws s) = strip_while ws s"
  by (subst strip_while.simps) (simp add: strip_while_stop)

lemma trim_end_idem: "trim_end (trim_end s) = trim_end s"
  by (simp add: trim_end_def strip_while_idem)

lemma strip_while_drop: "\<exists>n. strip_while ws s = drop n s"
proof (induction ws s rule: strip_while.induct)
  case (1 ws s)
  have step: "\<exists>n. r = drop n s" if "strip_one ws s = Some r" for r
    using that by (induction ws) (auto split: if_splits)
  show ?case
  proof (cases "strip_one ws s")
    case None
    then show ?thesis by (subst strip_while.simps) (simp add: exI [of _ 0])
  next
    case (Some r)
    obtain n m where "r = drop n s" "strip_while ws r = drop m r"
      using step [OF Some] 1 [OF Some] by blast
    then have "strip_while ws s = drop (m + n) s"
      using Some by (subst strip_while.simps) simp
    then show ?thesis ..
  qed
qed

lemma strip_one_prefix: "strip_one ws t = None \<Longrightarrow> strip_one ws (take n t) = None"
proof (induction ws)
  case (Cons w ws)
  have "take (length w) (bytes_of t) = w" if "take (length w) (bytes_of (take n t)) = w"
  proof -
    from that have "length w \<le> n"
      by (metis bytes_of_def length_map length_take min.bounded_iff nle_le)
    with that show ?thesis by (simp add: bytes_of_def take_map min_def)
  qed
  with Cons show ?case by (auto split: if_splits)
qed simp

lemma trim_idem: "trim (trim s) = trim s"
proof -
  let ?t = "trim_start s"
  obtain n where "trim_end ?t = rev (drop n (rev ?t))"
    using strip_while_drop [of "map rev ws_encodings" "rev ?t"] by (auto simp: trim_end_def)
  then have "trim_end ?t = take (length ?t - n) ?t" by (simp add: rev_drop)
  then have "strip_one ws_encodings (trim_end ?t) = None"
    using strip_one_prefix [OF strip_while_stop [of ws_encodings s, folded trim_start_def]] by simp
  then have "trim_start (trim_end ?t) = trim_end ?t"
    unfolding trim_start_def by (subst strip_while.simps) simp
  then show ?thesis by (simp add: trim_def trim_end_idem)
qed

text \<open>\<open>str::split_once\<close> on a single ASCII character, and \<open>str::split\<close>.\<close>

fun split_once :: "char \<Rightarrow> string \<Rightarrow> (string \<times> string) option" where
  "split_once d [] = None"
| "split_once d (c # s) =
     (if c = d then Some ([], s)
      else map_option (\<lambda>(a, b). (c # a, b)) (split_once d s))"

lemma split_once_Some: "split_once d s = Some (a, b) \<longleftrightarrow> s = a @ d # b \<and> d \<notin> set a"
proof (induction s arbitrary: a)
  case Nil
  then show ?case by simp
next
  case (Cons c s)
  show ?case
  proof (cases "c = d")
    case True
    then show ?thesis by (cases a) auto
  next
    case False
    with Cons.IH show ?thesis by (cases a) auto
  qed
qed

lemma split_once_None: "split_once d s = None \<longleftrightarrow> d \<notin> set s"
  by (induction s) auto

fun split_on :: "char \<Rightarrow> string \<Rightarrow> string list" where
  "split_on d [] = [[]]"
| "split_on d (c # s) =
     (if c = d then [] # split_on d s
      else (case split_on d s of [] \<Rightarrow> [[c]] | p # ps \<Rightarrow> (c # p) # ps))"

fun join_with :: "string \<Rightarrow> string list \<Rightarrow> string" where
  "join_with sep [] = []"
| "join_with sep [p] = p"
| "join_with sep (p # q # ps) = p @ sep @ join_with sep (q # ps)"

lemma split_on_nonempty [simp]: "split_on d s \<noteq> []"
  by (cases s) (auto split: list.splits)

lemma join_split: "join_with [d] (split_on d s) = s"
proof (induction s)
  case Nil
  then show ?case by simp
next
  case (Cons c s)
  show ?case
  proof (cases "split_on d s")
    case Nil
    then show ?thesis by simp
  next
    case (Cons p ps)
    then show ?thesis using Cons.IH by (cases ps) auto
  qed
qed

definition starts_with :: "string \<Rightarrow> string \<Rightarrow> bool" where
  "starts_with prefix s \<longleftrightarrow> take (length prefix) s = prefix"

lemma starts_with_iff: "starts_with p s \<longleftrightarrow> (\<exists>r. s = p @ r)"
  unfolding starts_with_def by (metis append_eq_conv_conj append_take_drop_id)

section \<open>Boundary tags around tool output\<close>

fun escape_attr_char :: "char \<Rightarrow> string" where
  "escape_attr_char c =
     (if c = CHR ''<'' then ''&lt;''
      else if c = CHR ''>'' then ''&gt;''
      else if c = CHR ''&'' then ''&amp;''
      else if c = CHR 0x22 then ''&quot;''
      else [c])"

fun escape_body_char :: "char \<Rightarrow> string" where
  "escape_body_char c =
     (if c = CHR ''<'' then ''&lt;''
      else if c = CHR ''>'' then ''&gt;''
      else if c = CHR ''&'' then ''&amp;''
      else [c])"

definition sanitize_for_attribute :: "string \<Rightarrow> string" where
  "sanitize_for_attribute s = concat (map escape_attr_char s)"

definition xml_escape_body :: "string \<Rightarrow> string" where
  "xml_escape_body s = concat (map escape_body_char s)"

definition wrap_tool_output :: "string \<Rightarrow> string \<Rightarrow> string" where
  "wrap_tool_output tool_name out =
     ''<tool_output tool='' @ [CHR 0x22] @ sanitize_for_attribute tool_name @ [CHR 0x22] @ ''>''
     @ xml_escape_body out @ ''</tool_output>''"

definition wrap_tool_error :: "string \<Rightarrow> string \<Rightarrow> string" where
  "wrap_tool_error tool_name err =
     ''<tool_error tool='' @ [CHR 0x22] @ sanitize_for_attribute tool_name @ [CHR 0x22] @ ''>''
     @ xml_escape_body err @ ''</tool_error>''"

text \<open>The reader of the tags: it replaces the entities back. Specification only.\<close>

function unescape :: "string \<Rightarrow> string" where
  "unescape s =
     (if s = [] then []
      else if starts_with ''&lt;'' s then CHR ''<'' # unescape (drop 4 s)
      else if starts_with ''&gt;'' s then CHR ''>'' # unescape (drop 4 s)
      else if starts_with ''&amp;'' s then CHR ''&'' # unescape (drop 5 s)
      else if starts_with ''&quot;'' s then CHR 0x22 # unescape (drop 6 s)
      else hd s # unescape (tl s))"
  by pat_completeness auto
termination
  by (relation "measure length") auto

declare unescape.simps [simp del]

lemma unescape_Nil [simp]: "unescape [] = []"
  by (subst unescape.simps) simp

lemma unescape_entities:
  "unescape (''&lt;'' @ s) = CHR ''<'' # unescape s"
  "unescape (''&gt;'' @ s) = CHR ''>'' # unescape s"
  "unescape (''&amp;'' @ s) = CHR ''&'' # unescape s"
  "unescape (''&quot;'' @ s) = CHR 0x22 # unescape s"
  by (subst unescape.simps, simp add: starts_with_def)+

lemma unescape_plain: "c \<noteq> CHR ''&'' \<Longrightarrow> unescape (c # s) = c # unescape s"
  by (subst unescape.simps) (simp add: starts_with_def)

lemma unescape_body: "unescape (xml_escape_body s) = s"
proof (induction s)
  case Nil
  then show ?case by (simp add: xml_escape_body_def)
next
  case (Cons c s)
  have "unescape (xml_escape_body (c # s)) = c # unescape (xml_escape_body s)"
    using unescape_entities [of "xml_escape_body s"]
    by (auto simp: xml_escape_body_def unescape_plain)
  with Cons show ?case by simp
qed

lemma unescape_attribute: "unescape (sanitize_for_attribute s) = s"
proof (induction s)
  case Nil
  then show ?case by (simp add: sanitize_for_attribute_def)
next
  case (Cons c s)
  have "unescape (sanitize_for_attribute (c # s)) = c # unescape (sanitize_for_attribute s)"
    using unescape_entities [of "sanitize_for_attribute s"]
    by (auto simp: sanitize_for_attribute_def unescape_plain)
  with Cons show ?case by simp
qed

lemma escape_body_no_tag:
  "CHR ''<'' \<notin> set (xml_escape_body s)" "CHR ''>'' \<notin> set (xml_escape_body s)"
  by (induction s) (auto simp: xml_escape_body_def)

lemma sanitize_attribute_no_tag:
  "CHR ''<'' \<notin> set (sanitize_for_attribute s)"
  "CHR ''>'' \<notin> set (sanitize_for_attribute s)"
  "CHR 0x22 \<notin> set (sanitize_for_attribute s)"
  by (induction s) (auto simp: sanitize_for_attribute_def)

lemmas no_tag_count = escape_body_no_tag [THEN count_notin] sanitize_attribute_no_tag [THEN count_notin]

text \<open>Tool output cannot close its own wrapper or forge another tag: whatever the tool name and
  the output, the wrapped result holds exactly the two tags of the wrapper, each opened and
  closed once, and the output can be read back unchanged.
\<close>

theorem wrap_tool_output_boundary:
  "count_list (wrap_tool_output tool out) CHR ''<'' = 2
   \<and> count_list (wrap_tool_output tool out) CHR ''>'' = 2
   \<and> (\<exists>pre body. wrap_tool_output tool out = pre @ body @ ''</tool_output>''
        \<and> CHR ''<'' \<notin> set body \<and> CHR ''>'' \<notin> set body
        \<and> last pre = CHR ''>'' \<and> unescape body = out)"
proof (intro conjI exI)
  show "wrap_tool_output tool out
     = (''<tool_output tool='' @ [CHR 0x22] @ sanitize_for_attribute tool @ [CHR 0x22] @ ''>'')
       @ xml_escape_body out @ ''</tool_output>''"
    by (simp add: wrap_tool_output_def)
qed (simp_all add: wrap_tool_output_def no_tag_count escape_body_no_tag unescape_body)

text \<open>A prefix cut at a byte limit is the longest prefix of the text within the limit that does
  not split a UTF-8 character.
\<close>

theorem truncate_bytes_longest:
  "truncate_bytes_at_boundary s n = take (Max {j \<in> {..min n (length s)}. is_char_boundary s j}) s
   \<and> length (truncate_bytes_at_boundary s n) = Max {j \<in> {..min n (length s)}. is_char_boundary s j}"
proof -
  have "Max {j \<in> {..min n (length s)}. is_char_boundary s j} = floor_char_boundary s n"
    using floor_char_boundary_le [of s n] floor_boundary_is_boundary
    by (intro Max_eqI)
      (auto simp: floor_char_boundary_def intro: floor_boundary_greatest)
  then show ?thesis
    using floor_char_boundary_le [of s n] by (simp add: truncate_bytes_eq)
qed

text \<open>Appending an ellipsis never makes the text longer than the limit, unless the suffix alone
  is longer than the limit, and then by exactly the excess the code documents.
\<close>

theorem truncate_with_ellipsis_bound:
  "length (truncate_with_ellipsis s n suffix) \<le> max n (length suffix)"
  using floor_char_boundary_le [of s "n - length suffix"]
  by (auto simp: truncate_with_ellipsis_eq)

section \<open>Substrings\<close>

text \<open>\<open>str::find\<close>, \<open>contains\<close> and \<open>replace\<close> with a substring, and \<open>str::get(a..b)\<close>.\<close>

fun str_find :: "string \<Rightarrow> string \<Rightarrow> nat option" where
  "str_find needle [] = (if needle = [] then Some 0 else None)"
| "str_find needle (c # cs) =
     (if starts_with needle (c # cs) then Some 0 else map_option Suc (str_find needle cs))"

definition str_contains :: "string \<Rightarrow> string \<Rightarrow> bool" where
  "str_contains needle hay \<longleftrightarrow> str_find needle hay \<noteq> None"

fun str_replace :: "string \<Rightarrow> string \<Rightarrow> string \<Rightarrow> string" where
  "str_replace pat to [] = []"
| "str_replace pat to (c # cs) =
     (if starts_with pat (c # cs) then to @ str_replace pat to (drop (length pat - 1) cs)
      else c # str_replace pat to cs)"

definition str_get_range :: "string \<Rightarrow> nat \<Rightarrow> nat \<Rightarrow> string option" where
  "str_get_range s a b =
     (if a \<le> b \<and> b \<le> length s \<and> is_char_boundary s a \<and> is_char_boundary s b
      then Some (take (b - a) (drop a s)) else None)"

lemma str_contains_Nil: "str_contains needle [] \<longleftrightarrow> needle = []"
  by (simp add: str_contains_def)

lemma str_contains_Cons:
  "str_contains needle (c # cs) \<longleftrightarrow> starts_with needle (c # cs) \<or> str_contains needle cs"
  by (simp add: str_contains_def)

lemma str_contains_iff: "str_contains needle s \<longleftrightarrow> (\<exists>a b. s = a @ needle @ b)"
proof (induction s)
  case (Cons c cs)
  show ?case
  proof
    assume "str_contains needle (c # cs)"
    then show "\<exists>a b. c # cs = a @ needle @ b"
      using Cons.IH unfolding str_contains_Cons starts_with_iff by (metis append_Cons append_Nil)
  next
    assume "\<exists>a b. c # cs = a @ needle @ b"
    then obtain a b where ab: "c # cs = a @ needle @ b" by blast
    then have "starts_with needle (c # cs) \<or> (\<exists>a b. cs = a @ needle @ b)"
      unfolding starts_with_iff by (cases a) auto
    then show "str_contains needle (c # cs)"
      using Cons.IH by (auto simp: str_contains_Cons)
  qed
qed (simp add: str_contains_Nil)

lemma starts_with_Cons: "starts_with (a # p) (b # s) \<longleftrightarrow> a = b \<and> starts_with p s"
  by (auto simp: starts_with_def)

lemma starts_with_Nil [simp]: "starts_with [] s"
  by (simp add: starts_with_def)

lemma str_contains_skip:
  "c \<notin> set q \<Longrightarrow> str_contains (c # p) (q @ s) \<longleftrightarrow> str_contains (c # p) s"
  by (induction q) (auto simp: str_contains_Cons starts_with_Cons)

text \<open>Replacing a pattern whose first character occurs nowhere else in it, by a text that starts alike
  but differs from it, leaves no occurrence: none can straddle the edge of a replacement.\<close>

lemma replace_keeps_prefix:
  assumes "c \<notin> set p'"
  shows "starts_with p' (str_replace (c # p) (c # q) s) \<Longrightarrow> starts_with p' s"
  using assms
proof (induction s arbitrary: p')
  case Nil
  then show ?case by simp
next
  case (Cons x s)
  then show ?case
    by (cases p') (auto simp: starts_with_Cons split: if_splits)
qed

lemma replace_removes:
  assumes "c \<notin> set p" "c \<notin> set q" "\<And>x. \<not> starts_with p (q @ x)"
  shows "\<not> str_contains (c # p) (str_replace (c # p) (c # q) s)"
proof (induction "c # p" "c # q" s rule: str_replace.induct)
  case 1
  then show ?case by (simp add: str_contains_Nil)
next
  case (2 x s)
  show ?case
  proof (cases "starts_with (c # p) (x # s)")
    case True
    with 2(1) assms show ?thesis
      by (simp add: str_contains_Cons starts_with_Cons str_contains_skip)
  next
    case False
    have "\<not> starts_with (c # p) (x # str_replace (c # p) (c # q) s)"
      using False replace_keeps_prefix [OF assms(1), of p q s] by (auto simp: starts_with_Cons)
    with 2(2) False show ?thesis by (simp add: str_contains_Cons)
  qed
qed

end
