(* ===== verification/Core_Types.thy ===== *)
theory Core_Types
  imports Complex_Main Prelude Rust_Text
begin

text \<open>
  The vocabulary of \<open>crabgent-core\<close>: subjects (\<open>subject.rs\<close>), the scope vector of memory and
  session rows (\<open>memory/scope.rs\<close>), trimmed identifiers (\<open>newtype.rs\<close>), model targets
  (\<open>model/target.rs\<close>), messages with their JSON form (\<open>message.rs\<close>, \<open>message/payload.rs\<close>,
  \<open>voice.rs\<close>), requests and responses (\<open>types.rs\<close>), the three error enums (\<open>error.rs\<close>), and the
  classifiers of the unresolved message tail (\<open>message/tail.rs\<close>).

  Two codecs of third-party crates are parameters wherever they occur: base64 (\<open>b64\<close>) and the
  RFC 3339 form of a time stamp (\<open>rfc\<close>). \<open>u32\<close> and \<open>usize\<close> values that the code only
  stores, compares and prints are natural numbers.
\<close>

section \<open>JSON values\<close>

text \<open>\<open>serde_json::Value\<close>. The workspace builds \<open>serde_json\<close> with \<open>preserve_order\<close>, so an object
  is an association list in insertion order; a number is kept as its literal.\<close>

datatype (discs_sels) json =
    JNull
  | JBool bool
  | JNum string
  | JStr string
  | JArr "json list"
  | JObj "(string \<times> json) list"

definition json_get :: "string \<Rightarrow> json \<Rightarrow> json option" where
  "json_get k v = (case v of JObj m \<Rightarrow> map_of m k | _ \<Rightarrow> None)"

definition as_str :: "json \<Rightarrow> string option" where
  "as_str v = (case v of JStr s \<Rightarrow> Some s | _ \<Rightarrow> None)"

definition as_array :: "json \<Rightarrow> json list option" where
  "as_array v = (case v of JArr xs \<Rightarrow> Some xs | _ \<Rightarrow> None)"

lemma json_get_JObj [simp]: "json_get k (JObj m) = map_of m k"
  by (simp add: json_get_def)

lemma as_str_simps [simp]: "as_str (JStr s) = Some s" "as_array (JArr xs) = Some xs"
  by (simp_all add: as_str_def as_array_def)

definition json_opt :: "('a \<Rightarrow> json) \<Rightarrow> 'a option \<Rightarrow> json" where
  "json_opt f x = (case x of None \<Rightarrow> JNull | Some v \<Rightarrow> f v)"

text \<open>A field with \<open>skip_serializing_if\<close> is written only when present.\<close>

definition opt_field :: "string \<Rightarrow> ('a \<Rightarrow> json) \<Rightarrow> 'a option \<Rightarrow> (string \<times> json) list" where
  "opt_field k f x = (case x of None \<Rightarrow> [] | Some v \<Rightarrow> [(k, f v)])"

definition list_field :: "string \<Rightarrow> ('a \<Rightarrow> json) \<Rightarrow> 'a list \<Rightarrow> (string \<times> json) list" where
  "list_field k f xs = (if xs = [] then [] else [(k, JArr (map f xs))])"

definition json_nat :: "nat \<Rightarrow> json" where
  "json_nat n = JNum (show_nat n)"

section \<open>Subjects\<close>

type_synonym owner = string
type_synonym thread_id = string

record subject =
  sub_id :: string
  sub_attrs :: "(string, string) hmap"

definition subject_try_new :: "string \<Rightarrow> unit + subject" where
  "subject_try_new s =
     (if trim s = [] then Inl () else Inr \<lparr>sub_id = s, sub_attrs = []\<rparr>)"

definition with_attr :: "string \<Rightarrow> string \<Rightarrow> subject \<Rightarrow> subject" where
  "with_attr k v s = s\<lparr>sub_attrs := AList.update k v (sub_attrs s)\<rparr>"

definition attr :: "subject \<Rightarrow> string \<Rightarrow> string option" where
  "attr s k = map_of (sub_attrs s) k"

lemma attr_with_attr: "attr (with_attr k v s) k' = (if k' = k then Some v else attr s k')"
  by (simp add: attr_def with_attr_def update_conv')

section \<open>Scopes\<close>

record memory_scope =
  sc_owner :: "owner option"
  sc_channel :: "string option"
  sc_conv :: "string option"
  sc_agent :: "string option"
  sc_kind :: "string option"

definition global_scope :: memory_scope where
  "global_scope = \<lparr>sc_owner = None, sc_channel = None, sc_conv = None, sc_agent = None,
                   sc_kind = None\<rparr>"

definition for_owner :: "owner \<Rightarrow> memory_scope" where
  "for_owner ow = global_scope\<lparr>sc_owner := Some ow\<rparr>"

definition scope_from_subject :: "subject \<Rightarrow> memory_scope" where
  "scope_from_subject s =
     \<lparr>sc_owner = Some (sub_id s), sc_channel = attr s ''channel'', sc_conv = attr s ''conv'',
      sc_agent = attr s ''agent'', sc_kind = attr s ''channel_kind''\<rparr>"

definition opt_eq :: "'a option \<Rightarrow> 'a option \<Rightarrow> bool" where
  "opt_eq flt target = is_none_or (\<lambda>f. target = Some f) flt"

definition scope_matches :: "memory_scope \<Rightarrow> memory_scope \<Rightarrow> bool" where
  "scope_matches s t \<longleftrightarrow>
     opt_eq (sc_owner s) (sc_owner t) \<and> opt_eq (sc_channel s) (sc_channel t) \<and>
     opt_eq (sc_conv s) (sc_conv t) \<and> opt_eq (sc_agent s) (sc_agent t) \<and>
     opt_eq (sc_kind s) (sc_kind t)"

definition is_within_subject :: "memory_scope \<Rightarrow> subject \<Rightarrow> bool" where
  "is_within_subject s sub = scope_matches (scope_from_subject sub) s"

definition with_channel :: "string \<Rightarrow> memory_scope \<Rightarrow> memory_scope" where
  "with_channel c s = s\<lparr>sc_channel := Some c\<rparr>"
definition with_conv :: "string \<Rightarrow> memory_scope \<Rightarrow> memory_scope" where
  "with_conv c s = s\<lparr>sc_conv := Some c\<rparr>"
definition with_agent :: "string \<Rightarrow> memory_scope \<Rightarrow> memory_scope" where
  "with_agent a s = s\<lparr>sc_agent := Some a\<rparr>"
definition with_kind :: "string \<Rightarrow> memory_scope \<Rightarrow> memory_scope" where
  "with_kind k s = s\<lparr>sc_kind := Some k\<rparr>"

lemma opt_eq_refl [simp]: "opt_eq x x"
  by (cases x) (simp_all add: opt_eq_def)

lemma opt_eq_None [simp]: "opt_eq None y"
  by (simp add: opt_eq_def)

lemma opt_eq_Some: "opt_eq (Some a) y \<longleftrightarrow> y = Some a"
  by (simp add: opt_eq_def)

lemma opt_eq_trans: "opt_eq x y \<Longrightarrow> opt_eq y z \<Longrightarrow> opt_eq x z"
  by (cases x; cases y) (simp_all add: opt_eq_def)

lemma opt_eq_antisym: "opt_eq x y \<Longrightarrow> opt_eq y x \<Longrightarrow> x = y"
  by (cases x; cases y) (simp_all add: opt_eq_def)

lemma scope_matches_refl [simp]: "scope_matches s s"
  by (simp add: scope_matches_def)

lemma scope_matches_global [simp]: "scope_matches global_scope s"
  by (simp add: scope_matches_def global_scope_def)

lemma scope_matches_trans: "scope_matches r s \<Longrightarrow> scope_matches s t \<Longrightarrow> scope_matches r t"
  unfolding scope_matches_def by (blast intro: opt_eq_trans)

lemma scope_matches_antisym: "scope_matches s t \<Longrightarrow> scope_matches t s \<Longrightarrow> s = t"
  by (cases s; cases t) (auto simp: scope_matches_def dest: opt_eq_antisym)

lemma scope_matches_from_subject:
  "scope_matches (scope_from_subject sub) s \<Longrightarrow> sc_owner s = Some (sub_id sub)"
  by (simp add: scope_matches_def scope_from_subject_def opt_eq_Some)

section \<open>Model identifiers\<close>

type_synonym model_id = string

definition model_id_new :: "string \<Rightarrow> model_id" where
  "model_id_new v = (let t = trim v in if length t = length v then v else t)"

datatype (discs_sels) model_target = Id model_id | Provider string model_id

definition model_target_new :: "string \<Rightarrow> model_id \<Rightarrow> model_target" where
  "model_target_new p m = Provider (trim p) m"

definition target_provider :: "model_target \<Rightarrow> string option" where
  "target_provider t = (case t of Id m \<Rightarrow> None | Provider p m \<Rightarrow> Some p)"

definition target_model :: "model_target \<Rightarrow> model_id" where
  "target_model t = (case t of Id m \<Rightarrow> m | Provider p m \<Rightarrow> m)"

definition show_target :: "model_target \<Rightarrow> string" where
  "show_target t = (case t of Id m \<Rightarrow> m | Provider p m \<Rightarrow> p @ ''/'' @ m)"

lemma target_simps [simp]:
  "target_provider (Id m) = None" "target_provider (Provider p m) = Some p"
  "target_model (Id m) = m" "target_model (Provider p m) = m"
  by (simp_all add: target_provider_def target_model_def)

datatype reasoning_effort = Disabled | Low | Medium | High | XHigh

definition effort_as_str :: "reasoning_effort \<Rightarrow> string" where
  "effort_as_str r = (case r of
       Disabled \<Rightarrow> ''none'' | Low \<Rightarrow> ''low'' | Medium \<Rightarrow> ''medium'' | High \<Rightarrow> ''high''
     | XHigh \<Rightarrow> ''xhigh'')"

definition effort_from_str :: "string \<Rightarrow> string + reasoning_effort" where
  "effort_from_str s =
     (if s = ''none'' then Inr Disabled
      else if s = ''low'' then Inr Low
      else if s = ''medium'' then Inr Medium
      else if s = ''high'' then Inr High
      else if s = ''xhigh'' then Inr XHigh
      else Inl s)"

lemma effort_from_as_str [simp]: "effort_from_str (effort_as_str r) = Inr r"
  by (cases r) (simp_all add: effort_as_str_def effort_from_str_def)

lemma effort_as_from_str: "effort_from_str s = Inr r \<Longrightarrow> effort_as_str r = s"
  by (auto simp: effort_as_str_def effort_from_str_def split: if_splits)

section \<open>Messages\<close>

datatype energy_band = Low_Energy | Medium_Energy | High_Energy

record audio_event =
  ae_label :: string
  ae_start_ms :: "nat option"
  ae_end_ms :: "nat option"

record speaker_identity =
  sp_id :: string
  sp_display :: "string option"
  sp_confidence :: nat
  sp_source :: string
  sp_speaker_label :: "string option"

definition speaker_identity_new :: "string \<Rightarrow> string \<Rightarrow> nat \<Rightarrow> speaker_identity" where
  "speaker_identity_new i src c =
     \<lparr>sp_id = i, sp_display = None, sp_confidence = min c 100, sp_source = src,
      sp_speaker_label = None\<rparr>"

record voice_signals =
  vs_pause_ms :: "nat option"
  vs_speech_rate_wpm :: "nat option"
  vs_hesitation_count :: nat
  vs_audio_events :: "audio_event list"
  vs_speakers :: "string list"
  vs_speaker_identities :: "speaker_identity list"
  vs_energy_band :: "energy_band option"

text \<open>The three payload types carry decoded bytes (\<open>char list\<close>) and a MIME type; their
  constructors validate the MIME type before the length.\<close>

record image_payload =
  img_bytes :: string
  img_mime :: string

record audio_payload =
  aud_bytes :: string
  aud_mime :: string
  aud_filename :: "string option"

record file_payload =
  fil_bytes :: string
  fil_mime :: string
  fil_filename :: string

datatype payload_error = UnsupportedMime string | TooLarge string nat

definition image_payload_max_bytes :: nat where "image_payload_max_bytes = 5000000"
definition audio_payload_max_bytes :: nat where "audio_payload_max_bytes = 25000000"
definition file_payload_max_bytes :: nat where "file_payload_max_bytes = 25000000"

definition image_allowed_mimes :: "string list" where
  "image_allowed_mimes = [''image/png'', ''image/jpeg'', ''image/gif'', ''image/webp'']"

definition audio_allowed_mimes :: "string list" where
  "audio_allowed_mimes =
     [''audio/ogg'', ''audio/aac'', ''audio/mpeg'', ''audio/mp3'', ''audio/mp4'',
      ''audio/x-m4a'', ''audio/wav'', ''audio/webm'', ''audio/flac'', ''audio/x-flac'',
      ''audio/opus'', ''audio/L16'']"

definition file_allowed_mimes :: "string list" where
  "file_allowed_mimes = [''text/plain'']"

definition validate_payload ::
  "string \<Rightarrow> nat \<Rightarrow> string \<Rightarrow> string list \<Rightarrow> nat \<Rightarrow> payload_error + unit" where
  "validate_payload knd byte_len mime allowed max_bytes =
     (if \<not> List.member allowed mime then Inl (UnsupportedMime mime)
      else if max_bytes < byte_len then Inl (TooLarge knd max_bytes)
      else Inr ())"

definition image_payload_new :: "string \<Rightarrow> string \<Rightarrow> payload_error + image_payload" where
  "image_payload_new bytes mime =
     and_then (validate_payload ''image'' (length bytes) mime image_allowed_mimes
                 image_payload_max_bytes)
       (\<lambda>_. Inr \<lparr>img_bytes = bytes, img_mime = mime\<rparr>)"

definition audio_payload_new ::
  "string \<Rightarrow> string \<Rightarrow> string option \<Rightarrow> payload_error + audio_payload" where
  "audio_payload_new bytes mime fname =
     and_then (validate_payload ''audio'' (length bytes) mime audio_allowed_mimes
                 audio_payload_max_bytes)
       (\<lambda>_. Inr \<lparr>aud_bytes = bytes, aud_mime = mime, aud_filename = fname\<rparr>)"

definition file_payload_new ::
  "string \<Rightarrow> string \<Rightarrow> string \<Rightarrow> payload_error + file_payload" where
  "file_payload_new bytes mime fname =
     and_then (validate_payload ''file'' (length bytes) mime file_allowed_mimes
                 file_payload_max_bytes)
       (\<lambda>_. Inr \<lparr>fil_bytes = bytes, fil_mime = mime, fil_filename = fname\<rparr>)"

datatype (discs_sels) content_block =
    Text string
  | Image image_payload
  | Audio audio_payload
  | File file_payload
  | Transcript string string "voice_signals option"

record tool_call =
  tc_id :: string
  tc_name :: string
  tc_args :: json
  tc_thought_signature :: "string option"

datatype (discs_sels) message =
    System string
  | User "content_block list" "instant option"
  | Assistant string "tool_call list"
  | ToolResult string json bool
  | ChannelOutbound owner string string string "string option" bool
  | ProviderBlock string json

definition user_message :: "content_block list \<Rightarrow> message" where
  "user_message content = User content None"

definition user_at :: "content_block list \<Rightarrow> instant \<Rightarrow> message" where
  "user_at content ts = User content (Some ts)"

section \<open>Serialized messages\<close>

text \<open>\<open>serde_json::to_value\<close> on the types above, field by field as the derived and the written
  serializers emit them.\<close>

definition energy_to_json :: "energy_band \<Rightarrow> json" where
  "energy_to_json e = JStr (case e of
       Low_Energy \<Rightarrow> ''low'' | Medium_Energy \<Rightarrow> ''medium'' | High_Energy \<Rightarrow> ''high'')"

definition audio_event_to_json :: "audio_event \<Rightarrow> json" where
  "audio_event_to_json e = JObj ([(''label'', JStr (ae_label e))]
     @ opt_field ''start_ms'' json_nat (ae_start_ms e)
     @ opt_field ''end_ms'' json_nat (ae_end_ms e))"

definition speaker_to_json :: "speaker_identity \<Rightarrow> json" where
  "speaker_to_json s = JObj ([(''id'', JStr (sp_id s))]
     @ opt_field ''display'' JStr (sp_display s)
     @ [(''confidence'', json_nat (sp_confidence s)), (''source'', JStr (sp_source s))]
     @ opt_field ''speaker_label'' JStr (sp_speaker_label s))"

definition voice_to_json :: "voice_signals \<Rightarrow> json" where
  "voice_to_json v = JObj (opt_field ''pause_ms'' json_nat (vs_pause_ms v)
     @ opt_field ''speech_rate_wpm'' json_nat (vs_speech_rate_wpm v)
     @ [(''hesitation_count'', json_nat (vs_hesitation_count v))]
     @ list_field ''audio_events'' audio_event_to_json (vs_audio_events v)
     @ list_field ''speakers'' JStr (vs_speakers v)
     @ list_field ''speaker_identities'' speaker_to_json (vs_speaker_identities v)
     @ opt_field ''energy_band'' energy_to_json (vs_energy_band v))"

definition block_to_json :: "(string \<Rightarrow> string) \<Rightarrow> content_block \<Rightarrow> json" where
  "block_to_json b64 c = (case c of
       Text t \<Rightarrow> JObj [(''type'', JStr ''text''), (''text'', JStr t)]
     | Image p \<Rightarrow> JObj [(''type'', JStr ''image''), (''mime'', JStr (img_mime p)),
                       (''data'', JStr (b64 (img_bytes p)))]
     | Audio p \<Rightarrow> JObj [(''type'', JStr ''audio''), (''mime'', JStr (aud_mime p)),
                       (''data'', JStr (b64 (aud_bytes p))),
                       (''filename'', json_opt JStr (aud_filename p))]
     | File p \<Rightarrow> JObj [(''type'', JStr ''file''), (''mime'', JStr (fil_mime p)),
                      (''data'', JStr (b64 (fil_bytes p))), (''filename'', JStr (fil_filename p))]
     | Transcript t src v \<Rightarrow> JObj [(''type'', JStr ''transcript''), (''text'', JStr t),
                      (''source_audio'', JStr src), (''voice'', json_opt voice_to_json v)])"

definition tool_call_to_json :: "tool_call \<Rightarrow> json" where
  "tool_call_to_json c = JObj ([(''id'', JStr (tc_id c)), (''name'', JStr (tc_name c)),
     (''args'', tc_args c)] @ opt_field ''thought_signature'' JStr (tc_thought_signature c))"

definition message_to_json ::
  "(string \<Rightarrow> string) \<Rightarrow> (instant \<Rightarrow> string) \<Rightarrow> message \<Rightarrow> json" where
  "message_to_json b64 rfc m = (case m of
       System c \<Rightarrow> JObj [(''role'', JStr ''system''), (''content'', JStr c)]
     | User cs ts \<Rightarrow> JObj ([(''role'', JStr ''user''),
                          (''content'', JArr (map (block_to_json b64) cs))]
                        @ opt_field ''timestamp'' (\<lambda>t. JStr (rfc t)) ts)
     | Assistant t calls \<Rightarrow> JObj [(''role'', JStr ''assistant''), (''text'', JStr t),
                          (''tool_calls'', JArr (map tool_call_to_json calls))]
     | ToolResult i out err \<Rightarrow> JObj [(''role'', JStr ''tool_result''), (''call_id'', JStr i),
                          (''output'', out), (''is_error'', JBool err)]
     | ChannelOutbound conv body ch mid troot bc \<Rightarrow>
         JObj [(''role'', JStr ''channel_outbound''), (''conv'', JStr conv),
               (''body'', JStr body), (''channel'', JStr ch), (''message_id'', JStr mid),
               (''thread_root'', json_opt JStr troot), (''broadcast'', JBool bc)]
     | ProviderBlock p b \<Rightarrow> JObj [(''role'', JStr ''provider_block''), (''provider'', JStr p),
               (''block'', b)])"

lemma message_role:
  "json_get ''role'' (message_to_json b64 rfc m) = Some (JStr (case m of
       System _ \<Rightarrow> ''system'' | User _ _ \<Rightarrow> ''user'' | Assistant _ _ \<Rightarrow> ''assistant''
     | ToolResult _ _ _ \<Rightarrow> ''tool_result'' | ChannelOutbound _ _ _ _ _ _ \<Rightarrow> ''channel_outbound''
     | ProviderBlock _ _ \<Rightarrow> ''provider_block''))"
  by (cases m) (simp_all add: message_to_json_def)

section \<open>Requests, responses and tool results\<close>

record web_search_config =
  ws_enabled :: bool
  ws_max_uses :: "nat option"
  ws_allowed_domains :: "string list"
  ws_blocked_domains :: "string list"

definition web_search_default :: web_search_config where
  "web_search_default = \<lparr>ws_enabled = False, ws_max_uses = None, ws_allowed_domains = [],
                         ws_blocked_domains = []\<rparr>"

record citation =
  cit_url :: string
  cit_title :: "string option"
  cit_cited_text :: "string option"
  cit_provider :: string
  cit_raw :: json

datatype tool_choice = Choice_Auto | Choice_Any | Choice_Tool string | Choice_None

record tool_def =
  td_name :: string
  td_description :: string
  td_input_schema :: json

text \<open>The sampling temperature (\<open>f32\<close>) is a rational; the code stores it, compares it and scales
  a milli-unit integer into it, and the rounding of that one division is not modelled.\<close>

record llm_request =
  rq_model :: model_id
  rq_system_prompt :: "string option"
  rq_messages :: "json list"
  rq_tools :: "tool_def list"
  rq_max_tokens :: "nat option"
  rq_temperature :: "rat option"
  rq_stop_sequences :: "string list"
  rq_reasoning_effort :: "reasoning_effort option"
  rq_web_search :: web_search_config
  rq_tool_choice :: "tool_choice option"

datatype tool_access = Access_All | Access_None | Access_Only "string list"

definition tool_allows :: "tool_access \<Rightarrow> string \<Rightarrow> bool" where
  "tool_allows a name = (case a of
       Access_All \<Rightarrow> True
     | Access_None \<Rightarrow> False
     | Access_Only tools \<Rightarrow> list_ex (\<lambda>t. t = name) tools)"

datatype stop_reason = EndTurn | ToolUse | MaxTokens | StopSequence | OtherStop

record usage =
  us_input :: nat
  us_output :: nat
  us_cache_creation :: nat
  us_cache_read :: nat

definition usage_default :: usage where
  "usage_default = \<lparr>us_input = 0, us_output = 0, us_cache_creation = 0, us_cache_read = 0\<rparr>"

record llm_response =
  rs_text :: string
  rs_tool_calls :: "tool_call list"
  rs_stop_reason :: stop_reason
  rs_usage :: usage
  rs_model :: model_id

record tool_result =
  tr_call_id :: string
  tr_output :: json
  tr_is_error :: bool
  tr_run_messages :: "message list"

definition tool_success :: "json \<Rightarrow> tool_result" where
  "tool_success v = \<lparr>tr_call_id = [], tr_output = v, tr_is_error = False, tr_run_messages = []\<rparr>"

definition soft_error :: "json \<Rightarrow> tool_result" where
  "soft_error v = \<lparr>tr_call_id = [], tr_output = v, tr_is_error = True, tr_run_messages = []\<rparr>"

definition with_call_id :: "string \<Rightarrow> tool_result \<Rightarrow> tool_result" where
  "with_call_id i r = r\<lparr>tr_call_id := i\<rparr>"

definition with_run_message :: "message \<Rightarrow> tool_result \<Rightarrow> tool_result" where
  "with_run_message m r = r\<lparr>tr_run_messages := tr_run_messages r @ [m]\<rparr>"

section \<open>Errors\<close>

datatype provider_error =
    PE_Transport string
  | PE_Api nat string "nat option"
  | PE_Auth string
  | PE_RateLimited "nat option"
  | PE_MalformedResponse string
  | PE_ModelDiscovery string
  | PE_ToolsUnsupported string string
  | PE_VisionUnsupported string string
  | PE_AudioUnsupported string string
  | PE_ReasoningEffortUnsupported string string
  | PE_WebSearchUnsupported string string
  | PE_RetryableStream string
  | PE_Cancelled
  | PE_Timeout
  | PE_Other string

datatype tool_error =
    TE_InvalidArgs string
  | TE_Execution string
  | TE_Io string
  | TE_Cancelled
  | TE_NotFound string
  | TE_Permission string

datatype kernel_error =
    KE_Provider provider_error
  | KE_Tool tool_error
  | KE_HookDenied string
  | KE_PolicyDenied string
  | KE_MaxTurnsExceeded nat
  | KE_TooManyTools nat nat
  | KE_Cancelled
  | KE_Paused
  | KE_ShuttingDown
  | KE_UnknownModel model_id
  | KE_AmbiguousModel model_id
  | KE_UnknownModelTarget model_target
  | KE_UnknownModelOverride string model_id
  | KE_ModelOverrideStore string
  | KE_ReasoningEffortOverrideStore string
  | KE_Internal string

definition debug_opt_nat :: "nat option \<Rightarrow> string" where
  "debug_opt_nat x = (case x of None \<Rightarrow> ''None'' | Some n \<Rightarrow> ''Some('' @ show_nat n @ '')'')"

definition unsupported_text :: "string \<Rightarrow> string \<Rightarrow> string \<Rightarrow> string" where
  "unsupported_text what p m =
     what @ '' not supported by provider '' @ [CHR 0x27] @ p @ [CHR 0x27] @ '' model ''
       @ [CHR 0x27] @ m @ [CHR 0x27]"

definition show_provider_error :: "provider_error \<Rightarrow> string" where
  "show_provider_error e = (case e of
       PE_Transport s \<Rightarrow> ''transport error: '' @ s
     | PE_Api st msg _ \<Rightarrow> ''api error: '' @ show_nat st @ '' '' @ msg
     | PE_Auth s \<Rightarrow> ''auth error: '' @ s
     | PE_RateLimited r \<Rightarrow> ''rate limited: retry after '' @ debug_opt_nat r @ ''s''
     | PE_MalformedResponse s \<Rightarrow> ''malformed response: '' @ s
     | PE_ModelDiscovery s \<Rightarrow> ''model discovery failed: '' @ s
     | PE_ToolsUnsupported p m \<Rightarrow> unsupported_text ''tools'' p m
     | PE_VisionUnsupported p m \<Rightarrow> unsupported_text ''vision'' p m
     | PE_AudioUnsupported p m \<Rightarrow> unsupported_text ''audio'' p m
     | PE_ReasoningEffortUnsupported p m \<Rightarrow> unsupported_text ''reasoning effort'' p m
     | PE_WebSearchUnsupported p m \<Rightarrow> unsupported_text ''web search'' p m
     | PE_RetryableStream s \<Rightarrow> ''retryable stream error: '' @ s
     | PE_Cancelled \<Rightarrow> ''cancelled''
     | PE_Timeout \<Rightarrow> ''timeout''
     | PE_Other s \<Rightarrow> ''other: '' @ s)"

definition show_tool_error :: "tool_error \<Rightarrow> string" where
  "show_tool_error e = (case e of
       TE_InvalidArgs s \<Rightarrow> ''invalid args: '' @ s
     | TE_Execution s \<Rightarrow> ''execution failed: '' @ s
     | TE_Io s \<Rightarrow> ''io error: '' @ s
     | TE_Cancelled \<Rightarrow> ''cancelled''
     | TE_NotFound s \<Rightarrow> ''not found: '' @ s
     | TE_Permission s \<Rightarrow> ''permission denied: '' @ s)"

definition backend_unavailable :: "string \<Rightarrow> tool_error" where
  "backend_unavailable op = TE_Execution (op @ '': backend unavailable'')"

definition show_kernel_error :: "kernel_error \<Rightarrow> string" where
  "show_kernel_error e = (case e of
       KE_Provider p \<Rightarrow> ''provider error: '' @ show_provider_error p
     | KE_Tool t \<Rightarrow> ''tool error: '' @ show_tool_error t
     | KE_HookDenied r \<Rightarrow> ''hook denied: '' @ r
     | KE_PolicyDenied r \<Rightarrow> ''policy denied: '' @ r
     | KE_MaxTurnsExceeded n \<Rightarrow> ''max turns exceeded: '' @ show_nat n
     | KE_TooManyTools c m \<Rightarrow> ''tool count '' @ show_nat c @ '' exceeds advertised limit ''
                             @ show_nat m
     | KE_Cancelled \<Rightarrow> ''cancelled''
     | KE_Paused \<Rightarrow> ''paused''
     | KE_ShuttingDown \<Rightarrow> ''kernel shutting down''
     | KE_UnknownModel m \<Rightarrow> ''unknown model: '' @ m
     | KE_AmbiguousModel m \<Rightarrow> ''ambiguous model: '' @ m
     | KE_UnknownModelTarget t \<Rightarrow> ''unknown model target: '' @ show_target t
     | KE_UnknownModelOverride sc m \<Rightarrow> ''unknown '' @ sc @ '' model override: '' @ m
     | KE_ModelOverrideStore r \<Rightarrow> ''model override store error: '' @ r
     | KE_ReasoningEffortOverrideStore r \<Rightarrow> ''reasoning effort override store error: '' @ r
     | KE_Internal s \<Rightarrow> ''internal: '' @ s)"

section \<open>The unresolved message tail\<close>

definition is_unresolved_tail_value :: "json \<Rightarrow> bool" where
  "is_unresolved_tail_value v =
     (let role = unwrap_or [] (Option.bind (json_get ''role'' v) as_str) in
      if role = ''tool_result'' then True
      else if role = ''assistant'' then
        (let tool_calls_empty =
               is_none_or (\<lambda>xs. xs = []) (Option.bind (json_get ''tool_calls'' v) as_array) in
         if \<not> tool_calls_empty then True
         else is_none_or (\<lambda>t. t = []) (Option.bind (json_get ''text'' v) as_str))
      else False)"

text \<open>\<open>Iterator::rposition\<close>.\<close>

definition rposition :: "('a \<Rightarrow> bool) \<Rightarrow> 'a list \<Rightarrow> nat option" where
  "rposition P xs = (case dropWhile (\<lambda>x. \<not> P x) (rev xs) of
                       [] \<Rightarrow> None | y # ys \<Rightarrow> Some (length ys))"

definition unresolved_tail_boundary :: "json list \<Rightarrow> nat" where
  "unresolved_tail_boundary ms =
     (case rposition (\<lambda>m. \<not> is_unresolved_tail_value m) ms of
        None \<Rightarrow> 0 | Some pos \<Rightarrow> pos + 1)"

definition list_get :: "'a list \<Rightarrow> nat \<Rightarrow> 'a option" where
  "list_get xs i = (if i < length xs then Some (xs ! i) else None)"

definition tool_result_at :: "message list \<Rightarrow> nat \<Rightarrow> bool" where
  "tool_result_at ms i = is_some_and is_ToolResult (list_get ms i)"

fun walk_left :: "message list \<Rightarrow> nat \<Rightarrow> nat" where
  "walk_left ms 0 = 0"
| "walk_left ms (Suc i) = (if tool_result_at ms (Suc i) then walk_left ms i else Suc i)"

definition tool_result_group_boundary :: "message list \<Rightarrow> nat \<Rightarrow> nat" where
  "tool_result_group_boundary ms proposed =
     (if \<not> tool_result_at ms proposed then proposed
      else let idx = walk_left ms proposed in
        (case list_get ms idx of
           Some (Assistant t calls) \<Rightarrow> if calls \<noteq> [] then idx else proposed
         | _ \<Rightarrow> proposed))"

lemma tail_value_of_message:
  "is_unresolved_tail_value (message_to_json b64 rfc m) = (case m of
       ToolResult _ _ _ \<Rightarrow> True
     | Assistant t calls \<Rightarrow> calls \<noteq> [] \<or> t = []
     | _ \<Rightarrow> False)"
  by (cases m) (auto simp: message_to_json_def is_unresolved_tail_value_def Let_def)

lemma rposition_snoc:
  "rposition P (xs @ [x]) = (if P x then Some (length xs) else rposition P xs)"
  by (simp add: rposition_def)

lemma rposition_None: "rposition P xs = None \<longleftrightarrow> (\<forall>x\<in>set xs. \<not> P x)"
proof (induction xs rule: rev_induct)
  case Nil
  then show ?case by (simp add: rposition_def)
next
  case (snoc x xs)
  then show ?case by (simp add: rposition_snoc)
qed

lemma rposition_Some:
  "rposition P xs = Some i \<Longrightarrow>
     i < length xs \<and> P (xs ! i) \<and> (\<forall>j. i < j \<longrightarrow> j < length xs \<longrightarrow> \<not> P (xs ! j))"
proof (induction xs rule: rev_induct)
  case Nil
  then show ?case by (simp add: rposition_def)
next
  case (snoc x xs)
  then show ?case
    by (auto simp: rposition_snoc nth_append less_Suc_eq split: if_splits)
qed

lemma walk_left_le: "walk_left ms i \<le> i"
  by (induction ms i rule: walk_left.induct) auto

lemma walk_left_between:
  "walk_left ms i < j \<Longrightarrow> j \<le> i \<Longrightarrow> tool_result_at ms j"
proof (induction ms i rule: walk_left.induct)
  case (2 ms i)
  then show ?case by (cases "j = Suc i") (auto split: if_splits)
qed simp

lemma walk_left_stop: "walk_left ms i = 0 \<or> \<not> tool_result_at ms (walk_left ms i)"
  by (induction ms i rule: walk_left.induct) auto

section \<open>Properties\<close>

text \<open>The tail boundary splits the serialized history exactly: everything from the boundary on
  belongs to the unresolved tail, and the message just before the boundary is settled.\<close>

theorem unresolved_tail_boundary_exact:
  "unresolved_tail_boundary ms \<le> length ms
   \<and> list_all is_unresolved_tail_value (drop (unresolved_tail_boundary ms) ms)
   \<and> (unresolved_tail_boundary ms = 0
      \<or> is_unresolved_tail_value (ms ! (unresolved_tail_boundary ms - 1)) = False)"
proof (cases "rposition (\<lambda>m. \<not> is_unresolved_tail_value m) ms")
  case None
  then have "unresolved_tail_boundary ms = 0"
    by (simp add: unresolved_tail_boundary_def)
  moreover from None have "\<forall>x\<in>set ms. is_unresolved_tail_value x"
    by (simp add: rposition_None)
  ultimately show ?thesis by (simp add: list_all_iff)
next
  case (Some i)
  then have b: "unresolved_tail_boundary ms = i + 1"
    by (simp add: unresolved_tail_boundary_def)
  from rposition_Some [OF Some] show ?thesis
    by (auto simp: b list_all_length less_diff_conv)
qed

text \<open>Moving a compaction boundary never separates tool results from the call they answer:
  the boundary only moves left, and when it moves, it lands on an assistant message with tool
  calls and skips nothing but tool results.\<close>

theorem tool_result_group_boundary_keeps_group:
  "tool_result_group_boundary ms p = p
   \<or> (tool_result_group_boundary ms p < p
      \<and> (\<exists>t calls. list_get ms (tool_result_group_boundary ms p) = Some (Assistant t calls)
                  \<and> calls \<noteq> [])
      \<and> list_all (tool_result_at ms) [tool_result_group_boundary ms p + 1..<p + 1])"
proof (cases "tool_result_group_boundary ms p = p")
  case False
  then obtain t calls where
    *: "list_get ms (walk_left ms p) = Some (Assistant t calls)" "calls \<noteq> []"
       "tool_result_group_boundary ms p = walk_left ms p"
    unfolding tool_result_group_boundary_def
    by (auto simp: Let_def split: if_splits option.splits message.splits)
  moreover have "list_all (tool_result_at ms) [walk_left ms p + 1..<p + 1]"
    by (auto simp: list_all_iff Suc_le_eq intro: walk_left_between [of ms p])
  moreover have "walk_left ms p < p"
    using False *(3) walk_left_le [of ms p] by simp
  ultimately show ?thesis by auto
qed simp

end
