(* ===== verification/Policy_Action.thy ===== *)
theory Policy_Action
  imports Core_Types
begin

text \<open>
  The action enum of the permission layer (\<open>action.rs\<close>) and the matchers of the strict policy
  (\<open>policy/strict/matcher.rs\<close>, \<open>strict/target_match.rs\<close>). An action \<open>Action::X\<close> is \<open>Act_X\<close>
  and a matcher \<open>ActionMatcher::X\<close> is \<open>M_X\<close>.
\<close>

section \<open>Actions\<close>

type_synonym memory_id = string

record action_target =
  at_owner :: owner
  at_qualifier :: "string option"

definition action_target_new :: "owner \<Rightarrow> action_target" where
  "action_target_new ow = \<lparr>at_owner = ow, at_qualifier = None\<rparr>"

definition with_qualifier :: "string \<Rightarrow> action_target \<Rightarrow> action_target" where
  "with_qualifier q t = t\<lparr>at_qualifier := Some q\<rparr>"

datatype (plugins only: code size) action =
    Act_LlmCall
  | Act_ToolCall string
  | Act_Custom string
  | Act_Targeted string action_target
  | Act_MemorySearch string memory_scope
  | Act_MemoryStore memory_scope
  | Act_MemoryGet memory_id memory_scope
  | Act_MemoryDelete memory_id memory_scope
  | Act_MemoryArchive memory_id memory_scope
  | Act_MemoryUnarchive memory_id memory_scope
  | Act_MemoryExtendExpiry memory_id memory_scope
  | Act_MemoryConsolidate memory_scope
  | Act_RelationStore memory_scope
  | Act_RelationDelete memory_scope
  | Act_RelationExpand memory_scope
  | Act_SessionSearch string memory_scope
  | Act_TaskCreate "owner option"
  | Act_TaskList "owner option"
  | Act_TaskGet string "owner option"
  | Act_TaskCancel string "owner option"
  | Act_ModelList
  | Act_ModelGet model_id
  | Act_ModelsCurrent "string option"
  | Act_ModelsSetSessionOverride string model_id
  | Act_ModelsClearSessionOverride string
  | Act_ModelsSetGlobalOverride model_id
  | Act_ModelsClearGlobalOverride
  | Act_ReasoningEffortCurrent "string option"
  | Act_ReasoningEffortSetSessionOverride string reasoning_effort
  | Act_ReasoningEffortClearSessionOverride string
  | Act_ReasoningEffortSetGlobalOverride reasoning_effort
  | Act_ReasoningEffortClearGlobalOverride
  | Act_CalendarHolidaysList
  | Act_CalendarHolidaysNext
  | Act_CalendarHolidayCheck
  | Act_CalendarDaysBetween
  | Act_CalendarDateArith
  | Act_CalendarWeekdayInfo
  | Act_CronCreate memory_scope
  | Act_CronGet string memory_scope
  | Act_CronList memory_scope
  | Act_CronUpdate string memory_scope
  | Act_CronDelete string memory_scope
  | Act_HostedWebSearch string
  | Act_AudioRetain memory_scope
  | Act_GoalCreate "owner option"
  | Act_GoalGet "owner option"
  | Act_GoalUpdate "owner option"
  | Act_GoalManage "owner option"

definition action_name :: "action \<Rightarrow> string" where
  "action_name a = (case a of
       Act_LlmCall \<Rightarrow> ''llm.call''
     | Act_ToolCall name \<Rightarrow> name
     | Act_Custom name \<Rightarrow> name
     | Act_Targeted name _ \<Rightarrow> name
     | Act_MemorySearch _ _ \<Rightarrow> ''memory.search''
     | Act_MemoryStore _ \<Rightarrow> ''memory.store''
     | Act_MemoryGet _ _ \<Rightarrow> ''memory.get''
     | Act_MemoryDelete _ _ \<Rightarrow> ''memory.delete''
     | Act_MemoryArchive _ _ \<Rightarrow> ''memory.archive''
     | Act_MemoryUnarchive _ _ \<Rightarrow> ''memory.unarchive''
     | Act_MemoryExtendExpiry _ _ \<Rightarrow> ''memory.extend_expiry''
     | Act_MemoryConsolidate _ \<Rightarrow> ''memory.consolidate''
     | Act_RelationStore _ \<Rightarrow> ''memory.relation_store''
     | Act_RelationDelete _ \<Rightarrow> ''memory.relation_delete''
     | Act_RelationExpand _ \<Rightarrow> ''memory.relation_expand''
     | Act_SessionSearch _ _ \<Rightarrow> ''session.search''
     | Act_TaskCreate _ \<Rightarrow> ''task.create''
     | Act_TaskList _ \<Rightarrow> ''task.list''
     | Act_TaskGet _ _ \<Rightarrow> ''task.get''
     | Act_TaskCancel _ _ \<Rightarrow> ''task.cancel''
     | Act_ModelList \<Rightarrow> ''models.list''
     | Act_ModelGet _ \<Rightarrow> ''models.get''
     | Act_ModelsCurrent _ \<Rightarrow> ''models.current''
     | Act_ModelsSetSessionOverride _ _ \<Rightarrow> ''models.set_session_override''
     | Act_ModelsClearSessionOverride _ \<Rightarrow> ''models.clear_session_override''
     | Act_ModelsSetGlobalOverride _ \<Rightarrow> ''models.set_global_override''
     | Act_ModelsClearGlobalOverride \<Rightarrow> ''models.clear_global_override''
     | Act_ReasoningEffortCurrent _ \<Rightarrow> ''models.current_effort''
     | Act_ReasoningEffortSetSessionOverride _ _ \<Rightarrow> ''models.set_session_effort_override''
     | Act_ReasoningEffortClearSessionOverride _ \<Rightarrow> ''models.clear_session_effort_override''
     | Act_ReasoningEffortSetGlobalOverride _ \<Rightarrow> ''models.set_global_effort_override''
     | Act_ReasoningEffortClearGlobalOverride \<Rightarrow> ''models.clear_global_effort_override''
     | Act_CalendarHolidaysList \<Rightarrow> ''calendar.holidays_list''
     | Act_CalendarHolidaysNext \<Rightarrow> ''calendar.holidays_next''
     | Act_CalendarHolidayCheck \<Rightarrow> ''calendar.holiday_check''
     | Act_CalendarDaysBetween \<Rightarrow> ''calendar.days_between''
     | Act_CalendarDateArith \<Rightarrow> ''calendar.date_arith''
     | Act_CalendarWeekdayInfo \<Rightarrow> ''calendar.weekday_info''
     | Act_CronCreate _ \<Rightarrow> ''cron.create''
     | Act_CronGet _ _ \<Rightarrow> ''cron.get''
     | Act_CronList _ \<Rightarrow> ''cron.list''
     | Act_CronUpdate _ _ \<Rightarrow> ''cron.update''
     | Act_CronDelete _ _ \<Rightarrow> ''cron.delete''
     | Act_HostedWebSearch _ \<Rightarrow> ''hosted.web_search''
     | Act_AudioRetain _ \<Rightarrow> ''audio.retain''
     | Act_GoalCreate _ \<Rightarrow> ''goal.create''
     | Act_GoalGet _ \<Rightarrow> ''goal.get''
     | Act_GoalUpdate _ \<Rightarrow> ''goal.update''
     | Act_GoalManage _ \<Rightarrow> ''goal.manage'')"

definition action_scope :: "action \<Rightarrow> memory_scope option" where
  "action_scope a = (case a of
       Act_MemorySearch _ scope \<Rightarrow> Some scope
     | Act_MemoryStore scope \<Rightarrow> Some scope
     | Act_MemoryGet _ scope \<Rightarrow> Some scope
     | Act_MemoryDelete _ scope \<Rightarrow> Some scope
     | Act_MemoryArchive _ scope \<Rightarrow> Some scope
     | Act_MemoryUnarchive _ scope \<Rightarrow> Some scope
     | Act_MemoryExtendExpiry _ scope \<Rightarrow> Some scope
     | Act_MemoryConsolidate scope \<Rightarrow> Some scope
     | Act_RelationStore scope \<Rightarrow> Some scope
     | Act_RelationDelete scope \<Rightarrow> Some scope
     | Act_RelationExpand scope \<Rightarrow> Some scope
     | Act_SessionSearch _ scope \<Rightarrow> Some scope
     | Act_CronCreate scope \<Rightarrow> Some scope
     | Act_CronGet _ scope \<Rightarrow> Some scope
     | Act_CronList scope \<Rightarrow> Some scope
     | Act_CronUpdate _ scope \<Rightarrow> Some scope
     | Act_CronDelete _ scope \<Rightarrow> Some scope
     | Act_AudioRetain scope \<Rightarrow> Some scope
     | _ \<Rightarrow> None)"

section \<open>Matchers\<close>

datatype target_predicate = Target_Any | Target_Exact owner | Target_Prefix string

definition target_matches :: "target_predicate \<Rightarrow> owner \<Rightarrow> bool" where
  "target_matches p ow = (case p of
       Target_Any \<Rightarrow> True
     | Target_Exact target \<Rightarrow> ow = target
     | Target_Prefix prefix \<Rightarrow> starts_with prefix ow)"

definition qualifier_matches :: "string option \<Rightarrow> string option \<Rightarrow> bool" where
  "qualifier_matches expected actual = (case expected of
       Some e \<Rightarrow> (case actual of Some a \<Rightarrow> a = e | None \<Rightarrow> False)
     | None \<Rightarrow> True)"

definition owner_matches :: "owner option \<Rightarrow> owner option \<Rightarrow> bool" where
  "owner_matches expected actual = (case expected of
       Some e \<Rightarrow> (case actual of Some a \<Rightarrow> a = e | None \<Rightarrow> False)
     | None \<Rightarrow> True)"

definition session_id_matches :: "string option \<Rightarrow> string \<Rightarrow> bool" where
  "session_id_matches expected actual = (case expected of Some e \<Rightarrow> e = actual | None \<Rightarrow> True)"

definition optional_session_id_matches :: "string option \<Rightarrow> string option \<Rightarrow> bool" where
  "optional_session_id_matches expected actual \<longleftrightarrow> expected = actual"

datatype (plugins only: code size) matcher =
    M_Any
  | M_LlmCall
  | M_Tool string
  | M_Custom string
  | M_MemorySearch
  | M_MemoryStore
  | M_MemoryGet
  | M_MemoryDelete
  | M_MemoryArchive
  | M_MemoryUnarchive
  | M_MemoryExtendExpiry
  | M_MemoryConsolidate
  | M_MemoryAny
  | M_SessionSearch
  | M_ModelsAny
  | M_ModelList
  | M_ModelGet
  | M_ModelsCurrent "string option"
  | M_ModelsSetSessionOverride "string option"
  | M_ModelsClearSessionOverride "string option"
  | M_ModelsSetGlobalOverride
  | M_ModelsClearGlobalOverride
  | M_ReasoningEffortAny
  | M_ReasoningEffortCurrent "string option"
  | M_ReasoningEffortSetSessionOverride "string option"
  | M_ReasoningEffortClearSessionOverride "string option"
  | M_ReasoningEffortSetGlobalOverride
  | M_ReasoningEffortClearGlobalOverride
  | M_TaskCreate "owner option"
  | M_TaskList "owner option"
  | M_TaskGet "owner option"
  | M_TaskCancel "owner option"
  | M_TaskAny "owner option"
  | M_CalendarHolidaysList
  | M_CalendarHolidaysNext
  | M_CalendarHolidayCheck
  | M_CalendarDaysBetween
  | M_CalendarDateArith
  | M_CalendarWeekdayInfo
  | M_CalendarAny
  | M_CronCreate
  | M_CronGet
  | M_CronList
  | M_CronUpdate
  | M_CronDelete
  | M_CronAny
  | M_Targeted string "string option" target_predicate
  | M_HostedWebSearch "string option"
  | M_AudioRetain
  | M_RelationStore
  | M_RelationDelete
  | M_RelationExpand
  | M_RelationAny
  | M_GoalCreate "owner option"
  | M_GoalGet "owner option"
  | M_GoalUpdate "owner option"
  | M_GoalManage "owner option"
  | M_GoalAny "owner option"

definition is_memory_action :: "action \<Rightarrow> bool" where
  "is_memory_action a = (case a of
       Act_MemorySearch _ _ \<Rightarrow> True
     | Act_MemoryStore _ \<Rightarrow> True
     | Act_MemoryGet _ _ \<Rightarrow> True
     | Act_MemoryDelete _ _ \<Rightarrow> True
     | Act_MemoryArchive _ _ \<Rightarrow> True
     | Act_MemoryUnarchive _ _ \<Rightarrow> True
     | Act_MemoryExtendExpiry _ _ \<Rightarrow> True
     | _ \<Rightarrow> False)"

definition is_relation_action :: "action \<Rightarrow> bool" where
  "is_relation_action a = (case a of
       Act_RelationStore _ \<Rightarrow> True
     | Act_RelationDelete _ \<Rightarrow> True
     | Act_RelationExpand _ \<Rightarrow> True
     | _ \<Rightarrow> False)"

definition is_models_action :: "action \<Rightarrow> bool" where
  "is_models_action a = (case a of
       Act_ModelList \<Rightarrow> True
     | Act_ModelGet _ \<Rightarrow> True
     | Act_ModelsCurrent _ \<Rightarrow> True
     | Act_ModelsSetSessionOverride _ _ \<Rightarrow> True
     | Act_ModelsClearSessionOverride _ \<Rightarrow> True
     | Act_ModelsSetGlobalOverride _ \<Rightarrow> True
     | Act_ModelsClearGlobalOverride \<Rightarrow> True
     | _ \<Rightarrow> False)"

definition is_reasoning_effort_action :: "action \<Rightarrow> bool" where
  "is_reasoning_effort_action a = (case a of
       Act_ReasoningEffortCurrent _ \<Rightarrow> True
     | Act_ReasoningEffortSetSessionOverride _ _ \<Rightarrow> True
     | Act_ReasoningEffortClearSessionOverride _ \<Rightarrow> True
     | Act_ReasoningEffortSetGlobalOverride _ \<Rightarrow> True
     | Act_ReasoningEffortClearGlobalOverride \<Rightarrow> True
     | _ \<Rightarrow> False)"

definition is_calendar_action :: "action \<Rightarrow> bool" where
  "is_calendar_action a = (case a of
       Act_CalendarHolidaysList \<Rightarrow> True
     | Act_CalendarHolidaysNext \<Rightarrow> True
     | Act_CalendarHolidayCheck \<Rightarrow> True
     | Act_CalendarDaysBetween \<Rightarrow> True
     | Act_CalendarDateArith \<Rightarrow> True
     | Act_CalendarWeekdayInfo \<Rightarrow> True
     | _ \<Rightarrow> False)"

definition is_cron_action :: "action \<Rightarrow> bool" where
  "is_cron_action a = (case a of
       Act_CronCreate _ \<Rightarrow> True
     | Act_CronGet _ _ \<Rightarrow> True
     | Act_CronList _ \<Rightarrow> True
     | Act_CronUpdate _ _ \<Rightarrow> True
     | Act_CronDelete _ _ \<Rightarrow> True
     | _ \<Rightarrow> False)"

definition is_task_action :: "action \<Rightarrow> owner option \<Rightarrow> bool" where
  "is_task_action a ow = (case a of
       Act_TaskCreate act_owner \<Rightarrow> owner_matches ow act_owner
     | Act_TaskList act_owner \<Rightarrow> owner_matches ow act_owner
     | Act_TaskGet _ act_owner \<Rightarrow> owner_matches ow act_owner
     | Act_TaskCancel _ act_owner \<Rightarrow> owner_matches ow act_owner
     | _ \<Rightarrow> False)"

definition is_goal_action :: "action \<Rightarrow> owner option \<Rightarrow> bool" where
  "is_goal_action a ow = (case a of
       Act_GoalCreate act_owner \<Rightarrow> owner_matches ow act_owner
     | Act_GoalGet act_owner \<Rightarrow> owner_matches ow act_owner
     | Act_GoalUpdate act_owner \<Rightarrow> owner_matches ow act_owner
     | Act_GoalManage act_owner \<Rightarrow> owner_matches ow act_owner
     | _ \<Rightarrow> False)"

text \<open>The patterns \<open>Action::X { .. }\<close> of the simple matchers.\<close>

definition is_MemorySearch :: "action \<Rightarrow> bool" where
  "is_MemorySearch a = (case a of Act_MemorySearch _ _ \<Rightarrow> True | _ \<Rightarrow> False)"
definition is_MemoryStore :: "action \<Rightarrow> bool" where
  "is_MemoryStore a = (case a of Act_MemoryStore _ \<Rightarrow> True | _ \<Rightarrow> False)"
definition is_MemoryGet :: "action \<Rightarrow> bool" where
  "is_MemoryGet a = (case a of Act_MemoryGet _ _ \<Rightarrow> True | _ \<Rightarrow> False)"
definition is_MemoryDelete :: "action \<Rightarrow> bool" where
  "is_MemoryDelete a = (case a of Act_MemoryDelete _ _ \<Rightarrow> True | _ \<Rightarrow> False)"
definition is_MemoryArchive :: "action \<Rightarrow> bool" where
  "is_MemoryArchive a = (case a of Act_MemoryArchive _ _ \<Rightarrow> True | _ \<Rightarrow> False)"
definition is_MemoryUnarchive :: "action \<Rightarrow> bool" where
  "is_MemoryUnarchive a = (case a of Act_MemoryUnarchive _ _ \<Rightarrow> True | _ \<Rightarrow> False)"
definition is_MemoryExtendExpiry :: "action \<Rightarrow> bool" where
  "is_MemoryExtendExpiry a = (case a of Act_MemoryExtendExpiry _ _ \<Rightarrow> True | _ \<Rightarrow> False)"
definition is_MemoryConsolidate :: "action \<Rightarrow> bool" where
  "is_MemoryConsolidate a = (case a of Act_MemoryConsolidate _ \<Rightarrow> True | _ \<Rightarrow> False)"
definition is_SessionSearch :: "action \<Rightarrow> bool" where
  "is_SessionSearch a = (case a of Act_SessionSearch _ _ \<Rightarrow> True | _ \<Rightarrow> False)"
definition is_ModelGet :: "action \<Rightarrow> bool" where
  "is_ModelGet a = (case a of Act_ModelGet _ \<Rightarrow> True | _ \<Rightarrow> False)"
definition is_ModelsSetGlobalOverride :: "action \<Rightarrow> bool" where
  "is_ModelsSetGlobalOverride a = (case a of Act_ModelsSetGlobalOverride _ \<Rightarrow> True | _ \<Rightarrow> False)"
definition is_ReasoningEffortSetGlobalOverride :: "action \<Rightarrow> bool" where
  "is_ReasoningEffortSetGlobalOverride a = (case a of Act_ReasoningEffortSetGlobalOverride _ \<Rightarrow> True | _ \<Rightarrow> False)"
definition is_CronCreate :: "action \<Rightarrow> bool" where
  "is_CronCreate a = (case a of Act_CronCreate _ \<Rightarrow> True | _ \<Rightarrow> False)"
definition is_CronGet :: "action \<Rightarrow> bool" where
  "is_CronGet a = (case a of Act_CronGet _ _ \<Rightarrow> True | _ \<Rightarrow> False)"
definition is_CronList :: "action \<Rightarrow> bool" where
  "is_CronList a = (case a of Act_CronList _ \<Rightarrow> True | _ \<Rightarrow> False)"
definition is_CronUpdate :: "action \<Rightarrow> bool" where
  "is_CronUpdate a = (case a of Act_CronUpdate _ _ \<Rightarrow> True | _ \<Rightarrow> False)"
definition is_CronDelete :: "action \<Rightarrow> bool" where
  "is_CronDelete a = (case a of Act_CronDelete _ _ \<Rightarrow> True | _ \<Rightarrow> False)"
definition is_AudioRetain :: "action \<Rightarrow> bool" where
  "is_AudioRetain a = (case a of Act_AudioRetain _ \<Rightarrow> True | _ \<Rightarrow> False)"
definition is_RelationStore :: "action \<Rightarrow> bool" where
  "is_RelationStore a = (case a of Act_RelationStore _ \<Rightarrow> True | _ \<Rightarrow> False)"
definition is_RelationDelete :: "action \<Rightarrow> bool" where
  "is_RelationDelete a = (case a of Act_RelationDelete _ \<Rightarrow> True | _ \<Rightarrow> False)"
definition is_RelationExpand :: "action \<Rightarrow> bool" where
  "is_RelationExpand a = (case a of Act_RelationExpand _ \<Rightarrow> True | _ \<Rightarrow> False)"

definition matches_simple_action :: "matcher \<Rightarrow> action \<Rightarrow> bool" where
  "matches_simple_action m a = (case m of
       M_Any \<Rightarrow> True
     | M_LlmCall \<Rightarrow> a = Act_LlmCall
     | M_MemorySearch \<Rightarrow> is_MemorySearch a
     | M_MemoryStore \<Rightarrow> is_MemoryStore a
     | M_MemoryGet \<Rightarrow> is_MemoryGet a
     | M_MemoryDelete \<Rightarrow> is_MemoryDelete a
     | M_MemoryArchive \<Rightarrow> is_MemoryArchive a
     | M_MemoryUnarchive \<Rightarrow> is_MemoryUnarchive a
     | M_MemoryExtendExpiry \<Rightarrow> is_MemoryExtendExpiry a
     | M_MemoryConsolidate \<Rightarrow> is_MemoryConsolidate a
     | M_SessionSearch \<Rightarrow> is_SessionSearch a
     | M_ModelList \<Rightarrow> a = Act_ModelList
     | M_ModelGet \<Rightarrow> is_ModelGet a
     | M_ModelsSetGlobalOverride \<Rightarrow> is_ModelsSetGlobalOverride a
     | M_ModelsClearGlobalOverride \<Rightarrow> a = Act_ModelsClearGlobalOverride
     | M_ReasoningEffortSetGlobalOverride \<Rightarrow> is_ReasoningEffortSetGlobalOverride a
     | M_ReasoningEffortClearGlobalOverride \<Rightarrow> a = Act_ReasoningEffortClearGlobalOverride
     | M_CalendarHolidaysList \<Rightarrow> a = Act_CalendarHolidaysList
     | M_CalendarHolidaysNext \<Rightarrow> a = Act_CalendarHolidaysNext
     | M_CalendarHolidayCheck \<Rightarrow> a = Act_CalendarHolidayCheck
     | M_CalendarDaysBetween \<Rightarrow> a = Act_CalendarDaysBetween
     | M_CalendarDateArith \<Rightarrow> a = Act_CalendarDateArith
     | M_CalendarWeekdayInfo \<Rightarrow> a = Act_CalendarWeekdayInfo
     | M_CronCreate \<Rightarrow> is_CronCreate a
     | M_CronGet \<Rightarrow> is_CronGet a
     | M_CronList \<Rightarrow> is_CronList a
     | M_CronUpdate \<Rightarrow> is_CronUpdate a
     | M_CronDelete \<Rightarrow> is_CronDelete a
     | M_AudioRetain \<Rightarrow> is_AudioRetain a
     | M_RelationStore \<Rightarrow> is_RelationStore a
     | M_RelationDelete \<Rightarrow> is_RelationDelete a
     | M_RelationExpand \<Rightarrow> is_RelationExpand a
     | M_HostedWebSearch provider \<Rightarrow>
         (case a of Act_HostedWebSearch act_provider \<Rightarrow>
            (case provider of Some p \<Rightarrow> p = act_provider | None \<Rightarrow> True)
          | _ \<Rightarrow> False)
     | M_Tool name \<Rightarrow> (case a of Act_ToolCall tool \<Rightarrow> tool = name | _ \<Rightarrow> False)
     | M_Custom name \<Rightarrow> (case a of Act_Custom custom \<Rightarrow> custom = name | _ \<Rightarrow> False)
     | M_MemoryAny \<Rightarrow> is_memory_action a
     | M_RelationAny \<Rightarrow> is_relation_action a
     | M_ModelsAny \<Rightarrow> is_models_action a
     | M_ReasoningEffortAny \<Rightarrow> is_reasoning_effort_action a
     | M_TaskAny ow \<Rightarrow> is_task_action a ow
     | M_GoalAny ow \<Rightarrow> is_goal_action a ow
     | M_CalendarAny \<Rightarrow> is_calendar_action a
     | M_CronAny \<Rightarrow> is_cron_action a
     | _ \<Rightarrow> False)"

definition matches_session_scoped :: "matcher \<Rightarrow> action \<Rightarrow> bool" where
  "matches_session_scoped m a = (case m of
       M_ModelsCurrent sid \<Rightarrow>
         (case a of Act_ModelsCurrent asid \<Rightarrow> optional_session_id_matches sid asid | _ \<Rightarrow> False)
     | M_ReasoningEffortCurrent sid \<Rightarrow>
         (case a of Act_ReasoningEffortCurrent asid \<Rightarrow> optional_session_id_matches sid asid
          | _ \<Rightarrow> False)
     | M_ModelsSetSessionOverride sid \<Rightarrow>
         (case a of Act_ModelsSetSessionOverride asid _ \<Rightarrow> session_id_matches sid asid
          | _ \<Rightarrow> False)
     | M_ModelsClearSessionOverride sid \<Rightarrow>
         (case a of Act_ModelsClearSessionOverride asid \<Rightarrow> session_id_matches sid asid
          | _ \<Rightarrow> False)
     | M_ReasoningEffortSetSessionOverride sid \<Rightarrow>
         (case a of Act_ReasoningEffortSetSessionOverride asid _ \<Rightarrow> session_id_matches sid asid
          | _ \<Rightarrow> False)
     | M_ReasoningEffortClearSessionOverride sid \<Rightarrow>
         (case a of Act_ReasoningEffortClearSessionOverride asid \<Rightarrow> session_id_matches sid asid
          | _ \<Rightarrow> False)
     | _ \<Rightarrow> False)"

definition matches_owner_scoped :: "matcher \<Rightarrow> action \<Rightarrow> bool" where
  "matches_owner_scoped m a = (case m of
       M_TaskCreate ow \<Rightarrow> (case a of Act_TaskCreate aow \<Rightarrow> owner_matches ow aow | _ \<Rightarrow> False)
     | M_TaskList ow \<Rightarrow> (case a of Act_TaskList aow \<Rightarrow> owner_matches ow aow | _ \<Rightarrow> False)
     | M_TaskGet ow \<Rightarrow> (case a of Act_TaskGet _ aow \<Rightarrow> owner_matches ow aow | _ \<Rightarrow> False)
     | M_TaskCancel ow \<Rightarrow> (case a of Act_TaskCancel _ aow \<Rightarrow> owner_matches ow aow | _ \<Rightarrow> False)
     | M_GoalCreate ow \<Rightarrow> (case a of Act_GoalCreate aow \<Rightarrow> owner_matches ow aow | _ \<Rightarrow> False)
     | M_GoalGet ow \<Rightarrow> (case a of Act_GoalGet aow \<Rightarrow> owner_matches ow aow | _ \<Rightarrow> False)
     | M_GoalUpdate ow \<Rightarrow> (case a of Act_GoalUpdate aow \<Rightarrow> owner_matches ow aow | _ \<Rightarrow> False)
     | M_GoalManage ow \<Rightarrow> (case a of Act_GoalManage aow \<Rightarrow> owner_matches ow aow | _ \<Rightarrow> False)
     | _ \<Rightarrow> False)"

definition matches_targeted :: "matcher \<Rightarrow> action \<Rightarrow> bool" where
  "matches_targeted m a = (case m of
       M_Targeted name qualifier target \<Rightarrow>
         (case a of Act_Targeted act_name act_target \<Rightarrow>
            name = act_name \<and> qualifier_matches qualifier (at_qualifier act_target)
              \<and> target_matches target (at_owner act_target)
          | _ \<Rightarrow> False)
     | _ \<Rightarrow> False)"

definition matches_parameterized :: "matcher \<Rightarrow> action \<Rightarrow> bool" where
  "matches_parameterized m a \<longleftrightarrow>
     matches_session_scoped m a \<or> matches_owner_scoped m a \<or> matches_targeted m a"

definition matcher_matches :: "matcher \<Rightarrow> action \<Rightarrow> bool" where
  "matcher_matches m a \<longleftrightarrow> matches_simple_action m a \<or> matches_parameterized m a"

section \<open>Matcher families\<close>

lemmas matcher_defs =
  matcher_matches_def matches_parameterized_def matches_simple_action_def
  matches_session_scoped_def matches_owner_scoped_def matches_targeted_def

lemmas family_defs =
  is_memory_action_def is_relation_action_def is_models_action_def
  is_reasoning_effort_action_def is_task_action_def is_goal_action_def
  is_calendar_action_def is_cron_action_def

lemmas simple_pattern_defs =
  is_MemorySearch_def is_MemoryStore_def is_MemoryGet_def is_MemoryDelete_def
  is_MemoryArchive_def is_MemoryUnarchive_def is_MemoryExtendExpiry_def is_MemoryConsolidate_def
  is_RelationStore_def is_RelationDelete_def is_RelationExpand_def is_SessionSearch_def
  is_CronCreate_def is_CronGet_def is_CronList_def is_CronUpdate_def is_CronDelete_def
  is_AudioRetain_def is_ModelGet_def is_ModelsSetGlobalOverride_def
  is_ReasoningEffortSetGlobalOverride_def

text \<open>The family matchers are pairwise disjoint: an action belongs to at most one of the
  memory, relation, models, reasoning-effort, task, goal, calendar and cron families. In
  particular \<open>MemoryAny\<close> absorbs neither relations nor consolidation.\<close>

theorem families_disjoint:
  "length (filter (\<lambda>m. matcher_matches m a)
     [M_MemoryAny, M_RelationAny, M_ModelsAny, M_ReasoningEffortAny, M_TaskAny None,
      M_GoalAny None, M_CalendarAny, M_CronAny, M_MemoryConsolidate]) \<le> 1"
  by (cases a) (simp_all add: matcher_defs family_defs simple_pattern_defs owner_matches_def)

lemma memory_family:
  "matcher_matches M_MemoryAny a \<longleftrightarrow> list_ex (\<lambda>m. matcher_matches m a)
     [M_MemorySearch, M_MemoryStore, M_MemoryGet, M_MemoryDelete, M_MemoryArchive,
      M_MemoryUnarchive, M_MemoryExtendExpiry]"
  by (cases a) (simp_all add: matcher_defs family_defs simple_pattern_defs)

lemma relation_family:
  "matcher_matches M_RelationAny a \<longleftrightarrow> list_ex (\<lambda>m. matcher_matches m a)
     [M_RelationStore, M_RelationDelete, M_RelationExpand]"
  by (cases a) (simp_all add: matcher_defs family_defs simple_pattern_defs)

lemma cron_family:
  "matcher_matches M_CronAny a \<longleftrightarrow> list_ex (\<lambda>m. matcher_matches m a)
     [M_CronCreate, M_CronGet, M_CronList, M_CronUpdate, M_CronDelete]"
  by (cases a) (simp_all add: matcher_defs family_defs simple_pattern_defs)

lemma calendar_family:
  "matcher_matches M_CalendarAny a \<longleftrightarrow> list_ex (\<lambda>m. matcher_matches m a)
     [M_CalendarHolidaysList, M_CalendarHolidaysNext, M_CalendarHolidayCheck,
      M_CalendarDaysBetween, M_CalendarDateArith, M_CalendarWeekdayInfo]"
  by (cases a) (simp_all add: matcher_defs family_defs)

lemma task_family:
  "matcher_matches (M_TaskAny ow) a \<longleftrightarrow> list_ex (\<lambda>m. matcher_matches m a)
     [M_TaskCreate ow, M_TaskList ow, M_TaskGet ow, M_TaskCancel ow]"
  by (cases a) (simp_all add: matcher_defs family_defs)

lemma goal_family:
  "matcher_matches (M_GoalAny ow) a \<longleftrightarrow> list_ex (\<lambda>m. matcher_matches m a)
     [M_GoalCreate ow, M_GoalGet ow, M_GoalUpdate ow, M_GoalManage ow]"
  by (cases a) (simp_all add: matcher_defs family_defs)

text \<open>A family matcher accepts exactly what its granular matchers accept together, for every
  owner filter.\<close>

theorem family_is_union:
  "list_all (\<lambda>(fam, ms). matcher_matches fam a = list_ex (\<lambda>m. matcher_matches m a) ms)
     [(M_MemoryAny, [M_MemorySearch, M_MemoryStore, M_MemoryGet, M_MemoryDelete,
         M_MemoryArchive, M_MemoryUnarchive, M_MemoryExtendExpiry]),
      (M_RelationAny, [M_RelationStore, M_RelationDelete, M_RelationExpand]),
      (M_CronAny, [M_CronCreate, M_CronGet, M_CronList, M_CronUpdate, M_CronDelete]),
      (M_CalendarAny, [M_CalendarHolidaysList, M_CalendarHolidaysNext,
         M_CalendarHolidayCheck, M_CalendarDaysBetween, M_CalendarDateArith,
         M_CalendarWeekdayInfo]),
      (M_TaskAny ow, [M_TaskCreate ow, M_TaskList ow, M_TaskGet ow, M_TaskCancel ow]),
      (M_GoalAny ow, [M_GoalCreate ow, M_GoalGet ow, M_GoalUpdate ow, M_GoalManage ow])]"
  by (simp add: memory_family relation_family cron_family calendar_family task_family
      goal_family)

end
