(* ===== verification/Policy.thy ===== *)
theory Policy
  imports Policy_Action
begin

text \<open>
  Permission decisions: the policy hook and its two constant implementations (\<open>policy.rs\<close>), the
  rules of the strict policy (\<open>policy/strict/rule.rs\<close>), its evaluation (\<open>policy/strict.rs\<close>) and
  its builder (\<open>policy/strict/builder.rs\<close>).
  The properties: rules are tried in order and the first match decides; the default is deny; a
  rule that requires the subject's scope never lets an action outside that scope through.
\<close>

section \<open>Rules\<close>

datatype attr_value = AV_Eq string | AV_OneOf "string list"

record attr_condition =
  ac_key :: string
  ac_expected :: attr_value

definition satisfied_by :: "attr_condition \<Rightarrow> subject \<Rightarrow> bool" where
  "satisfied_by c sub = (case attr sub (ac_key c) of
       None \<Rightarrow> False
     | Some v \<Rightarrow> (case ac_expected c of
           AV_Eq e \<Rightarrow> v = e
         | AV_OneOf vs \<Rightarrow> List.member vs v))"

datatype effect = Allow_Effect | Deny_Effect

record policy_rule =
  ru_matcher :: matcher
  ru_conditions :: "attr_condition list"
  ru_require_scope :: bool
  ru_name :: "string option"
  ru_effect :: effect

definition rule_allow :: "matcher \<Rightarrow> policy_rule" where
  "rule_allow m = \<lparr>ru_matcher = m, ru_conditions = [], ru_require_scope = False,
                   ru_name = None, ru_effect = Allow_Effect\<rparr>"

definition rule_deny :: "matcher \<Rightarrow> policy_rule" where
  "rule_deny m = \<lparr>ru_matcher = m, ru_conditions = [], ru_require_scope = False,
                  ru_name = None, ru_effect = Deny_Effect\<rparr>"

definition rule_named :: "string \<Rightarrow> policy_rule \<Rightarrow> policy_rule" where
  "rule_named n r = r\<lparr>ru_name := Some n\<rparr>"

definition requires_attr :: "string \<Rightarrow> string \<Rightarrow> policy_rule \<Rightarrow> policy_rule" where
  "requires_attr k v r = r\<lparr>ru_conditions := ru_conditions r @
      [\<lparr>ac_key = k, ac_expected = AV_Eq v\<rparr>]\<rparr>"

definition requires_attr_in :: "string \<Rightarrow> string list \<Rightarrow> policy_rule \<Rightarrow> policy_rule" where
  "requires_attr_in k vs r = r\<lparr>ru_conditions := ru_conditions r @
      [\<lparr>ac_key = k, ac_expected = AV_OneOf vs\<rparr>]\<rparr>"

definition requires_scope_from_subject :: "policy_rule \<Rightarrow> policy_rule" where
  "requires_scope_from_subject r = r\<lparr>ru_require_scope := True\<rparr>"

definition rule_matches :: "policy_rule \<Rightarrow> subject \<Rightarrow> action \<Rightarrow> bool" where
  "rule_matches r sub a =
     (if \<not> matcher_matches (ru_matcher r) a then False
      else if ru_require_scope r
              \<and> \<not> is_some_and (\<lambda>sc. is_within_subject sc sub) (action_scope a) then False
      else list_all (\<lambda>c. satisfied_by c sub) (ru_conditions r))"

section \<open>The strict policy\<close>

datatype policy_decision = Allow | Deny string

definition allow_all_policy :: "subject \<Rightarrow> action \<Rightarrow> policy_decision" where
  "allow_all_policy sub a = Allow"

definition deny_all_policy :: "subject \<Rightarrow> action \<Rightarrow> policy_decision" where
  "deny_all_policy sub a = Deny ''denied by DenyAllPolicy''"

text \<open>\<open>StrictPolicyBuilder\<close> and \<open>StrictPolicy\<close> have the same two fields.\<close>

record strict_policy =
  sp_rules :: "policy_rule list"
  sp_default_allow :: bool

definition policy_builder :: strict_policy where
  "policy_builder = \<lparr>sp_rules = [], sp_default_allow = False\<rparr>"

definition deny_rule_reason :: "string option \<Rightarrow> nat \<Rightarrow> action \<Rightarrow> string" where
  "deny_rule_reason name idx a =
     (let tag = (case name of
            None \<Rightarrow> ''rule at index '' @ show_nat idx
          | Some n \<Rightarrow> ''rule '' @ [CHR 0x27] @ n @ [CHR 0x27] @ '' (index '' @ show_nat idx
                      @ '')'')
      in ''denied by '' @ tag @ '' for '' @ action_name a)"

definition default_deny_reason :: "action \<Rightarrow> string" where
  "default_deny_reason a = ''no matching allow rule for '' @ action_name a"

fun evaluate_from :: "nat \<Rightarrow> policy_rule list \<Rightarrow> bool \<Rightarrow> subject \<Rightarrow> action \<Rightarrow> policy_decision" where
  "evaluate_from idx [] dflt sub a =
     (if dflt then Allow else Deny (default_deny_reason a))"
| "evaluate_from idx (r # rs) dflt sub a =
     (if rule_matches r sub a then
        (case ru_effect r of
           Allow_Effect \<Rightarrow> Allow
         | Deny_Effect \<Rightarrow> Deny (deny_rule_reason (ru_name r) (idx + 1) a))
      else evaluate_from (idx + 1) rs dflt sub a)"

definition evaluate :: "strict_policy \<Rightarrow> subject \<Rightarrow> action \<Rightarrow> policy_decision" where
  "evaluate p sub a = evaluate_from 0 (sp_rules p) (sp_default_allow p) sub a"

section \<open>The builder\<close>

definition add_rule :: "policy_rule \<Rightarrow> strict_policy \<Rightarrow> strict_policy" where
  "add_rule r b = b\<lparr>sp_rules := sp_rules b @ [r]\<rparr>"

definition allow_by_default :: "strict_policy \<Rightarrow> strict_policy" where
  "allow_by_default b = b\<lparr>sp_default_allow := True\<rparr>"

definition deny_by_default :: "strict_policy \<Rightarrow> strict_policy" where
  "deny_by_default b = b\<lparr>sp_default_allow := False\<rparr>"

definition allow_tool :: "string \<Rightarrow> strict_policy \<Rightarrow> strict_policy" where
  "allow_tool name b = add_rule (rule_allow (M_Tool name)) b"

definition allow_tool_for :: "string \<Rightarrow> string \<Rightarrow> string \<Rightarrow> strict_policy \<Rightarrow> strict_policy" where
  "allow_tool_for name k v b = add_rule (requires_attr k v (rule_allow (M_Tool name))) b"

definition deny_tool :: "string \<Rightarrow> strict_policy \<Rightarrow> strict_policy" where
  "deny_tool name b = add_rule (rule_deny (M_Tool name)) b"

definition allow_goal_create_for :: "string \<Rightarrow> string \<Rightarrow> strict_policy \<Rightarrow> strict_policy" where
  "allow_goal_create_for k v b =
     add_rule (requires_attr k v (rule_allow (M_GoalCreate None))) b"

definition allow_llm_call :: "strict_policy \<Rightarrow> strict_policy" where
  "allow_llm_call b = add_rule (rule_allow M_LlmCall) b"

definition allow_custom :: "string \<Rightarrow> strict_policy \<Rightarrow> strict_policy" where
  "allow_custom name b = add_rule (rule_allow (M_Custom name)) b"

definition allow_memory_search :: "strict_policy \<Rightarrow> strict_policy" where
  "allow_memory_search b = add_rule (requires_scope_from_subject (rule_allow M_MemorySearch)) b"

definition allow_memory_store :: "strict_policy \<Rightarrow> strict_policy" where
  "allow_memory_store b = add_rule (requires_scope_from_subject (rule_allow M_MemoryStore)) b"

definition allow_memory_get :: "strict_policy \<Rightarrow> strict_policy" where
  "allow_memory_get b = add_rule (requires_scope_from_subject (rule_allow M_MemoryGet)) b"

definition allow_memory_delete :: "strict_policy \<Rightarrow> strict_policy" where
  "allow_memory_delete b = add_rule (requires_scope_from_subject (rule_allow M_MemoryDelete)) b"

definition allow_memory_archive :: "strict_policy \<Rightarrow> strict_policy" where
  "allow_memory_archive b = add_rule (requires_scope_from_subject (rule_allow M_MemoryArchive)) b"

definition allow_memory_unarchive :: "strict_policy \<Rightarrow> strict_policy" where
  "allow_memory_unarchive b = add_rule (requires_scope_from_subject (rule_allow M_MemoryUnarchive)) b"

definition allow_memory_extend_expiry :: "strict_policy \<Rightarrow> strict_policy" where
  "allow_memory_extend_expiry b = add_rule (requires_scope_from_subject (rule_allow M_MemoryExtendExpiry)) b"

definition allow_memory_any :: "strict_policy \<Rightarrow> strict_policy" where
  "allow_memory_any b = add_rule (requires_scope_from_subject (rule_allow M_MemoryAny)) b"

definition allow_memory_consolidate :: "strict_policy \<Rightarrow> strict_policy" where
  "allow_memory_consolidate b = add_rule (requires_scope_from_subject (rule_allow M_MemoryConsolidate)) b"

definition allow_relation_store :: "strict_policy \<Rightarrow> strict_policy" where
  "allow_relation_store b = add_rule (requires_scope_from_subject (rule_allow M_RelationStore)) b"

definition allow_relation_delete :: "strict_policy \<Rightarrow> strict_policy" where
  "allow_relation_delete b = add_rule (requires_scope_from_subject (rule_allow M_RelationDelete)) b"

definition allow_relation_expand :: "strict_policy \<Rightarrow> strict_policy" where
  "allow_relation_expand b = add_rule (requires_scope_from_subject (rule_allow M_RelationExpand)) b"

definition allow_relation_any :: "strict_policy \<Rightarrow> strict_policy" where
  "allow_relation_any b = add_rule (requires_scope_from_subject (rule_allow M_RelationAny)) b"

definition allow_session_search :: "strict_policy \<Rightarrow> strict_policy" where
  "allow_session_search b = add_rule (requires_scope_from_subject (rule_allow M_SessionSearch)) b"

definition allow_model_list :: "strict_policy \<Rightarrow> strict_policy" where
  "allow_model_list b = add_rule (rule_allow M_ModelList) b"

definition allow_model_get :: "strict_policy \<Rightarrow> strict_policy" where
  "allow_model_get b = add_rule (rule_allow M_ModelGet) b"

definition allow_models_current :: "strict_policy \<Rightarrow> strict_policy" where
  "allow_models_current b = add_rule (rule_allow (M_ModelsCurrent None)) b"

definition allow_models_current_for_session :: "string \<Rightarrow> strict_policy \<Rightarrow> strict_policy" where
  "allow_models_current_for_session sid b = add_rule (rule_allow (M_ModelsCurrent (Some sid))) b"

definition allow_models_set_session_override_for_session :: "string \<Rightarrow> strict_policy \<Rightarrow> strict_policy" where
  "allow_models_set_session_override_for_session sid b = add_rule (rule_allow (M_ModelsSetSessionOverride (Some sid))) b"

definition allow_models_clear_session_override_for_session :: "string \<Rightarrow> strict_policy \<Rightarrow> strict_policy" where
  "allow_models_clear_session_override_for_session sid b = add_rule (rule_allow (M_ModelsClearSessionOverride (Some sid))) b"

definition allow_models_set_global_override :: "strict_policy \<Rightarrow> strict_policy" where
  "allow_models_set_global_override b = add_rule (rule_allow M_ModelsSetGlobalOverride) b"

definition allow_models_clear_global_override :: "strict_policy \<Rightarrow> strict_policy" where
  "allow_models_clear_global_override b = add_rule (rule_allow M_ModelsClearGlobalOverride) b"

definition allow_reasoning_effort_current :: "strict_policy \<Rightarrow> strict_policy" where
  "allow_reasoning_effort_current b = add_rule (rule_allow (M_ReasoningEffortCurrent None)) b"

definition allow_reasoning_effort_current_for_session :: "string \<Rightarrow> strict_policy \<Rightarrow> strict_policy" where
  "allow_reasoning_effort_current_for_session sid b = add_rule (rule_allow (M_ReasoningEffortCurrent (Some sid))) b"

definition allow_reasoning_effort_set_session_override_for_session :: "string \<Rightarrow> strict_policy \<Rightarrow> strict_policy" where
  "allow_reasoning_effort_set_session_override_for_session sid b = add_rule (rule_allow (M_ReasoningEffortSetSessionOverride (Some sid))) b"

definition allow_reasoning_effort_clear_session_override_for_session :: "string \<Rightarrow> strict_policy \<Rightarrow> strict_policy" where
  "allow_reasoning_effort_clear_session_override_for_session sid b = add_rule (rule_allow (M_ReasoningEffortClearSessionOverride (Some sid))) b"

definition allow_reasoning_effort_set_global_override :: "strict_policy \<Rightarrow> strict_policy" where
  "allow_reasoning_effort_set_global_override b = add_rule (rule_allow M_ReasoningEffortSetGlobalOverride) b"

definition allow_reasoning_effort_clear_global_override :: "strict_policy \<Rightarrow> strict_policy" where
  "allow_reasoning_effort_clear_global_override b = add_rule (rule_allow M_ReasoningEffortClearGlobalOverride) b"

definition allow_task_create :: "strict_policy \<Rightarrow> strict_policy" where
  "allow_task_create b = add_rule (rule_allow (M_TaskCreate None)) b"

definition allow_task_list :: "strict_policy \<Rightarrow> strict_policy" where
  "allow_task_list b = add_rule (rule_allow (M_TaskList None)) b"

definition allow_task_get :: "strict_policy \<Rightarrow> strict_policy" where
  "allow_task_get b = add_rule (rule_allow (M_TaskGet None)) b"

definition allow_task_cancel :: "strict_policy \<Rightarrow> strict_policy" where
  "allow_task_cancel b = add_rule (rule_allow (M_TaskCancel None)) b"

definition allow_task_any :: "strict_policy \<Rightarrow> strict_policy" where
  "allow_task_any b = add_rule (rule_allow (M_TaskAny None)) b"

definition allow_task_any_for_owner :: "owner \<Rightarrow> strict_policy \<Rightarrow> strict_policy" where
  "allow_task_any_for_owner ow b = add_rule (rule_allow (M_TaskAny (Some ow))) b"

definition allow_calendar_holidays_list :: "strict_policy \<Rightarrow> strict_policy" where
  "allow_calendar_holidays_list b = add_rule (rule_allow M_CalendarHolidaysList) b"

definition allow_calendar_holidays_next :: "strict_policy \<Rightarrow> strict_policy" where
  "allow_calendar_holidays_next b = add_rule (rule_allow M_CalendarHolidaysNext) b"

definition allow_calendar_holiday_check :: "strict_policy \<Rightarrow> strict_policy" where
  "allow_calendar_holiday_check b = add_rule (rule_allow M_CalendarHolidayCheck) b"

definition allow_calendar_days_between :: "strict_policy \<Rightarrow> strict_policy" where
  "allow_calendar_days_between b = add_rule (rule_allow M_CalendarDaysBetween) b"

definition allow_calendar_date_arith :: "strict_policy \<Rightarrow> strict_policy" where
  "allow_calendar_date_arith b = add_rule (rule_allow M_CalendarDateArith) b"

definition allow_calendar_weekday_info :: "strict_policy \<Rightarrow> strict_policy" where
  "allow_calendar_weekday_info b = add_rule (rule_allow M_CalendarWeekdayInfo) b"

definition allow_calendar_any :: "strict_policy \<Rightarrow> strict_policy" where
  "allow_calendar_any b = add_rule (rule_allow M_CalendarAny) b"

definition allow_cron_create :: "strict_policy \<Rightarrow> strict_policy" where
  "allow_cron_create b = add_rule (requires_scope_from_subject (rule_allow M_CronCreate)) b"

definition allow_cron_get :: "strict_policy \<Rightarrow> strict_policy" where
  "allow_cron_get b = add_rule (requires_scope_from_subject (rule_allow M_CronGet)) b"

definition allow_cron_list :: "strict_policy \<Rightarrow> strict_policy" where
  "allow_cron_list b = add_rule (requires_scope_from_subject (rule_allow M_CronList)) b"

definition allow_cron_update :: "strict_policy \<Rightarrow> strict_policy" where
  "allow_cron_update b = add_rule (requires_scope_from_subject (rule_allow M_CronUpdate)) b"

definition allow_cron_delete :: "strict_policy \<Rightarrow> strict_policy" where
  "allow_cron_delete b = add_rule (requires_scope_from_subject (rule_allow M_CronDelete)) b"

definition allow_cron_any :: "strict_policy \<Rightarrow> strict_policy" where
  "allow_cron_any b = add_rule (requires_scope_from_subject (rule_allow M_CronAny)) b"

definition allow_hosted_web_search :: "string option \<Rightarrow> strict_policy \<Rightarrow> strict_policy" where
  "allow_hosted_web_search provider b = add_rule (rule_allow (M_HostedWebSearch provider)) b"

definition allow_audio_retain :: "strict_policy \<Rightarrow> strict_policy" where
  "allow_audio_retain b = add_rule (requires_scope_from_subject (rule_allow M_AudioRetain)) b"

definition allow_goal_create :: "strict_policy \<Rightarrow> strict_policy" where
  "allow_goal_create b = add_rule (rule_allow (M_GoalCreate None)) b"

definition allow_goal_get :: "strict_policy \<Rightarrow> strict_policy" where
  "allow_goal_get b = add_rule (rule_allow (M_GoalGet None)) b"

definition allow_goal_update :: "strict_policy \<Rightarrow> strict_policy" where
  "allow_goal_update b = add_rule (rule_allow (M_GoalUpdate None)) b"

definition allow_goal_manage :: "strict_policy \<Rightarrow> strict_policy" where
  "allow_goal_manage b = add_rule (rule_allow (M_GoalManage None)) b"

definition allow_goal_any :: "strict_policy \<Rightarrow> strict_policy" where
  "allow_goal_any b = add_rule (rule_allow (M_GoalAny None)) b"

definition allow_goal_any_for_owner :: "owner \<Rightarrow> strict_policy \<Rightarrow> strict_policy" where
  "allow_goal_any_for_owner ow b = add_rule (rule_allow (M_GoalAny (Some ow))) b"

section \<open>Evaluation\<close>

text \<open>The first rule that matches, with its one-based index.\<close>

definition first_match :: "nat \<Rightarrow> policy_rule list \<Rightarrow> subject \<Rightarrow> action \<Rightarrow> (nat \<times> policy_rule) option"
where
  "first_match i rs sub a = find (\<lambda>(_, r). rule_matches r sub a) (enumerate i rs)"

definition decide :: "bool \<Rightarrow> (nat \<times> policy_rule) option \<Rightarrow> action \<Rightarrow> policy_decision" where
  "decide dflt m a = (case m of
       None \<Rightarrow> if dflt then Allow else Deny (default_deny_reason a)
     | Some (i, r) \<Rightarrow> (case ru_effect r of
           Allow_Effect \<Rightarrow> Allow
         | Deny_Effect \<Rightarrow> Deny (deny_rule_reason (ru_name r) i a)))"

lemma first_match_simps:
  "first_match i [] sub a = None"
  "first_match i (r # rs) sub a =
     (if rule_matches r sub a then Some (i, r) else first_match (Suc i) rs sub a)"
  by (simp_all add: first_match_def)

lemma evaluate_from_first_match:
  "evaluate_from i rs d sub a = decide d (first_match (Suc i) rs sub a) a"
  by (induction i rs d sub a rule: evaluate_from.induct)
     (simp_all add: first_match_simps decide_def split: effect.split)

lemma first_match_Some:
  "first_match i rs sub a = Some (j, r) \<longleftrightarrow>
     (\<exists>k < length rs. j = i + k \<and> r = rs ! k \<and> rule_matches r sub a
        \<and> (\<forall>k' < k. \<not> rule_matches (rs ! k') sub a))"
  by (auto simp: first_match_def find_Some_iff nth_enumerate_eq)

lemma first_match_None:
  "first_match i rs sub a = None \<longleftrightarrow> (\<forall>r\<in>set rs. \<not> rule_matches r sub a)"
  by (induction rs arbitrary: i) (simp_all add: first_match_simps)

lemma evaluate_from_Allow:
  "evaluate_from i rs d sub a = Allow \<Longrightarrow>
     d \<or> (\<exists>r\<in>set rs. ru_effect r = Allow_Effect \<and> rule_matches r sub a)"
  by (induction i rs d sub a rule: evaluate_from.induct) (auto split: if_splits effect.splits)

lemma evaluate_from_append:
  "evaluate_from i (rs @ rs') d sub a =
     (if list_ex (\<lambda>r. rule_matches r sub a) rs then evaluate_from i rs d sub a
      else evaluate_from (i + length rs) rs' d sub a)"
  by (induction rs arbitrary: i) auto

lemma sp_rules_add_rules [simp]:
  "sp_rules (fold add_rule rs b) = sp_rules b @ rs"
  "sp_default_allow (fold add_rule rs b) = sp_default_allow b"
  by (induction rs arbitrary: b) (simp_all add: add_rule_def)

lemma rule_matches_scope:
  "rule_matches r sub a \<Longrightarrow> ru_require_scope r \<Longrightarrow>
     \<exists>sc. action_scope a = Some sc \<and> is_within_subject sc sub"
  by (cases "action_scope a") (auto simp: rule_matches_def split: if_splits)

text \<open>C34: a policy decides by the first rule that matches, in registration order: an allow rule
  allows, a deny rule denies and names its one-based index; when no rule matches, the default
  decides.\<close>

theorem evaluate_first_match:
  "evaluate p sub a =
     (case find (\<lambda>(_, r). rule_matches r sub a) (enumerate 1 (sp_rules p)) of
        None \<Rightarrow> if sp_default_allow p then Allow
                else Deny (''no matching allow rule for '' @ action_name a)
      | Some (i, r) \<Rightarrow>
          (case ru_effect r of
             Allow_Effect \<Rightarrow> Allow
           | Deny_Effect \<Rightarrow> Deny (deny_rule_reason (ru_name r) i a)))"
  by (simp add: evaluate_def evaluate_from_first_match decide_def first_match_def
      default_deny_reason_def split: option.split prod.split effect.split)

text \<open>C35: the scope gate. When the default is deny and every allow rule whose matcher accepts the
  action requires the subject's scope, an allowed action carries a scope inside the subject's:
  it is owned by the subject, and it agrees with every channel attribute the subject has.\<close>

theorem scope_gate:
  assumes "\<not> sp_default_allow p"
    and "\<forall>r\<in>set (sp_rules p). ru_effect r = Allow_Effect \<and> matcher_matches (ru_matcher r) a
           \<longrightarrow> ru_require_scope r"
    and "evaluate p sub a = Allow"
  shows "\<exists>sc. action_scope a = Some sc \<and> is_within_subject sc sub
            \<and> sc_owner sc = Some (sub_id sub)
            \<and> opt_eq (attr sub ''channel'') (sc_channel sc)
            \<and> opt_eq (attr sub ''conv'') (sc_conv sc)
            \<and> opt_eq (attr sub ''agent'') (sc_agent sc)
            \<and> opt_eq (attr sub ''channel_kind'') (sc_kind sc)"
proof -
  from evaluate_from_Allow assms(1,3) obtain r where
    r: "r \<in> set (sp_rules p)" "ru_effect r = Allow_Effect" "rule_matches r sub a"
    unfolding evaluate_def by blast
  then have "matcher_matches (ru_matcher r) a"
    by (auto simp: rule_matches_def split: if_splits)
  with r assms(2) have "ru_require_scope r" by blast
  from rule_matches_scope [OF r(3) this] show ?thesis
    by (auto simp: is_within_subject_def scope_matches_def scope_from_subject_def opt_eq_Some)
qed

text \<open>A deny rule placed before the allow rules cannot be undone: whatever rules follow
  \<open>deny_tool(name)\<close>, a call of that tool is allowed only if a rule registered earlier allows it.\<close>

theorem deny_tool_final:
  assumes "evaluate (fold add_rule rs (deny_tool name b)) sub (Act_ToolCall name) = Allow"
  shows "\<exists>r\<in>set (sp_rules b). ru_effect r = Allow_Effect
           \<and> rule_matches r sub (Act_ToolCall name)"
proof -
  let ?a = "Act_ToolCall name" and ?d = "rule_deny (M_Tool name)"
  have d: "rule_matches ?d sub ?a"
    by (simp add: rule_matches_def rule_deny_def matcher_matches_def matches_simple_action_def)
  have "evaluate_from 0 (sp_rules b @ ?d # rs) (sp_default_allow b) sub ?a = Allow"
    using assms by (simp add: evaluate_def deny_tool_def add_rule_def)
  with d have ex: "list_ex (\<lambda>r. rule_matches r sub ?a) (sp_rules b)"
    and al: "evaluate_from 0 (sp_rules b) (sp_default_allow b) sub ?a = Allow"
    by (auto simp: evaluate_from_append rule_deny_def split: if_splits)
  from ex have "evaluate_from 0 (sp_rules b) (sp_default_allow b) sub ?a
                  = evaluate_from 0 (sp_rules b) False sub ?a"
    by (cases "first_match (Suc 0) (sp_rules b) sub ?a")
       (auto simp: evaluate_from_first_match decide_def first_match_None list_ex_iff)
  with al evaluate_from_Allow show ?thesis by metis
qed

text \<open>A witness of the scope gate: a memory search inside the subject's scope.\<close>

lemma scope_gate_witness:
  "\<exists>sc. action_scope (Act_MemorySearch ''q'' (for_owner ''u'')) = Some sc
      \<and> sc_owner sc = Some ''u''"
proof -
  let ?sub = "\<lparr>sub_id = ''u'', sub_attrs = []\<rparr>" and ?p = "allow_memory_search policy_builder"
  let ?a = "Act_MemorySearch ''q'' (for_owner ''u'')"
  have "evaluate ?p ?sub ?a = Allow"
    by (simp add: evaluate_def allow_memory_search_def policy_builder_def add_rule_def
        requires_scope_from_subject_def rule_allow_def rule_matches_def matcher_matches_def
        matches_simple_action_def is_MemorySearch_def action_scope_def is_within_subject_def
        scope_matches_def scope_from_subject_def for_owner_def opt_eq_def attr_def)
  moreover have "\<not> sp_default_allow ?p"
    "\<forall>r\<in>set (sp_rules ?p). ru_effect r = Allow_Effect \<and> matcher_matches (ru_matcher r) ?a
       \<longrightarrow> ru_require_scope r"
    by (simp_all add: allow_memory_search_def add_rule_def policy_builder_def
        requires_scope_from_subject_def)
  ultimately show ?thesis
    using scope_gate [of ?p ?a ?sub] by auto
qed

lemma deny_tool_final_witness:
  "\<exists>r\<in>set (sp_rules (allow_tool ''bash'' policy_builder)). ru_effect r = Allow_Effect"
proof -
  let ?sub = "\<lparr>sub_id = ''u'', sub_attrs = []\<rparr>" and ?b = "allow_tool ''bash'' policy_builder"
  have "evaluate (fold add_rule [] (deny_tool ''bash'' ?b)) ?sub (Act_ToolCall ''bash'') = Allow"
    by (simp add: evaluate_def allow_tool_def deny_tool_def policy_builder_def add_rule_def
        rule_allow_def rule_deny_def rule_matches_def matcher_matches_def
        matches_simple_action_def)
  from deny_tool_final [OF this] show ?thesis by blast
qed

section \<open>Policies made of scoped builders\<close>

definition scoped_builders :: "(strict_policy \<Rightarrow> strict_policy) list" where
  "scoped_builders =
     [allow_memory_search, allow_memory_store, allow_memory_get, allow_memory_delete,
      allow_memory_archive, allow_memory_unarchive, allow_memory_extend_expiry,
      allow_memory_any, allow_memory_consolidate, allow_relation_store, allow_relation_delete,
      allow_relation_expand, allow_relation_any, allow_session_search, allow_cron_create,
      allow_cron_get, allow_cron_list, allow_cron_update, allow_cron_delete, allow_cron_any,
      allow_audio_retain]"

lemmas scoped_builder_defs =
  allow_memory_search_def allow_memory_store_def allow_memory_get_def allow_memory_delete_def
  allow_memory_archive_def allow_memory_unarchive_def allow_memory_extend_expiry_def
  allow_memory_any_def allow_memory_consolidate_def allow_relation_store_def
  allow_relation_delete_def allow_relation_expand_def allow_relation_any_def
  allow_session_search_def allow_cron_create_def allow_cron_get_def allow_cron_list_def
  allow_cron_update_def allow_cron_delete_def allow_cron_any_def allow_audio_retain_def

lemma scoped_builder_rule:
  "f \<in> set scoped_builders \<Longrightarrow>
     \<exists>r. ru_require_scope r \<and> ru_effect r = Allow_Effect \<and> f b = add_rule r b"
proof -
  have "list_all (\<lambda>f. \<exists>r. ru_require_scope r \<and> ru_effect r = Allow_Effect \<and> f b = add_rule r b)
          scoped_builders"
    by (auto simp: scoped_builders_def scoped_builder_defs requires_scope_from_subject_def
        rule_allow_def intro!: exI)
  then show "f \<in> set scoped_builders \<Longrightarrow>
      \<exists>r. ru_require_scope r \<and> ru_effect r = Allow_Effect \<and> f b = add_rule r b"
    by (simp add: list_all_iff)
qed

lemma scoped_policy_rules:
  "set fs \<subseteq> set scoped_builders \<Longrightarrow> list_all ru_require_scope (sp_rules b) \<Longrightarrow>
     list_all ru_require_scope (sp_rules (fold (\<lambda>f. f) fs b))
     \<and> sp_default_allow (fold (\<lambda>f. f) fs b) = sp_default_allow b"
proof (induction fs arbitrary: b)
  case (Cons f fs)
  then obtain r where "ru_require_scope r" "f b = add_rule r b"
    using scoped_builder_rule [of f b] by auto
  with Cons.prems Cons.IH [of "f b"] show ?case by (simp add: add_rule_def)
qed simp

text \<open>A policy assembled from the builder's memory, relation, session, cron and audio calls
  (in any order and number) never lets a subject act outside its own scope; in particular it
  allows no action without a scope.\<close>

theorem scoped_policy_confines:
  assumes "set fs \<subseteq> set scoped_builders"
    and "evaluate (fold (\<lambda>f. f) fs policy_builder) sub a = Allow"
  shows "\<exists>sc. action_scope a = Some sc \<and> is_within_subject sc sub"
proof -
  let ?p = "fold (\<lambda>f. f) fs policy_builder"
  from scoped_policy_rules [OF assms(1), of policy_builder]
  have "list_all ru_require_scope (sp_rules ?p)" "\<not> sp_default_allow ?p"
    by (simp_all add: policy_builder_def)
  with evaluate_from_Allow assms(2) obtain r where "rule_matches r sub a" "ru_require_scope r"
    unfolding evaluate_def list_all_iff by blast
  then show ?thesis by (rule rule_matches_scope)
qed

lemma scoped_policy_confines_witness:
  "\<exists>sc. action_scope (Act_CronList (for_owner ''u'')) = Some sc
      \<and> is_within_subject sc \<lparr>sub_id = ''u'', sub_attrs = []\<rparr>"
proof -
  let ?sub = "\<lparr>sub_id = ''u'', sub_attrs = []\<rparr>"
  let ?fs = "[allow_cron_get, allow_cron_list]"
  have "evaluate (fold (\<lambda>f. f) ?fs policy_builder) ?sub (Act_CronList (for_owner ''u'')) = Allow"
    by (simp add: evaluate_def allow_cron_get_def allow_cron_list_def policy_builder_def
        add_rule_def requires_scope_from_subject_def rule_allow_def rule_matches_def
        matcher_matches_def matches_parameterized_def matches_session_scoped_def
        matches_owner_scoped_def matches_targeted_def matches_simple_action_def is_CronGet_def
        is_CronList_def action_scope_def is_within_subject_def scope_matches_def
        scope_from_subject_def for_owner_def opt_eq_def attr_def global_scope_def)
  moreover have "set ?fs \<subseteq> set scoped_builders"
    by (simp add: scoped_builders_def)
  ultimately show ?thesis using scoped_policy_confines [of ?fs] by blast
qed

end
