(* ===== verification/Models.thy ===== *)
theory Models
  imports Core_Types
begin

text \<open>
  The model catalog of the kernel: model descriptors (\<open>model/info.rs\<close>), the registry with its
  canonical, alias, unqualified and ambiguous indexes (\<open>model/registry.rs\<close>), its assembly from
  the configured providers (\<open>provider_set.rs\<close>), and model selection (\<open>model/selection.rs\<close>,
  \<open>model/override_store.rs\<close>).

  The registry is verified against a reference: a list of the descriptors in registration order,
  on which a lookup is a plain search. \<open>registry_rep\<close> relates the two, insertion preserves it,
  and the theorems about resolution follow. The opaque \<open>extensions\<close> map of a descriptor and its
  prices take part in no decision and are left out.
\<close>

section \<open>Descriptors\<close>

record model_caps =
  mc_max_input_tokens :: nat
  mc_max_output_tokens :: nat
  mc_default_max_output_tokens :: nat
  mc_default_temperature_milli :: nat
  mc_supports_tools :: bool
  mc_supports_vision :: bool
  mc_supports_audio :: bool
  mc_supports_thinking :: bool
  mc_supports_prompt_cache :: bool
  mc_supports_web_search :: bool
  mc_supports_temperature :: bool
  mc_reasoning_effort :: "reasoning_effort option"

definition default_temperature :: "model_caps \<Rightarrow> rat" where
  "default_temperature c = of_nat (mc_default_temperature_milli c) / 1000"

record model_info =
  mi_id :: model_id
  mi_provider :: string
  mi_display_name :: string
  mi_aliases :: "model_id list"
  mi_caps :: model_caps

definition model_info_minimal :: "model_id \<Rightarrow> string \<Rightarrow> model_info" where
  "model_info_minimal i p =
     \<lparr>mi_id = i, mi_provider = p, mi_display_name = ''(minimal)'', mi_aliases = [],
      mi_caps = \<lparr>mc_max_input_tokens = 200000, mc_max_output_tokens = 4096,
        mc_default_max_output_tokens = 4096, mc_default_temperature_milli = 1000,
        mc_supports_tools = True, mc_supports_vision = False, mc_supports_audio = False,
        mc_supports_thinking = False, mc_supports_prompt_cache = False,
        mc_supports_web_search = False, mc_supports_temperature = True,
        mc_reasoning_effort = None\<rparr>\<rparr>"

section \<open>The registry\<close>

datatype override_store_error =
    OS_InvalidSessionId string
  | OS_NotFound string string
  | OS_Backend string

definition show_override_store_error :: "override_store_error \<Rightarrow> string" where
  "show_override_store_error e = (case e of
       OS_InvalidSessionId i \<Rightarrow> ''invalid session id: '' @ i
     | OS_NotFound k i \<Rightarrow> k @ '' not found: '' @ i
     | OS_Backend m \<Rightarrow> ''model override store backend error: '' @ m)"

datatype resolve_error =
    RE_Unknown model_id
  | RE_Ambiguous model_id
  | RE_UnknownTarget model_target
  | RE_UnknownOverride string model_id
  | RE_OverrideStore override_store_error

record registry =
  rg_canonical :: "(model_target, model_info) hmap"
  rg_aliases :: "(model_target, model_target) hmap"
  rg_unqualified :: "(model_id, model_target) hmap"
  rg_ambiguous :: "model_id list"

definition registry_new :: registry where
  "registry_new = \<lparr>rg_canonical = [], rg_aliases = [], rg_unqualified = [], rg_ambiguous = []\<rparr>"

definition is_target_taken :: "registry \<Rightarrow> model_target \<Rightarrow> bool" where
  "is_target_taken r t \<longleftrightarrow> hm_contains t (rg_canonical r) \<or> hm_contains t (rg_aliases r)"

definition index_unqualified :: "model_id \<Rightarrow> model_target \<Rightarrow> registry \<Rightarrow> registry" where
  "index_unqualified i t r =
     (if List.member (rg_ambiguous r) i then r
      else case map_of (rg_unqualified r) i of
        Some existing \<Rightarrow>
          if existing \<noteq> t then
            r\<lparr>rg_unqualified := AList.delete i (rg_unqualified r),
              rg_ambiguous := List.insert i (rg_ambiguous r)\<rparr>
          else r
      | None \<Rightarrow> r\<lparr>rg_unqualified := AList.update i t (rg_unqualified r)\<rparr>)"

text \<open>The loop over the aliases that looks for a collision with the registry or with a target
  already seen in this descriptor; \<open>Some\<close> is the early return.\<close>

fun alias_collision ::
  "registry \<Rightarrow> string \<Rightarrow> model_target list \<Rightarrow> model_id list \<Rightarrow> model_target option" where
  "alias_collision r p seen [] = None"
| "alias_collision r p seen (a # as) =
     (let t = model_target_new p a in
      if is_target_taken r t \<or> List.member seen t then Some t
      else alias_collision r p (List.insert t seen) as)"

definition registry_insert :: "model_info \<Rightarrow> registry \<Rightarrow> model_target + registry" where
  "registry_insert info r =
     (let canonical = model_target_new (mi_provider info) (mi_id info) in
      if is_target_taken r canonical then Inl canonical
      else case alias_collision r (mi_provider info) [canonical] (mi_aliases info) of
        Some dup \<Rightarrow> Inl dup
      | None \<Rightarrow>
          (let r1 = r\<lparr>rg_aliases :=
                 fold (\<lambda>a m. AList.update (model_target_new (mi_provider info) a) canonical m)
                   (mi_aliases info) (rg_aliases r)\<rparr>;
               r2 = index_unqualified (mi_id info) canonical r1;
               r3 = fold (\<lambda>a. index_unqualified a canonical) (mi_aliases info) r2
           in Inr (r3\<lparr>rg_canonical := AList.update canonical info (rg_canonical r3)\<rparr>)))"

text \<open>\<open>get\<close> and \<open>get_target\<close> call each other: an unqualified id is looked up through the target it
  maps to. Nothing in the types keeps that from looping, so the pair is a partial function, and
  that it returns is a theorem about registries built by \<open>insert\<close>.\<close>

definition lookup_target :: "registry \<Rightarrow> model_target \<Rightarrow> model_info option" where
  "lookup_target r t = map_of (rg_canonical r) (unwrap_or t (map_of (rg_aliases r) t))"

partial_function (option) get_target_loop ::
  "registry \<Rightarrow> model_target \<Rightarrow> model_info option option" where
  "get_target_loop r t = (case t of
       Id i \<Rightarrow>
         if List.member (rg_ambiguous r) i then Some None
         else (case map_of (rg_unqualified r) i of
                 None \<Rightarrow> Some None
               | Some t' \<Rightarrow> get_target_loop r t')
     | Provider p m \<Rightarrow> Some (lookup_target r t))"

definition get_target :: "registry \<Rightarrow> model_target \<Rightarrow> model_info option" where
  "get_target r t = unwrap_or None (get_target_loop r t)"

definition registry_get :: "registry \<Rightarrow> model_id \<Rightarrow> model_info option" where
  "registry_get r i = get_target r (Id i)"

definition require :: "registry \<Rightarrow> model_id \<Rightarrow> resolve_error + model_info" where
  "require r i =
     (if List.member (rg_ambiguous r) i then Inl (RE_Ambiguous i)
      else case registry_get r i of None \<Rightarrow> Inl (RE_Unknown i) | Some info \<Rightarrow> Inr info)"

definition require_target :: "registry \<Rightarrow> model_target \<Rightarrow> model_target + model_info" where
  "require_target r t = (case get_target r t of None \<Rightarrow> Inl t | Some info \<Rightarrow> Inr info)"

definition resolve :: "registry \<Rightarrow> model_target \<Rightarrow> resolve_error + model_info" where
  "resolve r t = (case t of
       Id i \<Rightarrow> require r i
     | Provider p m \<Rightarrow> map_err RE_UnknownTarget (require_target r t))"

section \<open>Assembly from the providers\<close>

datatype build_error =
    DuplicateProvider string
  | EmptyModelList string
  | DuplicateModel model_id
  | ProviderMismatch string model_id

text \<open>What the catalog reads of a provider: its name and its model list.\<close>

record provider_catalog =
  pc_name :: string
  pc_models :: "model_info list"

fun ensure_unique_names :: "string list \<Rightarrow> provider_catalog list \<Rightarrow> build_error + unit" where
  "ensure_unique_names seen [] = Inr ()"
| "ensure_unique_names seen (p # ps) =
     (if List.member seen (pc_name p) then Inl (DuplicateProvider (pc_name p))
      else ensure_unique_names (List.insert (pc_name p) seen) ps)"

definition provider_set_try_new ::
  "provider_catalog list \<Rightarrow> build_error + provider_catalog list" where
  "provider_set_try_new ps = and_then (ensure_unique_names [] ps) (\<lambda>_. Inr ps)"

definition provider_named ::
  "'p provider_catalog_scheme list \<Rightarrow> string \<Rightarrow> kernel_error + 'p provider_catalog_scheme" where
  "provider_named ps name = (case find (\<lambda>p. pc_name p = name) ps of
       None \<Rightarrow> Inl (KE_Internal (''unregistered provider: '' @ name))
     | Some p \<Rightarrow> Inr p)"

fun register_models ::
  "provider_catalog \<Rightarrow> model_info list \<Rightarrow> registry \<Rightarrow> build_error + registry" where
  "register_models p [] r = Inr r"
| "register_models p (info # infos) r =
     (if mi_provider info \<noteq> pc_name p then Inl (ProviderMismatch (pc_name p) (mi_id info))
      else and_then (map_err (\<lambda>t. DuplicateModel (target_model t)) (registry_insert info r))
        (\<lambda>r'. register_models p infos r'))"

definition register_provider_models ::
  "provider_catalog \<Rightarrow> registry \<Rightarrow> build_error + registry" where
  "register_provider_models p r =
     (if pc_models p = [] then Inl (EmptyModelList (pc_name p))
      else register_models p (pc_models p) r)"

fun register_providers :: "provider_catalog list \<Rightarrow> registry \<Rightarrow> build_error + registry" where
  "register_providers [] r = Inr r"
| "register_providers (p # ps) r =
     and_then (register_provider_models p r) (\<lambda>r'. register_providers ps r')"

definition try_build_model_registry :: "provider_catalog list \<Rightarrow> build_error + registry" where
  "try_build_model_registry ps = register_providers ps registry_new"

section \<open>The reference: a list of descriptors\<close>

definition info_key :: "model_info \<Rightarrow> model_target" where
  "info_key i = model_target_new (mi_provider i) (mi_id i)"

definition info_names :: "model_info \<Rightarrow> model_id list" where
  "info_names i = mi_id i # mi_aliases i"

definition alias_targets :: "model_info \<Rightarrow> model_target list" where
  "alias_targets i = map (model_target_new (mi_provider i)) (mi_aliases i)"

definition info_targets :: "model_info \<Rightarrow> model_target list" where
  "info_targets i = info_key i # alias_targets i"

definition offering :: "model_info list \<Rightarrow> model_id \<Rightarrow> model_info list" where
  "offering infos m = filter (\<lambda>i. List.member (info_names i) m) infos"

definition all_targets :: "model_info list \<Rightarrow> model_target list" where
  "all_targets infos = concat (map info_targets infos)"

text \<open>The two unqualified indexes, for a function \<open>S\<close> that lists the targets of each id.\<close>

definition index_rep :: "(model_id \<Rightarrow> model_target list) \<Rightarrow> registry \<Rightarrow> bool" where
  "index_rep S r \<longleftrightarrow>
     (\<forall>m. m \<in> set (rg_ambiguous r) \<longleftrightarrow> 2 \<le> length (S m)) \<and>
     (\<forall>m. map_of (rg_unqualified r) m = (case S m of [t] \<Rightarrow> Some t | _ \<Rightarrow> None))"

definition registry_rep :: "model_info list \<Rightarrow> registry \<Rightarrow> bool" where
  "registry_rep infos r \<longleftrightarrow>
     distinct (all_targets infos) \<and>
     (\<forall>t. map_of (rg_canonical r) t = find (\<lambda>i. info_key i = t) infos) \<and>
     (\<forall>t. map_of (rg_aliases r) t
           = map_option info_key (find (\<lambda>i. t \<in> set (alias_targets i)) infos)) \<and>
     index_rep (\<lambda>m. map info_key (offering infos m)) r"

lemma model_target_new_inject [simp]:
  "model_target_new p a = model_target_new p b \<longleftrightarrow> a = b"
  by (simp add: model_target_new_def)

lemma index_step:
  assumes "index_rep S r" "t \<notin> set (S m)"
  shows "index_rep (S(m := S m @ [t])) (index_unqualified m t r)"
proof (cases "S m")
  case Nil
  with assms show ?thesis
    by (auto simp: index_rep_def index_unqualified_def update_conv' split: option.splits)
next
  case (Cons x xs)
  show ?thesis
  proof (cases xs)
    case Nil
    with Cons assms have "map_of (rg_unqualified r) m = Some x" "m \<notin> set (rg_ambiguous r)" "x \<noteq> t"
      by (auto simp: index_rep_def)
    with Cons Nil assms(1) show ?thesis
      by (auto simp: index_rep_def index_unqualified_def delete_conv')
  next
    case (Cons y ys)
    with \<open>S m = x # xs\<close> assms(1) have "m \<in> set (rg_ambiguous r)"
      by (auto simp: index_rep_def)
    with Cons \<open>S m = x # xs\<close> assms(1) show ?thesis
      by (auto simp: index_rep_def index_unqualified_def)
  qed
qed

lemma index_fold:
  assumes "distinct ms" "index_rep S r" "\<forall>m\<in>set ms. t \<notin> set (S m)"
  shows "index_rep (\<lambda>m. S m @ (if m \<in> set ms then [t] else []))
           (fold (\<lambda>a. index_unqualified a t) ms r)"
  using assms
proof (induction ms arbitrary: S r)
  case (Cons a ms)
  let ?S = "S(a := S a @ [t])"
  have step: "index_rep ?S (index_unqualified a t r)"
    using Cons.prems by (intro index_step) auto
  have free: "\<forall>m\<in>set ms. t \<notin> set (?S m)"
    using Cons.prems by auto
  have eq: "(\<lambda>m. ?S m @ (if m \<in> set ms then [t] else []))
      = (\<lambda>m. S m @ (if m \<in> set (a # ms) then [t] else []))"
    using Cons.prems(1) by (auto simp: fun_eq_iff)
  have "distinct ms" using Cons.prems(1) by simp
  from Cons.IH [OF this step free] show ?case by (simp only: eq fold_simps)
qed simp

lemma index_unqualified_frame [simp]:
  "rg_canonical (index_unqualified m t r) = rg_canonical r"
  "rg_aliases (index_unqualified m t r) = rg_aliases r"
  by (simp_all add: index_unqualified_def split: option.splits)

lemma index_fold_frame [simp]:
  "rg_canonical (fold (\<lambda>a. index_unqualified a t) ms r) = rg_canonical r"
  "rg_aliases (fold (\<lambda>a. index_unqualified a t) ms r) = rg_aliases r"
  by (induction ms arbitrary: r) simp_all

lemma alias_fold:
  "map_of (fold (\<lambda>a m. AList.update (f a) c m) as m0) t
     = (if t \<in> f ` set as then Some c else map_of m0 t)"
  by (induction as arbitrary: m0) (auto simp: update_conv')

lemma alias_collision_None:
  "alias_collision r p seen as = None \<longleftrightarrow>
     distinct (map (model_target_new p) as) \<and>
     (\<forall>a\<in>set as. model_target_new p a \<notin> set seen \<and> \<not> is_target_taken r (model_target_new p a))"
  by (induction as arbitrary: seen) (auto simp: Let_def)

lemma target_taken_iff:
  "registry_rep infos r \<Longrightarrow> is_target_taken r t \<longleftrightarrow> t \<in> set (all_targets infos)"
  by (auto simp: registry_rep_def is_target_taken_def hm_contains_def find_None_iff
      all_targets_def info_targets_def)

lemma offering_keys:
  "k \<in> set (map info_key (offering infos m)) \<Longrightarrow> k \<in> set (all_targets infos)"
  by (auto simp: offering_def all_targets_def info_targets_def)

lemma all_targets_snoc: "all_targets (infos @ [i]) = all_targets infos @ info_targets i"
  by (simp add: all_targets_def)

lemma offering_snoc:
  "map info_key (offering (infos @ [i]) m)
     = map info_key (offering infos m) @ (if m \<in> set (info_names i) then [info_key i] else [])"
  by (simp add: offering_def)

lemma registry_rep_new: "registry_rep [] registry_new"
  by (simp add: registry_rep_def registry_new_def index_rep_def all_targets_def offering_def)

lemma registry_insert_distinct:
  assumes "registry_rep infos r"
  shows "(\<exists>r'. registry_insert info r = Inr r') \<longleftrightarrow> distinct (all_targets (infos @ [info]))"
proof -
  let ?m = "model_target_new (mi_provider info)"
  have d: "distinct (all_targets infos)" using assms by (simp add: registry_rep_def)
  have "(\<exists>r'. registry_insert info r = Inr r') \<longleftrightarrow>
      \<not> is_target_taken r (info_key info)
      \<and> alias_collision r (mi_provider info) [info_key info] (mi_aliases info) = None"
    by (auto simp: registry_insert_def Let_def info_key_def split: option.splits)
  also have "\<dots> \<longleftrightarrow> distinct (all_targets (infos @ [info]))"
    by (simp add: alias_collision_None all_targets_snoc info_targets_def alias_targets_def
        d target_taken_iff [OF assms]) (auto simp: image_iff disjoint_iff)
  finally show ?thesis .
qed

lemma registry_insert_rep:
  assumes rep: "registry_rep infos r" and ins: "registry_insert info r = Inr r'"
  shows "registry_rep (infos @ [info]) r'"
proof -
  let ?m = "model_target_new (mi_provider info)" and ?k = "info_key info"
  have dist: "distinct (all_targets (infos @ [info]))"
    using registry_insert_distinct [OF rep] ins by blast
  then have dt: "distinct (info_targets info)"
    and fresh: "\<And>t. t \<in> set (info_targets info) \<Longrightarrow> t \<notin> set (all_targets infos)"
    by (auto simp: all_targets_snoc)
  from dt have dn: "distinct (info_names info)"
    by (auto simp: info_targets_def alias_targets_def info_names_def info_key_def distinct_map)
  let ?r1 = "r\<lparr>rg_aliases := fold (\<lambda>a m. AList.update (?m a) ?k m) (mi_aliases info) (rg_aliases r)\<rparr>"
  let ?r3 = "fold (\<lambda>a. index_unqualified a ?k) (info_names info) ?r1"
  have r': "r' = ?r3\<lparr>rg_canonical := AList.update ?k info (rg_canonical r)\<rparr>"
    using ins by (auto simp: registry_insert_def Let_def info_key_def info_names_def
        split: if_splits option.splits)
  have "index_rep (\<lambda>m. map info_key (offering infos m)) ?r1"
    using rep by (simp add: registry_rep_def index_rep_def)
  moreover have "?k \<notin> set (all_targets infos)"
    using fresh by (simp add: info_targets_def)
  then have "\<forall>m\<in>set (info_names info). ?k \<notin> set (map info_key (offering infos m))"
    using offering_keys by blast
  ultimately have "index_rep (\<lambda>m. map info_key (offering (infos @ [info]) m)) ?r3"
    unfolding offering_snoc using dn by (intro index_fold) auto
  then have idx: "index_rep (\<lambda>m. map info_key (offering (infos @ [info]) m)) r'"
    by (simp add: r' index_rep_def)
  have can: "map_of (rg_canonical r') t = find (\<lambda>i. info_key i = t) (infos @ [info])" for t
  proof -
    have "find (\<lambda>i. info_key i = ?k) infos = None"
      using fresh [of ?k] by (auto simp: find_None_iff info_targets_def all_targets_def)
    with rep show ?thesis
      by (auto simp: r' registry_rep_def find_snoc update_conv' split: option.splits)
  qed
  have ali: "map_of (rg_aliases r') t
      = map_option info_key (find (\<lambda>i. t \<in> set (alias_targets i)) (infos @ [info]))" for t
  proof -
    have upd: "map_of (rg_aliases r') t
        = (if t \<in> set (alias_targets info) then Some ?k else map_of (rg_aliases r) t)"
      by (simp add: r' alias_fold alias_targets_def)
    have "find (\<lambda>i. t \<in> set (alias_targets i)) infos = None" if "t \<in> set (alias_targets info)"
      using fresh [of t] that by (auto simp: find_None_iff info_targets_def all_targets_def)
    with rep upd show ?thesis
      by (simp add: registry_rep_def find_snoc split: option.split)
  qed
  show ?thesis using dist idx can ali by (simp add: registry_rep_def)
qed

section \<open>Lookups in a represented registry\<close>

lemma target_owner_unique:
  "distinct (all_targets infos) \<Longrightarrow> i \<in> set infos \<Longrightarrow> j \<in> set infos \<Longrightarrow>
     t \<in> set (info_targets i) \<Longrightarrow> t \<in> set (info_targets j) \<Longrightarrow> i = j"
  by (induction infos) (auto simp: all_targets_def)

lemma info_targets_distinct:
  "distinct (all_targets infos) \<Longrightarrow> i \<in> set infos \<Longrightarrow> distinct (info_targets i)"
  by (induction infos) (auto simp: all_targets_def)

lemma lookup_target_rep:
  assumes rep: "registry_rep infos r"
  shows "lookup_target r t = find (\<lambda>i. t \<in> set (info_targets i)) infos"
proof (cases "find (\<lambda>i. t \<in> set (info_targets i)) infos")
  case None
  then have "find (\<lambda>i. t \<in> set (alias_targets i)) infos = None"
    "find (\<lambda>i. info_key i = t) infos = None"
    by (auto simp: find_None_iff info_targets_def)
  with rep None show ?thesis by (simp add: lookup_target_def registry_rep_def)
next
  case (Some i)
  from rep have d: "distinct (all_targets infos)" by (simp add: registry_rep_def)
  from Some have i: "i \<in> set infos" "t \<in> set (info_targets i)" by (auto dest: find_SomeD)
  note owner = target_owner_unique [OF d _ i(1)]
  have "find (\<lambda>j. info_key j = info_key i) infos = Some i"
    by (rule find_unique [OF i(1)]) (auto simp: info_targets_def intro: owner [of _ "info_key i"])
  with rep have key: "map_of (rg_canonical r) (info_key i) = Some i"
    by (simp add: registry_rep_def)
  show ?thesis
  proof (cases "t \<in> set (alias_targets i)")
    case True
    then have "find (\<lambda>i. t \<in> set (alias_targets i)) infos = Some i"
      using i(2) by (intro find_unique [OF i(1)])
        (auto simp: info_targets_def intro: owner [of _ t])
    with rep key Some show ?thesis by (simp add: lookup_target_def registry_rep_def)
  next
    case False
    with i have t: "t = info_key i" by (simp add: info_targets_def)
    have "find (\<lambda>i. t \<in> set (alias_targets i)) infos = None"
      using i False owner [of _ t] by (auto simp: find_None_iff info_targets_def)
    with rep key Some t show ?thesis by (simp add: lookup_target_def registry_rep_def)
  qed
qed

lemma get_target_rep:
  assumes rep: "registry_rep infos r"
  shows "get_target_loop r t = Some (case t of
      Provider p m \<Rightarrow> find (\<lambda>i. t \<in> set (info_targets i)) infos
    | Id m \<Rightarrow> (case offering infos m of [i] \<Rightarrow> Some i | _ \<Rightarrow> None))"
proof (cases t)
  case (Provider p m)
  then show ?thesis
    by (subst get_target_loop.simps) (simp add: lookup_target_rep [OF rep])
next
  case (Id m)
  have amb: "List.member (rg_ambiguous r) m \<longleftrightarrow> 2 \<le> length (offering infos m)"
    and unq: "map_of (rg_unqualified r) m
      = (case map info_key (offering infos m) of [t] \<Rightarrow> Some t | _ \<Rightarrow> None)"
    using rep by (simp_all add: registry_rep_def index_rep_def)
  show ?thesis
  proof (cases "offering infos m" rule: remdups_adj.cases)
    case 1
    with amb unq show ?thesis by (subst get_target_loop.simps) (simp add: Id)
  next
    case (2 i)
    then have "i \<in> set (offering infos m)" by simp
    then have mem: "i \<in> set infos" by (simp add: offering_def)
    from rep have d: "distinct (all_targets infos)" by (simp add: registry_rep_def)
    have "lookup_target r (info_key i) = Some i"
      unfolding lookup_target_rep [OF rep]
      by (rule find_unique [OF mem])
        (auto simp: info_targets_def intro: target_owner_unique [OF d _ mem, of _ "info_key i"])
    moreover obtain p n where "info_key i = Provider p n"
      by (auto simp: info_key_def model_target_new_def)
    ultimately have "get_target_loop r (info_key i) = Some (Some i)"
      by (subst get_target_loop.simps) simp
    with 2 amb unq show ?thesis by (subst get_target_loop.simps) (simp add: Id)
  next
    case (3 i j rest)
    with amb show ?thesis by (subst get_target_loop.simps) (simp add: Id)
  qed
qed

lemma require_rep:
  assumes "registry_rep infos r"
  shows "require r m = (case offering infos m of
      [] \<Rightarrow> Inl (RE_Unknown m) | [i] \<Rightarrow> Inr i | _ \<Rightarrow> Inl (RE_Ambiguous m))"
proof -
  have "List.member (rg_ambiguous r) m \<longleftrightarrow> 2 \<le> length (offering infos m)"
    using assms by (simp add: registry_rep_def index_rep_def)
  then show ?thesis
    by (cases "offering infos m" rule: remdups_adj.cases)
       (simp_all add: require_def registry_get_def get_target_def get_target_rep [OF assms])
qed

lemma register_models_rep:
  "register_models p infos r = Inr r' \<Longrightarrow> registry_rep L r \<Longrightarrow> registry_rep (L @ infos) r'"
proof (induction p infos r arbitrary: L rule: register_models.induct)
  case (2 p info infos r)
  then obtain r1 where r1: "registry_insert info r = Inr r1" "register_models p infos r1 = Inr r'"
      "mi_provider info = pc_name p"
    by (auto simp: and_then_def map_err_def split: if_splits sum.splits)
  from registry_insert_rep [OF 2(3) r1(1)] 2(1) [OF _ r1(2)] r1(3)
  have "registry_rep ((L @ [info]) @ infos) r'" by blast
  then show ?case by simp
qed simp

lemma register_providers_rep:
  "register_providers ps r = Inr r' \<Longrightarrow> registry_rep L r \<Longrightarrow>
     registry_rep (L @ concat (map pc_models ps)) r'"
proof (induction ps r arbitrary: L rule: register_providers.induct)
  case (2 p ps r)
  from 2(2) obtain r1 where r1: "register_provider_models p r = Inr r1"
      "register_providers ps r1 = Inr r'"
    by (auto simp: and_then_Inr)
  then have "registry_rep (L @ pc_models p) r1"
    using register_models_rep 2(3) by (auto simp: register_provider_models_def split: if_splits)
  from 2(1) [OF r1(2) this] show ?case by simp
qed simp

lemma build_rep:
  "try_build_model_registry ps = Inr r \<Longrightarrow> registry_rep (concat (map pc_models ps)) r"
  using register_providers_rep [of ps registry_new r "[]"] registry_rep_new
  by (simp add: try_build_model_registry_def)

lemma register_models_ok:
  "registry_rep L r \<Longrightarrow>
     (\<exists>r'. register_models p infos r = Inr r') \<longleftrightarrow>
     list_all (\<lambda>i. mi_provider i = pc_name p) infos \<and> distinct (all_targets (L @ infos))"
proof (induction infos arbitrary: L r)
  case Nil
  then show ?case by (simp add: registry_rep_def)
next
  case (Cons i infos)
  show ?case
  proof (cases "registry_insert i r")
    case (Inl t)
    then have "\<not> distinct (all_targets (L @ [i]))"
      using registry_insert_distinct [OF Cons.prems, of i] by simp
    moreover have "distinct (all_targets (L @ i # infos)) \<longrightarrow> distinct (all_targets (L @ [i]))"
      by (simp add: all_targets_def) blast
    ultimately show ?thesis using Inl by simp
  next
    case (Inr r1)
    have "register_models p (i # infos) r
        = (if mi_provider i = pc_name p then register_models p infos r1
           else Inl (ProviderMismatch (pc_name p) (mi_id i)))"
      using Inr by simp
    with Cons.IH [OF registry_insert_rep [OF Cons.prems Inr]] show ?thesis
      by (cases "mi_provider i = pc_name p") simp_all
  qed
qed

lemma register_providers_ok:
  "registry_rep L r \<Longrightarrow>
     (\<exists>r'. register_providers ps r = Inr r') \<longleftrightarrow>
     list_all (\<lambda>p. pc_models p \<noteq> [] \<and> list_all (\<lambda>i. mi_provider i = pc_name p) (pc_models p)) ps
     \<and> distinct (all_targets (L @ concat (map pc_models ps)))"
proof (induction ps arbitrary: L r)
  case Nil
  then show ?case by (simp add: registry_rep_def)
next
  case (Cons p ps)
  show ?case
  proof (cases "register_provider_models p r")
    case (Inl e)
    then have "\<not> (pc_models p \<noteq> [] \<and> list_all (\<lambda>i. mi_provider i = pc_name p) (pc_models p)
        \<and> distinct (all_targets (L @ pc_models p)))"
      using register_models_ok [OF Cons.prems, of p "pc_models p"]
      by (auto simp: register_provider_models_def split: if_splits)
    moreover have "distinct (all_targets (L @ pc_models p @ concat (map pc_models ps)))
        \<longrightarrow> distinct (all_targets (L @ pc_models p))"
      by (simp add: all_targets_def) blast
    ultimately show ?thesis using Inl by (simp add: and_then_def) blast
  next
    case (Inr r1)
    then have *: "register_models p (pc_models p) r = Inr r1" "pc_models p \<noteq> []"
      by (auto simp: register_provider_models_def split: if_splits)
    then have "list_all (\<lambda>i. mi_provider i = pc_name p) (pc_models p)"
      using register_models_ok [OF Cons.prems, of p "pc_models p"] by blast
    with *(2) Inr Cons.IH [OF register_models_rep [OF *(1) Cons.prems]] show ?thesis
      by (simp add: and_then_def)
  qed
qed

text \<open>A catalog with one shared id, used by the witnesses below.\<close>

definition sample_catalog :: "provider_catalog list" where
  "sample_catalog =
     [\<lparr>pc_name = ''p'', pc_models = [model_info_minimal ''m'' ''p'']\<rparr>,
      \<lparr>pc_name = ''q'', pc_models = [model_info_minimal ''m'' ''q'', model_info_minimal ''n'' ''q'']\<rparr>]"

lemma sample_catalog_builds: "\<exists>r. try_build_model_registry sample_catalog = Inr r"
proof -
  have "trim ''p'' = ''p''" "trim ''q'' = ''q''" 
    by (rule trim_plain; code_simp)+
  then show ?thesis
    using register_providers_ok [OF registry_rep_new, of sample_catalog]
    by (simp add: try_build_model_registry_def sample_catalog_def model_info_minimal_def
        all_targets_def info_targets_def info_key_def alias_targets_def model_target_new_def)
qed

text \<open>Resolving an unqualified model id in the registry built from the configured providers
  agrees with a search of their model lists: no model offers the id under its own id or an alias
  - unknown; exactly one does - that model; several do - ambiguous.\<close>

theorem registry_resolution:
  assumes "try_build_model_registry ps = Inr r"
  shows "require r m = (case offering (concat (map pc_models ps)) m of
      [] \<Rightarrow> Inl (RE_Unknown m) | [i] \<Rightarrow> Inr i | _ \<Rightarrow> Inl (RE_Ambiguous m))"
  by (rule require_rep [OF build_rep [OF assms]])

lemma registry_resolution_witness:
  "\<exists>r. require r ''m'' = Inl (RE_Ambiguous ''m'')
     \<and> require r ''n'' = Inr (model_info_minimal ''n'' ''q'')"
proof -
  obtain r where r: "try_build_model_registry sample_catalog = Inr r"
    using sample_catalog_builds by blast
  show ?thesis
    using registry_resolution [OF r, of "''m''"] registry_resolution [OF r, of "''n''"]
    by (intro exI [of _ r])
       (simp add: sample_catalog_def offering_def info_names_def model_info_minimal_def)
qed

text \<open>C40: every lookup in a built registry returns, although the code's \<open>get\<close> and \<open>get_target\<close>
  recurse into each other, and a provider-qualified lookup finds exactly the model that offers the
  target under its own id or an alias.\<close>

theorem registry_lookup_returns:
  assumes "try_build_model_registry ps = Inr r"
  shows "get_target_loop r t = Some (case t of
      Provider p m \<Rightarrow> find (\<lambda>i. t \<in> set (info_targets i)) (concat (map pc_models ps))
    | Id m \<Rightarrow> (case offering (concat (map pc_models ps)) m of [i] \<Rightarrow> Some i | _ \<Rightarrow> None))"
  by (rule get_target_rep [OF build_rep [OF assms]])

lemma registry_lookup_returns_witness:
  "\<exists>r. get_target_loop r (Id ''n'') = Some (Some (model_info_minimal ''n'' ''q''))"
proof -
  obtain r where r: "try_build_model_registry sample_catalog = Inr r"
    using sample_catalog_builds by blast
  show ?thesis
    using registry_lookup_returns [OF r, of "Id ''n''"]
    by (intro exI [of _ r])
       (simp add: sample_catalog_def offering_def info_names_def model_info_minimal_def)
qed

text \<open>The registry can be built exactly when every provider lists a model, every model names
  its provider, and no two model ids or aliases of the same provider collide; equal ids at
  different providers are no collision.\<close>

theorem registry_build_succeeds:
  "(\<exists>r. try_build_model_registry ps = Inr r) \<longleftrightarrow>
     list_all (\<lambda>p. pc_models p \<noteq> [] \<and> list_all (\<lambda>i. mi_provider i = pc_name p) (pc_models p)) ps
     \<and> distinct (concat (map (\<lambda>i. map (model_target_new (mi_provider i)) (mi_id i # mi_aliases i))
          (concat (map pc_models ps))))"
proof -
  have targets: "info_targets = (\<lambda>i. map (model_target_new (mi_provider i)) (mi_id i # mi_aliases i))"
    by (simp add: fun_eq_iff info_targets_def info_key_def alias_targets_def)
  show ?thesis
    using register_providers_ok [OF registry_rep_new, of ps]
    by (simp add: try_build_model_registry_def all_targets_def targets)
qed

end
