(* ===== verification/Selection.thy ===== *)
theory Selection
  imports Models
begin

text \<open>
  Model selection (\<open>model/selection.rs\<close>): the precedence of explicit, session, global and default
  models, the fallback chain of a run, and the shape of the request sent to one attempt. The
  read of the persisted global override is an argument, because only its result enters.
\<close>

section \<open>Precedence\<close>

datatype resolved_source = ConfigDefault | GlobalOverride | SessionOverride | Explicit

definition source_as_str :: "resolved_source \<Rightarrow> string" where
  "source_as_str s = (case s of
       ConfigDefault \<Rightarrow> ''config-default'' | GlobalOverride \<Rightarrow> ''global-override''
     | SessionOverride \<Rightarrow> ''session-override'' | Explicit \<Rightarrow> ''explicit-arg'')"

record resolved_with_source =
  rws_info :: model_info
  rws_source :: resolved_source

definition resolve_id_with_source ::
  "registry \<Rightarrow> model_id \<Rightarrow> resolved_source \<Rightarrow> resolve_error + resolved_with_source" where
  "resolve_id_with_source r m src =
     and_then (require r m) (\<lambda>info. Inr \<lparr>rws_info = info, rws_source = src\<rparr>)"

definition resolve_target_with_source ::
  "registry \<Rightarrow> model_target \<Rightarrow> resolved_source \<Rightarrow> resolve_error + resolved_with_source" where
  "resolve_target_with_source r t src =
     and_then (resolve r t) (\<lambda>info. Inr \<lparr>rws_info = info, rws_source = src\<rparr>)"

definition resolve_override ::
  "registry \<Rightarrow> string \<Rightarrow> model_id \<Rightarrow> resolved_source \<Rightarrow> resolve_error + resolved_with_source" where
  "resolve_override r sc m src = (case registry_get r m of
       None \<Rightarrow> Inl (RE_UnknownOverride sc m)
     | Some info \<Rightarrow> Inr \<lparr>rws_info = info, rws_source = src\<rparr>)"

definition validate_model_override ::
  "registry \<Rightarrow> string \<Rightarrow> model_id \<Rightarrow> resolve_error + unit" where
  "validate_model_override r sc m =
     and_then (resolve_override r sc m Explicit) (\<lambda>_. Inr ())"

definition resolve_model_with_overrides ::
  "registry \<Rightarrow> model_id option \<Rightarrow> override_store_error + model_id option \<Rightarrow> model_id option
   \<Rightarrow> model_id \<Rightarrow> resolve_error + resolved_with_source" where
  "resolve_model_with_overrides r session_override global_read expl dflt =
     (case expl of
        Some m \<Rightarrow> resolve_id_with_source r m Explicit
      | None \<Rightarrow> (case session_override of
          Some m \<Rightarrow> resolve_override r ''session'' m SessionOverride
        | None \<Rightarrow> and_then (map_err RE_OverrideStore global_read) (\<lambda>g. case g of
            Some m \<Rightarrow> resolve_override r ''global'' m GlobalOverride
          | None \<Rightarrow> resolve_id_with_source r dflt ConfigDefault)))"

definition resolve_model_target_with_overrides ::
  "registry \<Rightarrow> model_id option \<Rightarrow> override_store_error + model_id option \<Rightarrow> model_target option
   \<Rightarrow> model_target \<Rightarrow> resolve_error + resolved_with_source" where
  "resolve_model_target_with_overrides r session_override global_read expl dflt =
     (if is_Id dflt \<and> is_none_or is_Id expl then
        resolve_model_with_overrides r session_override global_read
          (map_option target_model expl) (target_model dflt)
      else (case expl of
        Some t \<Rightarrow> resolve_target_with_source r t Explicit
      | None \<Rightarrow> (case session_override of
          Some m \<Rightarrow> resolve_override r ''session'' m SessionOverride
        | None \<Rightarrow> and_then (map_err RE_OverrideStore global_read) (\<lambda>g. case g of
            Some m \<Rightarrow> resolve_override r ''global'' m GlobalOverride
          | None \<Rightarrow> resolve_target_with_source r dflt ConfigDefault))))"

section \<open>The fallback chain\<close>

record resolved_model =
  rm_target :: model_target
  rm_info :: model_info

definition map_resolve_error :: "resolve_error \<Rightarrow> kernel_error" where
  "map_resolve_error e = (case e of
       RE_Unknown m \<Rightarrow> KE_UnknownModel m
     | RE_Ambiguous m \<Rightarrow> KE_AmbiguousModel m
     | RE_UnknownTarget t \<Rightarrow> KE_UnknownModelTarget t
     | RE_UnknownOverride sc m \<Rightarrow> KE_UnknownModelOverride sc m
     | RE_OverrideStore err \<Rightarrow> KE_ModelOverrideStore (show_override_store_error err))"

definition resolve_model_target :: "registry \<Rightarrow> model_target \<Rightarrow> kernel_error + resolved_model" where
  "resolve_model_target r t =
     and_then (map_err map_resolve_error (resolve r t)) (\<lambda>info.
       Inr \<lparr>rm_target = model_target_new (mi_provider info) (target_model t), rm_info = info\<rparr>)"

definition resolve_model :: "registry \<Rightarrow> model_target \<Rightarrow> kernel_error + resolved_model" where
  "resolve_model r t = (case t of
       Id m \<Rightarrow> and_then (map_err map_resolve_error (require r m)) (\<lambda>info.
         Inr \<lparr>rm_target = model_target_new (mi_provider info) m, rm_info = info\<rparr>)
     | Provider p m \<Rightarrow> resolve_model_target r t)"

fun filter_ok :: "('e + 'a) list \<Rightarrow> 'a list" where
  "filter_ok [] = []"
| "filter_ok (Inl e # xs) = filter_ok xs"
| "filter_ok (Inr x # xs) = x # filter_ok xs"

definition resolve_attempts ::
  "registry \<Rightarrow> model_target \<Rightarrow> model_target list \<Rightarrow> kernel_error + resolved_model list" where
  "resolve_attempts r primary fallbacks =
     and_then (resolve_model r primary) (\<lambda>p.
       Inr (p # filter_ok (map (resolve_model_target r) fallbacks)))"

section \<open>The request of one attempt\<close>

datatype attempt_kind = Primary | Fallback

record attempt_params =
  ep_max_tokens :: nat
  ep_temperature :: rat

definition effective_params :: "nat option \<Rightarrow> rat option \<Rightarrow> model_info \<Rightarrow> attempt_params" where
  "effective_params max_tokens temperature info =
     \<lparr>ep_max_tokens = unwrap_or (mc_default_max_output_tokens (mi_caps info)) max_tokens,
      ep_temperature = unwrap_or (default_temperature (mi_caps info)) temperature\<rparr>"

definition request_for_attempt ::
  "llm_request \<Rightarrow> resolved_model \<Rightarrow> attempt_kind \<Rightarrow> llm_request" where
  "request_for_attempt base attempt knd =
     (let caps = mi_caps (rm_info attempt);
          params = effective_params (rq_max_tokens base) (rq_temperature base) (rm_info attempt);
          req = base\<lparr>rq_model := target_model (rm_target attempt),
                     rq_max_tokens := Some (ep_max_tokens params),
                     rq_temperature :=
                       if mc_supports_temperature caps then Some (ep_temperature params) else None\<rparr>;
          req = (if (rq_reasoning_effort req = Some Disabled \<or> knd = Fallback)
                    \<and> mc_reasoning_effort caps = None
                 then req\<lparr>rq_reasoning_effort := None\<rparr>
                 else req\<lparr>rq_reasoning_effort :=
                        opt_or (rq_reasoning_effort req) (mc_reasoning_effort caps)\<rparr>)
      in if knd = Fallback \<and> \<not> mc_supports_web_search caps
         then req\<lparr>rq_web_search := web_search_default\<rparr> else req)"

section \<open>Properties\<close>

text \<open>The precedence of model selection. Whatever mix of unqualified and provider-qualified
  selectors the caller uses, the first layer present decides alone - explicit, then session
  override, then global override, then default - and never falls through to a later one: an
  unknown model in that layer is an error.\<close>

theorem override_precedence:
  "resolve_model_target_with_overrides r session_override global_read expl dflt =
     (let layer = (\<lambda>res src. and_then res (\<lambda>info. Inr \<lparr>rws_info = info, rws_source = src\<rparr>));
          ovr = (\<lambda>sc m src. case registry_get r m of
                   None \<Rightarrow> Inl (RE_UnknownOverride sc m)
                 | Some info \<Rightarrow> Inr \<lparr>rws_info = info, rws_source = src\<rparr>)
      in case expl of Some t \<Rightarrow> layer (resolve r t) Explicit | None \<Rightarrow>
         case session_override of Some m \<Rightarrow> ovr ''session'' m SessionOverride | None \<Rightarrow>
         case global_read of
           Inl e \<Rightarrow> Inl (RE_OverrideStore e)
         | Inr (Some m) \<Rightarrow> ovr ''global'' m GlobalOverride
         | Inr None \<Rightarrow> layer (resolve r dflt) ConfigDefault)"
  by (cases dflt; cases expl; cases global_read)
     (auto simp: resolve_model_target_with_overrides_def resolve_model_with_overrides_def
        resolve_id_with_source_def resolve_target_with_source_def resolve_override_def resolve_def
        is_Id_def split: option.splits)

lemma resolve_model_uniform: "resolve_model r t = resolve_model_target r t"
  by (cases t) (simp_all add: resolve_model_def resolve_model_target_def resolve_def)

text \<open>The attempt chain of a run starts with the primary model, which must resolve, and goes
  on with exactly the fallbacks the registry knows, in the configured order; every attempt is
  pinned to the provider of the model it resolved to and keeps the id the caller asked for.\<close>

theorem attempts_chain:
  "resolve_attempts r primary fallbacks =
     (case resolve r primary of
        Inl e \<Rightarrow> Inl (map_resolve_error e)
      | Inr info \<Rightarrow>
          Inr (map (\<lambda>t. let i = projr (resolve r t) in
                   \<lparr>rm_target = Provider (trim (mi_provider i)) (target_model t), rm_info = i\<rparr>)
                 (primary # filter (\<lambda>t. \<not> isl (resolve r t)) fallbacks)))"
proof -
  have rmt: "resolve_model_target r t = (case resolve r t of
        Inl e \<Rightarrow> Inl (map_resolve_error e)
      | Inr i \<Rightarrow> Inr \<lparr>rm_target = Provider (trim (mi_provider i)) (target_model t), rm_info = i\<rparr>)"
    for t
    by (simp add: resolve_model_target_def model_target_new_def split: sum.split)
  have fb: "filter_ok (map (resolve_model_target r) fallbacks)
      = map (\<lambda>t. let i = projr (resolve r t) in
               \<lparr>rm_target = Provider (trim (mi_provider i)) (target_model t), rm_info = i\<rparr>)
          (filter (\<lambda>t. \<not> isl (resolve r t)) fallbacks)"
  proof (induction fallbacks)
    case (Cons t ts)
    then show ?case by (cases "resolve r t") (simp_all add: rmt)
  qed simp
  show ?thesis
    by (cases "resolve r primary")
       (simp_all add: resolve_attempts_def resolve_model_uniform fb rmt)
qed

text \<open>Preparing a request for an attempt is idempotent, never sends a temperature to a model
  that rejects the parameter, always pins a token limit, and a fallback never carries a feature
  (web search, reasoning effort) its model does not declare.\<close>

theorem request_for_attempt_shape:
  "let req = request_for_attempt base a knd; caps = mi_caps (rm_info a) in
     request_for_attempt req a knd = req
     \<and> (rq_temperature req = None) = (\<not> mc_supports_temperature caps)
     \<and> rq_max_tokens req \<noteq> None
     \<and> rq_reasoning_effort req
         = (if mc_reasoning_effort caps = None
            then if knd = Fallback then None
                 else if rq_reasoning_effort base = Some Disabled then None
                 else rq_reasoning_effort base
            else opt_or (rq_reasoning_effort base) (mc_reasoning_effort caps))
     \<and> ws_enabled (rq_web_search req)
         = (ws_enabled (rq_web_search base) \<and> (knd = Primary \<or> mc_supports_web_search caps))
     \<and> rq_messages req = rq_messages base \<and> rq_tools req = rq_tools base"
  by (cases knd; cases "mc_reasoning_effort (mi_caps (rm_info a))"; cases "rq_reasoning_effort base")
     (auto simp: request_for_attempt_def effective_params_def Let_def web_search_default_def)

end
