(* ===== verification/Run_State.thy ===== *)
theory Run_State
  imports Policy Selection
begin

text \<open>
  What one kernel run shares with its hooks, tools, providers and callers: the run context of
  \<open>hook/mod.rs\<close> (write-once cells and the cancellation token), the events of \<open>hook/event.rs\<close>, and
  the state-passing computations in which the run loop is written.

  A computation maps the run state to a new run state and one of three endings: it returns, it
  fails with a \<open>KernelError\<close>, or it is parked, suspended at an \<open>.await\<close> that never completes
  under the driver, because the biased \<open>select!\<close> of the driver drops it or because the task is
  aborted. Everything outside the kernel is a call: given the context as it is at that moment and
  the state \<open>'w\<close> of the outside world, it answers with a new world, the writes to the shared
  cells and tokens that happened while it was pending (its own and those of concurrent tasks), and
  a result, or none if it never completes. All theorems hold for arbitrary calls.

  The trace records, in order, what the kernel does to its collaborators; it is no part of the
  program's state and no operation reads it.
\<close>

section \<open>The run context\<close>

datatype cancel_reason = StopPattern | Hook_Cancel | External | Shutdown

record run_ctx =
  cx_run_id :: string
  cx_subject :: subject
  cx_session_id :: "string option"
  cx_model_override :: "model_id option"
  cx_effort_override :: "reasoning_effort option"
  cx_cancelled :: bool
  cx_cancel_reason :: "cancel_reason option"

definition run_ctx_new :: "string \<Rightarrow> subject \<Rightarrow> run_ctx" where
  "run_ctx_new run_id sub =
     \<lparr>cx_run_id = run_id, cx_subject = sub, cx_session_id = None, cx_model_override = None,
      cx_effort_override = None, cx_cancelled = False, cx_cancel_reason = None\<rparr>"

definition with_cancel :: "bool \<Rightarrow> run_ctx \<Rightarrow> run_ctx" where
  "with_cancel token ctx = ctx\<lparr>cx_cancelled := token\<rparr>"

definition with_cancel_reason :: "cancel_reason option \<Rightarrow> run_ctx \<Rightarrow> run_ctx" where
  "with_cancel_reason cell ctx = ctx\<lparr>cx_cancel_reason := cell\<rparr>"

text \<open>\<open>OnceLock::set\<close>: the first write wins, a later one is handed back.\<close>

definition once_set :: "'a \<Rightarrow> 'a option \<Rightarrow> 'a option \<times> ('a + unit)" where
  "once_set v cell = (case cell of None \<Rightarrow> (Some v, Inr ()) | Some w \<Rightarrow> (Some w, Inl v))"

definition set_session_id :: "string \<Rightarrow> run_ctx \<Rightarrow> run_ctx \<times> (string + unit)" where
  "set_session_id v ctx =
     (let (cell, r) = once_set v (cx_session_id ctx) in (ctx\<lparr>cx_session_id := cell\<rparr>, r))"

definition set_session_model_override ::
  "model_id \<Rightarrow> run_ctx \<Rightarrow> run_ctx \<times> (model_id + unit)" where
  "set_session_model_override v ctx =
     (let (cell, r) = once_set v (cx_model_override ctx) in (ctx\<lparr>cx_model_override := cell\<rparr>, r))"

definition set_session_reasoning_effort_override ::
  "reasoning_effort \<Rightarrow> run_ctx \<Rightarrow> run_ctx \<times> (reasoning_effort + unit)" where
  "set_session_reasoning_effort_override v ctx =
     (let (cell, r) = once_set v (cx_effort_override ctx) in (ctx\<lparr>cx_effort_override := cell\<rparr>, r))"

definition set_cancel_reason ::
  "cancel_reason \<Rightarrow> run_ctx \<Rightarrow> run_ctx \<times> (cancel_reason + unit)" where
  "set_cancel_reason v ctx =
     (let (cell, r) = once_set v (cx_cancel_reason ctx) in (ctx\<lparr>cx_cancel_reason := cell\<rparr>, r))"

section \<open>Outcomes and events\<close>

datatype outcome =
    Completed string
  | MaxTurnsExceeded
  | Cancelled
  | Paused
  | Errored string

datatype notification_level = Info | Warn | Error_Level

record notification =
  nt_kind :: string
  nt_message :: string
  nt_level :: notification_level

datatype attempt_error_class =
    AE_RateLimited "nat option"
  | AE_ApiClient nat
  | AE_ApiServer nat
  | AE_Transport
  | AE_Timeout
  | AE_Auth
  | AE_MalformedResponse
  | AE_ToolsUnsupported
  | AE_VisionUnsupported
  | AE_AudioUnsupported
  | AE_WebSearchUnsupported
  | AE_ReasoningEffortUnsupported
  | AE_ModelDiscovery
  | AE_Cancelled
  | AE_RetryableStream
  | AE_Other

definition attempt_error_class_from :: "provider_error \<Rightarrow> attempt_error_class" where
  "attempt_error_class_from err = (case err of
       PE_RateLimited retry \<Rightarrow> AE_RateLimited retry
     | PE_Api st _ retry \<Rightarrow>
         if st = 429 then AE_RateLimited retry
         else if st = 408 then AE_Timeout
         else if 500 \<le> st \<and> st \<le> 599 then AE_ApiServer st
         else AE_ApiClient st
     | PE_Timeout \<Rightarrow> AE_Timeout
     | PE_Transport _ \<Rightarrow> AE_Transport
     | PE_Auth _ \<Rightarrow> AE_Auth
     | PE_MalformedResponse _ \<Rightarrow> AE_MalformedResponse
     | PE_ToolsUnsupported _ _ \<Rightarrow> AE_ToolsUnsupported
     | PE_VisionUnsupported _ _ \<Rightarrow> AE_VisionUnsupported
     | PE_AudioUnsupported _ _ \<Rightarrow> AE_AudioUnsupported
     | PE_WebSearchUnsupported _ _ \<Rightarrow> AE_WebSearchUnsupported
     | PE_ReasoningEffortUnsupported _ _ \<Rightarrow> AE_ReasoningEffortUnsupported
     | PE_ModelDiscovery _ \<Rightarrow> AE_ModelDiscovery
     | PE_Cancelled \<Rightarrow> AE_Cancelled
     | PE_RetryableStream _ \<Rightarrow> AE_RetryableStream
     | PE_Other _ \<Rightarrow> AE_Other)"

datatype event =
    Token string
  | Reasoning string
  | ToolCallStarted tool_call
  | ToolCallCompleted tool_call tool_result
  | Notification notification
  | ServerToolResult string string "citation list" json
  | AttemptFailed nat nat string string attempt_error_class string bool
  | Final string

text \<open>An item of the event channel, \<open>Result<Event, KernelError>\<close>.\<close>

type_synonym stream_item = "kernel_error + event"

section \<open>Computations of a run\<close>

datatype obs =
    Ob_Policy action policy_decision
  | Ob_Stream string model_id
  | Ob_Stream_Error provider_error
  | Ob_Tool tool_call
  | Ob_Append message
  | Ob_Sent stream_item
  | Ob_Error kernel_error
  | Ob_Stop outcome "cancel_reason option"

record 'w run_state =
  st_world :: 'w
  st_ctx :: run_ctx
  st_paused :: bool
  st_shutdown :: bool
  st_closed :: bool
  st_trace :: "obs list"

datatype 'a step = Returns 'a | Fails kernel_error | Parked

type_synonym ('w, 'a) run = "'w run_state \<Rightarrow> 'w run_state \<times> 'a step"

text \<open>The writes to shared state that can happen while a call is pending. Dropping the receiver
  is \<open>RunStream::drop\<close>: it cancels the run and closes the channel.\<close>

datatype ctx_op =
    Set_Session_Id string
  | Set_Model_Override model_id
  | Set_Effort_Override reasoning_effort
  | Set_Cancel_Reason cancel_reason
  | Fire_Cancel
  | Fire_Pause
  | Fire_Shutdown
  | Drop_Receiver

type_synonym ('w, 'r) call = "'w \<Rightarrow> 'w \<times> ctx_op list \<times> 'r option"

definition on_ctx :: "(run_ctx \<Rightarrow> run_ctx) \<Rightarrow> 'w run_state \<Rightarrow> 'w run_state" where
  "on_ctx f s = s\<lparr>st_ctx := f (st_ctx s)\<rparr>"

fun apply_op :: "ctx_op \<Rightarrow> 'w run_state \<Rightarrow> 'w run_state" where
  "apply_op (Set_Session_Id v) s = on_ctx (fst \<circ> set_session_id v) s"
| "apply_op (Set_Model_Override v) s = on_ctx (fst \<circ> set_session_model_override v) s"
| "apply_op (Set_Effort_Override v) s = on_ctx (fst \<circ> set_session_reasoning_effort_override v) s"
| "apply_op (Set_Cancel_Reason v) s = on_ctx (fst \<circ> set_cancel_reason v) s"
| "apply_op Fire_Cancel s = on_ctx (with_cancel True) s"
| "apply_op Fire_Pause s = s\<lparr>st_paused := True\<rparr>"
| "apply_op Fire_Shutdown s = s\<lparr>st_shutdown := True\<rparr>"
| "apply_op Drop_Receiver s = (on_ctx (with_cancel True) s)\<lparr>st_closed := True\<rparr>"

definition ret :: "'a \<Rightarrow> ('w, 'a) run" where
  "ret x s = (s, Returns x)"

definition fail :: "kernel_error \<Rightarrow> ('w, 'a) run" where
  "fail e s = (s, Fails e)"

definition bind :: "('w, 'a) run \<Rightarrow> ('a \<Rightarrow> ('w, 'b) run) \<Rightarrow> ('w, 'b) run" where
  "bind m f s = (case m s of
       (s', Returns x) \<Rightarrow> f x s'
     | (s', Fails e) \<Rightarrow> (s', Fails e)
     | (s', Parked) \<Rightarrow> (s', Parked))"

definition lift_result :: "kernel_error + 'a \<Rightarrow> ('w, 'a) run" where
  "lift_result r = (case r of Inl e \<Rightarrow> fail e | Inr x \<Rightarrow> ret x)"

definition read :: "('w run_state \<Rightarrow> 'a) \<Rightarrow> ('w, 'a) run" where
  "read f s = (s, Returns (f s))"

definition emit :: "obs \<Rightarrow> ('w, unit) run" where
  "emit ob s = (s\<lparr>st_trace := st_trace s @ [ob]\<rparr>, Returns ())"

definition invoke :: "(run_ctx \<Rightarrow> ('w, 'r) call) \<Rightarrow> ('w, 'r) run" where
  "invoke f s = (case f (st_ctx s) (st_world s) of (w, ops, r) \<Rightarrow>
     (fold apply_op ops (s\<lparr>st_world := w\<rparr>), case r of None \<Rightarrow> Parked | Some x \<Rightarrow> Returns x))"

text \<open>A result that the code discards.\<close>

definition ignore_error :: "('w, unit) run \<Rightarrow> ('w, unit) run" where
  "ignore_error m s = (case m s of (s', Fails e) \<Rightarrow> (s', Returns ()) | (s', r) \<Rightarrow> (s', r))"

lemma bind_assoc: "bind (bind m f) g = bind m (\<lambda>x. bind (f x) g)"
  by (rule ext) (simp add: bind_def split: prod.split step.split)

lemma run_simps [simp]:
  "bind (ret x) f = f x"
  "bind (fail e) f = fail e"
  "bind m ret = m"
  "lift_result (Inl e) = fail e"
  "lift_result (Inr x) = ret x"
  by (auto simp: fun_eq_iff bind_def ret_def fail_def lift_result_def split: prod.split step.split)

section \<open>Growth of the shared state\<close>

text \<open>Cells are written once and tokens stay fired; identity never changes.\<close>

definition opt_le :: "'a option \<Rightarrow> 'a option \<Rightarrow> bool" where
  "opt_le a b \<longleftrightarrow> a = None \<or> b = a"

definition ctx_le :: "run_ctx \<Rightarrow> run_ctx \<Rightarrow> bool" where
  "ctx_le a b \<longleftrightarrow> cx_run_id b = cx_run_id a \<and> cx_subject b = cx_subject a
     \<and> opt_le (cx_session_id a) (cx_session_id b)
     \<and> opt_le (cx_model_override a) (cx_model_override b)
     \<and> opt_le (cx_effort_override a) (cx_effort_override b)
     \<and> opt_le (cx_cancel_reason a) (cx_cancel_reason b)
     \<and> cx_cancelled a \<le> cx_cancelled b"

definition state_le :: "'w run_state \<Rightarrow> 'w run_state \<Rightarrow> bool" where
  "state_le s t \<longleftrightarrow> ctx_le (st_ctx s) (st_ctx t) \<and> st_paused s \<le> st_paused t
     \<and> st_shutdown s \<le> st_shutdown t \<and> st_closed s \<le> st_closed t"

lemma opt_le_refl [simp]: "opt_le a a"
  by (simp add: opt_le_def)

lemma opt_le_trans: "opt_le a b \<Longrightarrow> opt_le b c \<Longrightarrow> opt_le a c"
  by (auto simp: opt_le_def)

lemma state_le_refl [simp]: "state_le s s"
  by (simp add: state_le_def ctx_le_def)

lemma state_le_trans: "state_le s t \<Longrightarrow> state_le t u \<Longrightarrow> state_le s u"
  unfolding state_le_def ctx_le_def by (auto intro: opt_le_trans)

lemma state_le_world [simp]: "state_le s (t\<lparr>st_world := w\<rparr>) = state_le s t"
  "state_le (s\<lparr>st_world := w\<rparr>) t = state_le s t"
  "state_le s (t\<lparr>st_trace := l\<rparr>) = state_le s t"
  "state_le (s\<lparr>st_trace := l\<rparr>) t = state_le s t"
  by (simp_all add: state_le_def)

lemma once_set_le: "opt_le a (fst (once_set v a))"
  by (simp add: once_set_def opt_le_def split: option.split)

lemma state_le_on_ctx: "ctx_le (st_ctx s) (f (st_ctx s)) \<Longrightarrow> state_le s (on_ctx f s)"
  by (simp add: state_le_def on_ctx_def)

lemma apply_op_le: "state_le s (apply_op c s)"
  by (cases c)
    (auto simp: once_set_le state_le_def on_ctx_def ctx_le_def with_cancel_def set_session_id_def
      set_session_model_override_def set_session_reasoning_effort_override_def
      set_cancel_reason_def case_prod_beta)

lemma apply_op_trace [simp]: "st_trace (apply_op c s) = st_trace s"
  by (cases c) (simp_all add: on_ctx_def)

lemma apply_ops: "state_le s (fold apply_op ops s) \<and> st_trace (fold apply_op ops s) = st_trace s"
proof (induction ops arbitrary: s)
  case (Cons c ops)
  then show ?case using apply_op_le state_le_trans by fastforce
qed simp

lemma invoke_le:
  "state_le s (fst (invoke f s))" "st_trace (fst (invoke f s)) = st_trace s"
  "snd (invoke f s) \<noteq> Fails e"
proof -
  obtain w ops r where f: "f (st_ctx s) (st_world s) = (w, ops, r)"
    by (metis prod_cases3)
  show "state_le s (fst (invoke f s))" "st_trace (fst (invoke f s)) = st_trace s"
    using apply_ops [of "s\<lparr>st_world := w\<rparr>" ops] by (simp_all add: invoke_def f)
  show "snd (invoke f s) \<noteq> Fails e"
    by (simp add: invoke_def f split: option.split)
qed

section \<open>Properties of traces\<close>

text \<open>A trace property \<open>ok x l\<close> relates the trace \<open>l\<close> a computation adds to the way \<open>x\<close> it ended.
  It is compositional when it holds of the empty trace and may be continued after a return;
  every property of that form carries over from the calls of the kernel to the run loop. The two
  errors raised only by the loop itself, the pause and the turn limit, are excluded from the
  empty case, so that they can be traced to their one source.\<close>

datatype exit = Exit_Returns | Exit_Fails kernel_error | Exit_Parked

fun exit_of :: "'a step \<Rightarrow> exit" where
  "exit_of (Returns x) = Exit_Returns"
| "exit_of (Fails e) = Exit_Fails e"
| "exit_of Parked = Exit_Parked"

fun loop_error :: "kernel_error \<Rightarrow> bool" where
  "loop_error KE_Paused = True"
| "loop_error (KE_MaxTurnsExceeded n) = True"
| "loop_error e = False"

fun loop_exit :: "exit \<Rightarrow> bool" where
  "loop_exit (Exit_Fails e) = loop_error e"
| "loop_exit x = False"

definition kept ::
  "(exit \<Rightarrow> obs list \<Rightarrow> bool) \<Rightarrow> 'w run_state \<Rightarrow> 'w run_state \<Rightarrow> exit \<Rightarrow> bool" where
  "kept ok s s' x \<longleftrightarrow> state_le s s' \<and> (x = Exit_Fails KE_Paused \<longrightarrow> st_paused s')
     \<and> (\<exists>l. st_trace s' = st_trace s @ l \<and> ok x l)"

definition keeps :: "(exit \<Rightarrow> obs list \<Rightarrow> bool) \<Rightarrow> ('w, 'a) run \<Rightarrow> bool" where
  "keeps ok m \<longleftrightarrow> (\<forall>s. kept ok s (fst (m s)) (exit_of (snd (m s))))"

lemma exit_of_paused [simp]: "exit_of r = Exit_Fails e \<longleftrightarrow> r = Fails e"
  by (cases r) auto

lemma exit_of_returns [simp]: "exit_of r = Exit_Returns \<longleftrightarrow> (\<exists>x. r = Returns x)"
  by (cases r) auto

lemma keepsI:
  assumes "\<And>s. state_le s (fst (m s))"
    and "\<And>s. snd (m s) = Fails KE_Paused \<Longrightarrow> st_paused (fst (m s))"
    and "\<And>s. \<exists>l. st_trace (fst (m s)) = st_trace s @ l \<and> ok (exit_of (snd (m s))) l"
  shows "keeps ok m"
  using assms by (simp add: keeps_def kept_def)

lemma keeps_pairI: "(\<And>s s' r. m s = (s', r) \<Longrightarrow> kept ok s s' (exit_of r)) \<Longrightarrow> keeps ok m"
  unfolding keeps_def by simp

lemma keeps_kept: "keeps ok m \<Longrightarrow> m s = (s', r) \<Longrightarrow> kept ok s s' (exit_of r)"
  unfolding keeps_def by (metis fst_conv snd_conv)

lemma keptD:
  assumes "kept ok s s' x"
  obtains l where "st_trace s' = st_trace s @ l" "ok x l" "state_le s s'"
    "x = Exit_Fails KE_Paused \<Longrightarrow> st_paused s'"
  using assms unfolding kept_def by blast

lemma keepsD:
  assumes "keeps ok m" "m s = (s', r)"
  obtains l where "st_trace s' = st_trace s @ l" "ok (exit_of r) l" "state_le s s'"
    "r = Fails KE_Paused \<Longrightarrow> st_paused s'"
  using keeps_kept [OF assms] unfolding kept_def by auto

locale trace_invariant =
  fixes ok :: "exit \<Rightarrow> obs list \<Rightarrow> bool"
  assumes ok_append: "ok Exit_Returns l \<Longrightarrow> ok x l' \<Longrightarrow> ok x (l @ l')"
    and ok_nil: "\<not> loop_exit x \<Longrightarrow> ok x []"
begin

lemma keeps_ret: "keeps ok (ret x)"
  by (rule keepsI) (auto simp: ret_def ok_nil)

lemma keeps_read: "keeps ok (read f)"
  by (rule keepsI) (auto simp: read_def ok_nil)

lemma keeps_fail: "\<not> loop_error e \<Longrightarrow> keeps ok (fail e)"
  by (rule keepsI) (auto simp: fail_def ok_nil)

lemma keeps_lift: "(\<And>e. r = Inl e \<Longrightarrow> \<not> loop_error e) \<Longrightarrow> keeps ok (lift_result r)"
  by (cases r) (simp_all add: keeps_ret keeps_fail)

lemma keeps_invoke: "keeps ok (invoke f)"
proof (rule keepsI)
  fix s
  have "\<not> loop_exit (exit_of (snd (invoke f s)))"
    using invoke_le(3) by (cases "snd (invoke f s)") auto
  then show "\<exists>l. st_trace (fst (invoke f s)) = st_trace s @ l \<and> ok (exit_of (snd (invoke f s))) l"
    using invoke_le(2) [of f s] by (auto intro: ok_nil)
qed (simp_all add: invoke_le)

lemma keeps_emit: "ok Exit_Returns [ob] \<Longrightarrow> keeps ok (emit ob)"
  by (rule keepsI) (auto simp: emit_def)

lemma kept_trans: "kept ok s t Exit_Returns \<Longrightarrow> kept ok t u x \<Longrightarrow> kept ok s u x"
  unfolding kept_def using ok_append state_le_trans by (metis append_assoc)

lemma keeps_bind:
  assumes m: "keeps ok m" and f: "\<And>x. keeps ok (f x)"
  shows "keeps ok (bind m f)"
proof (rule keeps_pairI)
  fix s s' r
  assume b: "bind m f s = (s', r)"
  obtain t q where t: "m s = (t, q)" by (cases "m s")
  note k = keeps_kept [OF m t]
  show "kept ok s s' (exit_of r)"
  proof (cases q)
    case (Returns x)
    with b t have "f x t = (s', r)" by (simp add: bind_def)
    with k Returns show ?thesis using keeps_kept [OF f] kept_trans by fastforce
  qed (use b t k in \<open>auto simp: bind_def\<close>)
qed

lemmas keeps_basic = keeps_ret keeps_read keeps_invoke

end

text \<open>The trivial property gives the frame of every computation: the shared state only grows.\<close>

interpretation frame: trace_invariant "\<lambda>_ _. True"
  by unfold_locales auto

end
