(* ===== verification/Hooks.thy ===== *)
theory Hooks
  imports Run_State
begin

text \<open>
  Hooks and the event channel: the \<open>Hook\<close> trait (\<open>hook/mod.rs\<close>), the chain that applies hooks in
  registration order (\<open>hook_chain.rs\<close>), and the emission of events through the hooks into the
  bounded channel of a run (\<open>run/stream/events.rs\<close>). A hook is a record of calls, one per
  callback of the trait the run loop uses.
\<close>

section \<open>The hook trait\<close>

datatype 'a decision = Continue | Replace 'a | Refuse string

record 'w hook =
  hk_on_session_start :: "run_ctx \<Rightarrow> ('w, unit decision) call"
  hk_on_user_prompt_submit :: "message list \<Rightarrow> run_ctx \<Rightarrow> ('w, message list decision) call"
  hk_before_llm :: "llm_request \<Rightarrow> run_ctx \<Rightarrow> ('w, llm_request decision) call"
  hk_after_llm :: "llm_request \<Rightarrow> llm_response \<Rightarrow> run_ctx \<Rightarrow> ('w, llm_response decision) call"
  hk_before_tool :: "tool_call \<Rightarrow> run_ctx \<Rightarrow> ('w, tool_call decision) call"
  hk_after_tool :: "tool_call \<Rightarrow> tool_result \<Rightarrow> run_ctx \<Rightarrow> ('w, tool_result decision) call"
  hk_on_message :: "message list \<Rightarrow> run_ctx \<Rightarrow> ('w, message list decision) call"
  hk_on_event :: "event \<Rightarrow> run_ctx \<Rightarrow> ('w, event decision) call"
  hk_pre_compact :: "message list \<Rightarrow> run_ctx \<Rightarrow> ('w, message list decision) call"
  hk_on_stop :: "outcome \<Rightarrow> run_ctx \<Rightarrow> ('w, unit) call"
  hk_on_notification :: "notification \<Rightarrow> run_ctx \<Rightarrow> ('w, unit decision) call"
  hk_on_error :: "kernel_error \<Rightarrow> run_ctx \<Rightarrow> ('w, unit) call"

text \<open>The default methods of the trait: every decision is \<open>Continue\<close>, terminal callbacks do
  nothing.\<close>

definition answer :: "'r \<Rightarrow> ('w, 'r) call" where
  "answer r w = (w, [], Some r)"

definition default_hook :: "'w hook" where
  "default_hook =
     \<lparr>hk_on_session_start = \<lambda>_. answer Continue,
      hk_on_user_prompt_submit = \<lambda>_ _. answer Continue,
      hk_before_llm = \<lambda>_ _. answer Continue,
      hk_after_llm = \<lambda>_ _ _. answer Continue,
      hk_before_tool = \<lambda>_ _. answer Continue,
      hk_after_tool = \<lambda>_ _ _. answer Continue,
      hk_on_message = \<lambda>_ _. answer Continue,
      hk_on_event = \<lambda>_ _. answer Continue,
      hk_pre_compact = \<lambda>_ _. answer Continue,
      hk_on_stop = \<lambda>_ _. answer (),
      hk_on_notification = \<lambda>_ _. answer Continue,
      hk_on_error = \<lambda>_ _. answer ()\<rparr>"

section \<open>The chain\<close>

text \<open>\<open>apply_chain\<close> threads a state through the hooks, \<open>apply_unit_chain\<close> only lets them refuse,
  and \<open>apply_terminal\<close> tells every hook.\<close>

fun apply_chain ::
  "('h \<Rightarrow> 'a \<Rightarrow> ('w, 'a decision) run) \<Rightarrow> 'h list \<Rightarrow> 'a \<Rightarrow> ('w, 'a) run" where
  "apply_chain f [] x = ret x"
| "apply_chain f (h # hs) x = bind (f h x) (\<lambda>d. case d of
       Continue \<Rightarrow> apply_chain f hs x
     | Replace y \<Rightarrow> apply_chain f hs y
     | Refuse reason \<Rightarrow> fail (KE_HookDenied reason))"

fun apply_unit_chain :: "('h \<Rightarrow> ('w, unit decision) run) \<Rightarrow> 'h list \<Rightarrow> ('w, unit) run" where
  "apply_unit_chain f [] = ret ()"
| "apply_unit_chain f (h # hs) = bind (f h) (\<lambda>d. case d of
       Refuse reason \<Rightarrow> fail (KE_HookDenied reason)
     | _ \<Rightarrow> apply_unit_chain f hs)"

fun apply_terminal :: "('h \<Rightarrow> ('w, unit) run) \<Rightarrow> 'h list \<Rightarrow> ('w, unit) run" where
  "apply_terminal f [] = ret ()"
| "apply_terminal f (h # hs) = bind (f h) (\<lambda>_. apply_terminal f hs)"

definition apply_on_session_start :: "'w hook list \<Rightarrow> ('w, unit) run" where
  "apply_on_session_start hs = apply_unit_chain (\<lambda>h. invoke (hk_on_session_start h)) hs"

definition apply_on_user_prompt_submit ::
  "'w hook list \<Rightarrow> message list \<Rightarrow> ('w, message list) run" where
  "apply_on_user_prompt_submit hs msgs =
     apply_chain (\<lambda>h x. invoke (hk_on_user_prompt_submit h x)) hs msgs"

definition apply_before_llm :: "'w hook list \<Rightarrow> llm_request \<Rightarrow> ('w, llm_request) run" where
  "apply_before_llm hs req = apply_chain (\<lambda>h x. invoke (hk_before_llm h x)) hs req"

definition apply_after_llm ::
  "'w hook list \<Rightarrow> llm_request \<Rightarrow> llm_response \<Rightarrow> ('w, llm_response) run" where
  "apply_after_llm hs req resp = apply_chain (\<lambda>h x. invoke (hk_after_llm h req x)) hs resp"

definition apply_before_tool :: "'w hook list \<Rightarrow> tool_call \<Rightarrow> ('w, tool_call) run" where
  "apply_before_tool hs c = apply_chain (\<lambda>h x. invoke (hk_before_tool h x)) hs c"

definition apply_after_tool ::
  "'w hook list \<Rightarrow> tool_call \<Rightarrow> tool_result \<Rightarrow> ('w, tool_result) run" where
  "apply_after_tool hs c r = apply_chain (\<lambda>h x. invoke (hk_after_tool h c x)) hs r"

definition apply_on_message :: "'w hook list \<Rightarrow> message list \<Rightarrow> ('w, message list) run" where
  "apply_on_message hs msgs = apply_chain (\<lambda>h x. invoke (hk_on_message h x)) hs msgs"

definition apply_on_event :: "'w hook list \<Rightarrow> event \<Rightarrow> ('w, event) run" where
  "apply_on_event hs ev = apply_chain (\<lambda>h x. invoke (hk_on_event h x)) hs ev"

text \<open>The loop of \<open>apply_pre_compact\<close> carries a flag: the log is replaced only if some hook did.\<close>

fun pre_compact_loop ::
  "'w hook list \<Rightarrow> message list \<Rightarrow> bool \<Rightarrow> ('w, message list option) run" where
  "pre_compact_loop [] msgs replaced = ret (if replaced then Some msgs else None)"
| "pre_compact_loop (h # hs) msgs replaced =
     bind (invoke (hk_pre_compact h msgs)) (\<lambda>d. case d of
         Continue \<Rightarrow> pre_compact_loop hs msgs replaced
       | Replace next \<Rightarrow> pre_compact_loop hs next True
       | Refuse reason \<Rightarrow> fail (KE_HookDenied reason))"

definition apply_pre_compact ::
  "'w hook list \<Rightarrow> message list \<Rightarrow> ('w, message list option) run" where
  "apply_pre_compact hs msgs = pre_compact_loop hs msgs False"

definition apply_on_notification :: "'w hook list \<Rightarrow> notification \<Rightarrow> ('w, unit) run" where
  "apply_on_notification hs note = apply_unit_chain (\<lambda>h. invoke (hk_on_notification h note)) hs"

text \<open>The terminal callbacks leave a trace: \<open>on_stop\<close> with the outcome and the cancel reason its
  observer can read, \<open>on_error\<close> with the error.\<close>

definition call_on_stop :: "outcome \<Rightarrow> 'w hook \<Rightarrow> ('w, unit) run" where
  "call_on_stop oc h = bind (read (cx_cancel_reason \<circ> st_ctx)) (\<lambda>reason.
     bind (emit (Ob_Stop oc reason)) (\<lambda>_. invoke (hk_on_stop h oc)))"

definition call_on_error :: "kernel_error \<Rightarrow> 'w hook \<Rightarrow> ('w, unit) run" where
  "call_on_error err h = bind (emit (Ob_Error err)) (\<lambda>_. invoke (hk_on_error h err))"

definition apply_on_stop :: "'w hook list \<Rightarrow> outcome \<Rightarrow> ('w, unit) run" where
  "apply_on_stop hs oc = apply_terminal (call_on_stop oc) hs"

definition apply_on_error :: "'w hook list \<Rightarrow> kernel_error \<Rightarrow> ('w, unit) run" where
  "apply_on_error hs err = apply_terminal (call_on_error err) hs"

section \<open>The event channel\<close>

text \<open>The sending half of the bounded channel: \<open>try_send\<close> answers at once, \<open>send\<close> waits for
  capacity. What they answer depends on the consumer.\<close>

datatype try_answer = Accepted | Full | Disconnected

record 'w sender =
  tx_try_send :: "stream_item \<Rightarrow> 'w \<Rightarrow> 'w \<times> try_answer"
  tx_send :: "stream_item \<Rightarrow> ('w, bool) call"

datatype delivery = Sent | DroppedFull | Closed

definition should_wait_for_stream_item :: "stream_item \<Rightarrow> bool" where
  "should_wait_for_stream_item item = (case item of
       Inr (Token _) \<Rightarrow> False | Inr (Reasoning _) \<Rightarrow> False | _ \<Rightarrow> True)"

definition try_send :: "'w sender \<Rightarrow> stream_item \<Rightarrow> ('w, try_answer) run" where
  "try_send tx item =
     invoke (\<lambda>_ w. case tx_try_send tx item w of (w', a) \<Rightarrow> (w', [], Some a))"

definition sent_item :: "stream_item \<Rightarrow> ('w, delivery) run" where
  "sent_item item = bind (emit (Ob_Sent item)) (\<lambda>_. ret Sent)"

definition send_stream_item :: "'w sender \<Rightarrow> stream_item \<Rightarrow> ('w, delivery) run" where
  "send_stream_item tx item = bind (try_send tx item) (\<lambda>a. case a of
       Accepted \<Rightarrow> sent_item item
     | Full \<Rightarrow>
         if should_wait_for_stream_item item then
           bind (invoke (\<lambda>_. tx_send tx item))
             (\<lambda>delivered. if delivered then sent_item item else ret Closed)
         else ret DroppedFull
     | Disconnected \<Rightarrow> ret Closed)"

definition prepare_event :: "'w hook list \<Rightarrow> event \<Rightarrow> ('w, event) run" where
  "prepare_event hs ev = bind (apply_on_event hs ev) (\<lambda>ev'.
     case ev' of
       Notification note \<Rightarrow> bind (apply_on_notification hs note) (\<lambda>_. ret ev')
     | _ \<Rightarrow> ret ev')"

definition emit_event :: "'w hook list \<Rightarrow> 'w sender \<Rightarrow> event \<Rightarrow> ('w, unit) run" where
  "emit_event hs tx ev = bind (prepare_event hs ev) (\<lambda>outgoing.
     bind (send_stream_item tx (Inr outgoing)) (\<lambda>d. case d of
         Closed \<Rightarrow> fail (KE_Internal ''stream receiver dropped'')
       | _ \<Rightarrow> ret ()))"

definition emit_completed ::
  "'w hook list \<Rightarrow> 'w sender \<Rightarrow> tool_call \<Rightarrow> tool_result \<Rightarrow> ('w, unit) run" where
  "emit_completed hs tx call result = emit_event hs tx (ToolCallCompleted call result)"

lemmas chain_defs = apply_on_session_start_def apply_on_user_prompt_submit_def
  apply_before_llm_def apply_after_llm_def apply_before_tool_def apply_after_tool_def
  apply_on_message_def apply_on_event_def apply_pre_compact_def apply_on_notification_def

section \<open>The chain is a pipeline\<close>

lemma apply_chain_append:
  "apply_chain f (hs @ hs') x = bind (apply_chain f hs x) (apply_chain f hs')"
proof (induction hs arbitrary: x)
  case (Cons h hs)
  have "bind (f h x) (\<lambda>d. case d of Continue \<Rightarrow> apply_chain f (hs @ hs') x
          | Replace y \<Rightarrow> apply_chain f (hs @ hs') y | Refuse r \<Rightarrow> fail (KE_HookDenied r))
      = bind (f h x) (\<lambda>d. bind (case d of Continue \<Rightarrow> apply_chain f hs x
          | Replace y \<Rightarrow> apply_chain f hs y | Refuse r \<Rightarrow> fail (KE_HookDenied r))
          (apply_chain f hs'))"
    by (rule arg_cong [where f = "bind (f h x)"]) (auto simp: Cons.IH split: decision.split)
  then show ?case by (simp add: bind_assoc)
qed simp

section \<open>Trace properties of hooks and events\<close>

context trace_invariant
begin

lemma keeps_apply_chain:
  assumes "\<And>h x. keeps ok (f h x)"
  shows "keeps ok (apply_chain f hs x)"
  by (induction hs arbitrary: x)
     (auto intro!: keeps_bind keeps_ret keeps_fail assms split: decision.split)

lemma keeps_apply_unit_chain:
  assumes "\<And>h. keeps ok (f h)"
  shows "keeps ok (apply_unit_chain f hs)"
  by (induction hs) (auto intro!: keeps_bind keeps_ret keeps_fail assms split: decision.split)

lemma keeps_pre_compact: "keeps ok (pre_compact_loop hs msgs b)"
  by (induction hs arbitrary: msgs b)
     (auto intro!: keeps_bind keeps_ret keeps_fail keeps_invoke split: decision.split)

lemma keeps_hooks:
  "keeps ok (apply_on_session_start hs)"
  "keeps ok (apply_on_user_prompt_submit hs msgs)"
  "keeps ok (apply_before_llm hs req)"
  "keeps ok (apply_after_llm hs req resp)"
  "keeps ok (apply_before_tool hs c)"
  "keeps ok (apply_after_tool hs c r)"
  "keeps ok (apply_on_message hs msgs)"
  "keeps ok (apply_on_event hs ev)"
  "keeps ok (apply_pre_compact hs msgs)"
  "keeps ok (apply_on_notification hs note)"
  by (simp_all add: chain_defs keeps_apply_chain keeps_apply_unit_chain keeps_pre_compact
      keeps_invoke)

lemma keeps_prepare_event: "keeps ok (prepare_event hs ev)"
  unfolding prepare_event_def
  by (auto intro!: keeps_bind keeps_hooks keeps_ret split: event.split)

lemma keeps_send:
  assumes "ok Exit_Returns [Ob_Sent item]"
  shows "keeps ok (send_stream_item tx item)"
  unfolding send_stream_item_def try_send_def sent_item_def
  by (auto intro!: keeps_bind keeps_ret keeps_invoke keeps_emit assms split: try_answer.split)

end

locale event_invariant = trace_invariant +
  assumes ok_sent: "ok Exit_Returns [Ob_Sent (Inr ev)]"
begin

lemma keeps_emit_event: "keeps ok (emit_event hs tx ev)"
  unfolding emit_event_def
  by (auto intro!: keeps_bind keeps_prepare_event keeps_send ok_sent keeps_ret keeps_fail
      split: delivery.split)

end

text \<open>Emission only ever adds delivered events, so discarding its error keeps every trace
  property.\<close>

fun is_sent_event :: "obs \<Rightarrow> bool" where
  "is_sent_event (Ob_Sent (Inr ev)) = True"
| "is_sent_event ob = False"

interpretation sent_events: event_invariant "\<lambda>_ l. list_all is_sent_event l"
  by unfold_locales auto

context event_invariant
begin

lemma ok_sent_events: "list_all is_sent_event l \<Longrightarrow> ok Exit_Returns l"
proof (induction l)
  case (Cons ob l)
  then obtain ev where "ob = Ob_Sent (Inr ev)" by (cases ob rule: is_sent_event.cases) auto
  with Cons show ?case using ok_append [OF ok_sent, of Exit_Returns l ev] by simp
qed (simp add: ok_nil)

lemma keeps_ignored_event: "keeps ok (ignore_error (emit_event hs tx ev))"
proof (rule keeps_pairI)
  fix s s' r
  assume b: "ignore_error (emit_event hs tx ev) s = (s', r)"
  obtain t q where t: "emit_event hs tx ev s = (t, q)" by (cases "emit_event hs tx ev s")
  have k: "keeps ok (emit_event hs tx ev)" by (rule keeps_emit_event)
  note kq = keeps_kept [OF k t]
  obtain l where "st_trace t = st_trace s @ l" "list_all is_sent_event l"
    using sent_events.keeps_emit_event t by (rule keepsD) blast
  with kq have "kept ok s t Exit_Returns"
    by (auto simp: kept_def ok_sent_events)
  with b t kq show "kept ok s s' (exit_of r)" by (cases q) (auto simp: ignore_error_def)
qed

end

section \<open>Properties\<close>

lemma send_cases:
  assumes "send_stream_item tx item s = (s', r)"
  shows "state_le s s' \<and>
    (r = Returns Sent \<and> st_trace s' = st_trace s @ [Ob_Sent item]
     \<or> r = Returns DroppedFull \<and> st_trace s' = st_trace s \<and> \<not> should_wait_for_stream_item item
     \<or> r = Returns Closed \<and> st_trace s' = st_trace s
     \<or> r = Parked \<and> st_trace s' = st_trace s)"
proof -
  obtain s1 a where s1: "try_send tx item s = (s1, Returns a)" "st_trace s1 = st_trace s" "state_le s s1"
    by (cases "tx_try_send tx item (st_world s)") (simp add: try_send_def invoke_def)
  obtain s2 r2 where w: "invoke (\<lambda>_. tx_send tx item) s1 = (s2, r2)"
    by (metis surjective_pairing)
  have "st_trace s2 = st_trace s1" "\<And>e. r2 \<noteq> Fails e" "state_le s1 s2"
    using invoke_le [where f = "\<lambda>_. tx_send tx item" and s = s1] by (simp_all add: w)
  moreover from this(3) have "state_le s s2" using s1(3) state_le_trans by blast
  ultimately show ?thesis
    using assms s1 w
    by (cases a; cases r2)
      (auto simp: send_stream_item_def sent_item_def bind_def ret_def emit_def split: if_splits)
qed

text \<open>No event is lost silently. Sending an item either delivers it, as the next item of the
  stream, or reports that the receiver is gone, or drops it because the channel is full - and only
  token and reasoning deltas are ever dropped.\<close>

theorem send_loses_only_deltas:
  "case send_stream_item tx item s of
     (s', Returns Sent) \<Rightarrow> st_trace s' = st_trace s @ [Ob_Sent item]
   | (s', Returns DroppedFull) \<Rightarrow>
       st_trace s' = st_trace s \<and> item \<in> range (Inr \<circ> Token) \<union> range (Inr \<circ> Reasoning)
   | (s', Returns Closed) \<Rightarrow> st_trace s' = st_trace s
   | (s', Parked) \<Rightarrow> st_trace s' = st_trace s
   | (s', Fails e) \<Rightarrow> False"
proof -
  have "item \<in> range (Inr \<circ> Token) \<union> range (Inr \<circ> Reasoning)"
    if "\<not> should_wait_for_stream_item item"
    using that by (auto simp: should_wait_for_stream_item_def split: sum.splits event.splits)
  moreover obtain s' r where s': "send_stream_item tx item s = (s', r)"
    by (cases "send_stream_item tx item s")
  ultimately show ?thesis using send_cases [OF s'] by auto
qed

end
