(* ===== verification/Fallback.thy ===== *)
theory Fallback
  imports Hooks
begin

text \<open>
  Providers as the kernel sees them (\<open>provider.rs\<close>), the capability checks before a call
  (\<open>run/tools_check.rs\<close>, \<open>run/vision_check.rs\<close>, \<open>run/audio_check.rs\<close>, \<open>run/web_search_check.rs\<close>)
  and the routing of one LLM call over its chain of attempts (\<open>run/fallback.rs\<close>).

  A provider is its catalog entry with its capabilities, its tool limit and the call that opens a
  stream; an open stream is the list of the \<open>next\<close> calls up to its end, each of which answers with
  an event or an error, or never answers. The bodies of the providers are outside this library.
\<close>

section \<open>Providers\<close>

record provider_caps =
  pv_streaming :: bool
  pv_tools :: bool
  pv_vision :: bool
  pv_audio :: bool
  pv_system_prompt :: bool
  pv_thinking :: bool
  pv_prompt_cache :: bool
  pv_web_search :: bool
  pv_max_input_tokens :: nat
  pv_max_output_tokens :: nat

datatype provider_event =
    TextDelta string
  | ReasoningDelta string
  | Tool_Use tool_call
  | Usage usage
  | Stop stop_reason
  | Server_Tool_Result string string json "citation list"

type_synonym 'w event_stream = "('w, provider_error + provider_event) call list"

record 'w provider = provider_catalog +
  pv_caps :: provider_caps
  pv_tool_limit :: "nat option"
  pv_stream :: "llm_request \<Rightarrow> run_ctx \<Rightarrow> ('w, provider_error + 'w event_stream) call"

text \<open>The default \<open>stream\<close> of the trait wraps a complete response.\<close>

definition synthesize_events :: "llm_response \<Rightarrow> (provider_error + provider_event) list" where
  "synthesize_events resp =
     (if rs_text resp = [] then [] else [Inr (TextDelta (rs_text resp))])
     @ map (\<lambda>c. Inr (Tool_Use c)) (rs_tool_calls resp)
     @ [Inr (Usage (rs_usage resp)), Inr (Stop (rs_stop_reason resp))]"

definition default_stream ::
  "(llm_request \<Rightarrow> run_ctx \<Rightarrow> ('w, provider_error + llm_response) call)
   \<Rightarrow> llm_request \<Rightarrow> run_ctx \<Rightarrow> ('w, provider_error + 'w event_stream) call" where
  "default_stream complete_call req ctx w = (case complete_call req ctx w of (w', ops, r) \<Rightarrow>
     (w', ops, map_option (\<lambda>r. case r of
        Inl e \<Rightarrow> Inl e | Inr resp \<Rightarrow> Inr (map answer (synthesize_events resp))) r))"

section \<open>Capability checks\<close>

definition check_tools_capability ::
  "llm_request \<Rightarrow> provider_caps \<Rightarrow> model_caps \<Rightarrow> string \<Rightarrow> string \<Rightarrow> provider_error + unit" where
  "check_tools_capability req pc mc p m =
     (if rq_tools req = [] then Inr ()
      else if pv_tools pc \<and> mc_supports_tools mc then Inr ()
      else Inl (PE_ToolsUnsupported p m))"

definition is_block :: "string \<Rightarrow> json \<Rightarrow> bool" where
  "is_block knd b \<longleftrightarrow> Option.bind (json_get ''type'' b) as_str = Some knd"

definition message_contains :: "string \<Rightarrow> json \<Rightarrow> bool" where
  "message_contains knd m \<longleftrightarrow>
     is_some_and (list_ex (is_block knd)) (Option.bind (json_get ''content'' m) as_array)"

definition contains_image :: "json list \<Rightarrow> bool" where
  "contains_image msgs \<longleftrightarrow> list_ex (message_contains ''image'') msgs"

definition contains_audio :: "json list \<Rightarrow> bool" where
  "contains_audio msgs \<longleftrightarrow> list_ex (message_contains ''audio'') msgs"

definition model_supports_vision :: "llm_request \<Rightarrow> string \<Rightarrow> registry \<Rightarrow> bool" where
  "model_supports_vision req p r \<longleftrightarrow>
     is_some_and (\<lambda>info. mc_supports_vision (mi_caps info))
       (get_target r (model_target_new p (rq_model req)))"

definition check_vision_capability ::
  "llm_request \<Rightarrow> provider_caps \<Rightarrow> string \<Rightarrow> registry \<Rightarrow> provider_error + unit" where
  "check_vision_capability req pc p r =
     (if \<not> contains_image (rq_messages req) then Inr ()
      else if pv_vision pc \<and> model_supports_vision req p r then Inr ()
      else Inl (PE_VisionUnsupported p (rq_model req)))"

definition check_audio_capability ::
  "llm_request \<Rightarrow> provider_caps \<Rightarrow> model_caps \<Rightarrow> string \<Rightarrow> string \<Rightarrow> provider_error + unit" where
  "check_audio_capability req pc mc p m =
     (if \<not> contains_audio (rq_messages req) then Inr ()
      else if pv_audio pc \<and> mc_supports_audio mc then Inr ()
      else Inl (PE_AudioUnsupported p m))"

definition check_web_search_capability ::
  "llm_request \<Rightarrow> provider_caps \<Rightarrow> model_caps \<Rightarrow> string \<Rightarrow> string \<Rightarrow> provider_error + unit" where
  "check_web_search_capability req pc mc p m =
     (if \<not> ws_enabled (rq_web_search req) then Inr ()
      else if pv_web_search pc \<and> mc_supports_web_search mc then Inr ()
      else Inl (PE_WebSearchUnsupported p m))"

definition check_reasoning_effort_capability ::
  "llm_request \<Rightarrow> model_caps \<Rightarrow> string \<Rightarrow> string \<Rightarrow> provider_error + unit" where
  "check_reasoning_effort_capability req mc p m =
     (if rq_reasoning_effort req \<noteq> None \<and> mc_reasoning_effort mc = None
      then Inl (PE_ReasoningEffortUnsupported p m) else Inr ())"

definition max_advertised_tools :: nat where
  "max_advertised_tools = 64"

definition check_tool_advertise_limit :: "'w provider \<Rightarrow> nat \<Rightarrow> kernel_error + unit" where
  "check_tool_advertise_limit p count =
     (let max_tools = unwrap_or max_advertised_tools (pv_tool_limit p)
      in if max_tools < count then Inl (KE_TooManyTools count max_tools) else Inr ())"

section \<open>Which errors move on to the next attempt\<close>

definition long_rate_limit_secs :: nat where
  "long_rate_limit_secs = 30"

definition rate_limit_should_fallback :: "nat option \<Rightarrow> bool" where
  "rate_limit_should_fallback retry =
     (case retry of Some secs \<Rightarrow> secs < long_rate_limit_secs | None \<Rightarrow> True)"

definition should_fallback_open_stream :: "provider_error \<Rightarrow> bool" where
  "should_fallback_open_stream err = (case err of
       PE_RateLimited retry \<Rightarrow> rate_limit_should_fallback retry
     | PE_Api st _ retry \<Rightarrow>
         if st = 429 then rate_limit_should_fallback retry
         else st = 408 \<or> 500 \<le> st \<and> st \<le> 599
     | PE_RetryableStream _ \<Rightarrow> True
     | PE_Transport _ \<Rightarrow> True
     | PE_Timeout \<Rightarrow> True
     | PE_Other _ \<Rightarrow> True
     | PE_Auth _ \<Rightarrow> False
     | PE_MalformedResponse _ \<Rightarrow> False
     | PE_ModelDiscovery _ \<Rightarrow> False
     | PE_ToolsUnsupported _ _ \<Rightarrow> False
     | PE_VisionUnsupported _ _ \<Rightarrow> False
     | PE_AudioUnsupported _ _ \<Rightarrow> False
     | PE_WebSearchUnsupported _ _ \<Rightarrow> False
     | PE_ReasoningEffortUnsupported _ _ \<Rightarrow> False
     | PE_Cancelled \<Rightarrow> False)"

definition should_fallback_pump :: "provider_error \<Rightarrow> bool" where
  "should_fallback_pump err = (case err of PE_RetryableStream _ \<Rightarrow> True | _ \<Rightarrow> False)"

definition should_try_next_open_stream :: "provider_error \<Rightarrow> nat \<Rightarrow> nat \<Rightarrow> bool" where
  "should_try_next_open_stream err idx n \<longleftrightarrow> idx + 1 < n \<and> should_fallback_open_stream err"

definition should_try_next_pump :: "provider_error \<Rightarrow> nat \<Rightarrow> nat \<Rightarrow> bool" where
  "should_try_next_pump err idx n \<longleftrightarrow> idx + 1 < n \<and> should_fallback_pump err"

definition attempt_kind_for_index :: "nat \<Rightarrow> attempt_kind" where
  "attempt_kind_for_index idx = (if idx = 0 then Primary else Fallback)"

section \<open>The chain of attempts\<close>

datatype effort_source = ES_ModelDefault | ES_GlobalOverride | ES_SessionOverride | ES_Explicit

definition effort_source_as_str :: "effort_source \<Rightarrow> string" where
  "effort_source_as_str es = (case es of
       ES_ModelDefault \<Rightarrow> ''model-default'' | ES_GlobalOverride \<Rightarrow> ''global-override''
     | ES_SessionOverride \<Rightarrow> ''session-override'' | ES_Explicit \<Rightarrow> ''explicit-arg'')"

record resolved_effort =
  re_effort :: "reasoning_effort option"
  re_source :: effort_source

record 'w fallback_env =
  fe_providers :: "'w provider list"
  fe_registry :: registry
  fe_base :: llm_request
  fe_attempts :: "resolved_model list"
  fe_model_source :: resolved_source
  fe_effort_source :: effort_source
  fe_hooks :: "'w hook list"
  fe_stream_tx :: "'w sender option"

record 'w opened_stream =
  op_request :: llm_request
  op_stream :: "'w event_stream"
  op_attempt_idx :: nat
  op_current_model :: resolved_with_source
  op_current_effort :: resolved_effort
  op_effort_source :: effort_source

definition current_effort_for_attempt ::
  "llm_request \<Rightarrow> resolved_model \<Rightarrow> effort_source \<Rightarrow> resolved_effort" where
  "current_effort_for_attempt req attempt resolved_source =
     \<lparr>re_effort = rq_reasoning_effort req,
      re_source = if rq_reasoning_effort req = None
                     \<and> mc_reasoning_effort (mi_caps (rm_info attempt)) = None
                  then ES_ModelDefault else resolved_source\<rparr>"

definition preflight_attempt ::
  "'w fallback_env \<Rightarrow> resolved_model \<Rightarrow> attempt_kind \<Rightarrow> kernel_error + 'w provider \<times> llm_request"
where
  "preflight_attempt env attempt knd =
     (case target_provider (rm_target attempt) of
        None \<Rightarrow> Inl (KE_Internal ''resolved model target is unqualified'')
      | Some pname \<Rightarrow>
          and_then (provider_named (fe_providers env) pname) (\<lambda>p.
            let req = request_for_attempt (fe_base env) attempt knd;
                caps = mi_caps (rm_info attempt)
            in and_then (check_tool_advertise_limit p (length (rq_tools req))) (\<lambda>_.
               and_then (map_err KE_Provider
                 (and_then (check_tools_capability req (pv_caps p) caps (pc_name p) (rq_model req)) (\<lambda>_.
                  and_then (check_vision_capability req (pv_caps p) (pc_name p) (fe_registry env)) (\<lambda>_.
                  and_then (check_audio_capability req (pv_caps p) caps (pc_name p) (rq_model req)) (\<lambda>_.
                  and_then (check_web_search_capability req (pv_caps p) caps (pc_name p) (rq_model req)) (\<lambda>_.
                  check_reasoning_effort_capability req caps (pc_name p) (rq_model req)))))))
                 (\<lambda>_. Inr (p, req)))))"

definition emit_attempt_failed ::
  "'w fallback_env \<Rightarrow> nat \<Rightarrow> string \<Rightarrow> string \<Rightarrow> provider_error \<Rightarrow> bool \<Rightarrow> ('w, unit) run" where
  "emit_attempt_failed env idx p m err will_fallback = (case fe_stream_tx env of
       None \<Rightarrow> ret ()
     | Some tx \<Rightarrow> ignore_error (emit_event (fe_hooks env) tx
         (AttemptFailed idx (length (fe_attempts env)) p m (attempt_error_class_from err)
            (show_provider_error err) will_fallback)))"

definition opened_for ::
  "'w fallback_env \<Rightarrow> nat \<Rightarrow> resolved_model \<Rightarrow> llm_request \<Rightarrow> 'w event_stream \<Rightarrow> 'w opened_stream"
where
  "opened_for env idx attempt req stream =
     \<lparr>op_request = req, op_stream = stream, op_attempt_idx = idx,
      op_current_model = \<lparr>rws_info = rm_info attempt, rws_source = fe_model_source env\<rparr>,
      op_current_effort = current_effort_for_attempt req attempt (fe_effort_source env),
      op_effort_source = fe_effort_source env\<rparr>"

definition call_stream ::
  "'w provider \<Rightarrow> llm_request \<Rightarrow> ('w, provider_error + 'w event_stream) run" where
  "call_stream p req = bind (emit (Ob_Stream (pc_name p) (rq_model req))) (\<lambda>_.
     bind (invoke (pv_stream p req)) (\<lambda>r. case r of
         Inl err \<Rightarrow> bind (emit (Ob_Stream_Error err)) (\<lambda>_. ret r)
       | Inr _ \<Rightarrow> ret r))"

fun open_loop ::
  "'w fallback_env \<Rightarrow> (nat \<times> resolved_model) list \<Rightarrow> ('w, 'w opened_stream) run" where
  "open_loop env [] = fail (KE_Internal ''fallback chain exhausted'')"
| "open_loop env ((idx, attempt) # rest) =
     bind (lift_result (preflight_attempt env attempt (attempt_kind_for_index idx))) (\<lambda>(p, req).
     bind (call_stream p req) (\<lambda>r. case r of
         Inr stream \<Rightarrow> ret (opened_for env idx attempt req stream)
       | Inl err \<Rightarrow>
           let will_fallback =
                 should_try_next_open_stream err idx (length (fe_attempts env))
           in bind (emit_attempt_failed env idx (pc_name p) (rq_model req) err will_fallback) (\<lambda>_.
              if \<not> will_fallback then fail (KE_Provider err) else open_loop env rest)))"

definition open_stream_from :: "'w fallback_env \<Rightarrow> nat \<Rightarrow> ('w, 'w opened_stream) run" where
  "open_stream_from env start = open_loop env (drop start (enumerate 0 (fe_attempts env)))"

definition open_stream_with_fallbacks :: "'w fallback_env \<Rightarrow> ('w, 'w opened_stream) run" where
  "open_stream_with_fallbacks env = open_stream_from env 0"

definition retry_pump_with_fallbacks ::
  "'w fallback_env \<Rightarrow> nat \<Rightarrow> provider_error \<Rightarrow> ('w, 'w opened_stream) run" where
  "retry_pump_with_fallbacks env failed_idx err =
     (let will_fallback = should_try_next_pump err failed_idx (length (fe_attempts env));
          failing = list_get (fe_attempts env) failed_idx;
          m = (case failing of None \<Rightarrow> rq_model (fe_base env)
               | Some a \<Rightarrow> target_model (rm_target a));
          p = unwrap_or ''unknown'' (Option.bind failing (\<lambda>a. target_provider (rm_target a)))
      in bind (emit_attempt_failed env failed_idx p m err will_fallback) (\<lambda>_.
         if \<not> will_fallback then fail (KE_Provider err)
         else open_stream_from env (failed_idx + 1)))"

section \<open>Trace properties of the chain\<close>

locale provider_invariant = event_invariant +
  assumes ok_stream: "ok Exit_Returns [Ob_Stream p m]"
    and ok_stream_error: "ok Exit_Returns [Ob_Stream_Error err]"
begin

lemma keeps_emit_attempt_failed: "keeps ok (emit_attempt_failed env idx p m err b)"
  unfolding emit_attempt_failed_def
  by (auto intro: keeps_ret keeps_ignored_event split: option.split)

lemma keeps_call_stream: "keeps ok (call_stream p req)"
  unfolding call_stream_def
  by (auto intro!: keeps_bind keeps_emit keeps_invoke keeps_ret ok_stream ok_stream_error
      split: sum.split)

lemma preflight_error: "preflight_attempt env a k = Inl e \<Longrightarrow> \<not> loop_error e"
  by (auto simp: preflight_attempt_def provider_named_def check_tool_advertise_limit_def
      Let_def and_then_Inl map_err_def split: option.splits if_splits sum.splits)

lemma keeps_open_loop: "keeps ok (open_loop env xs)"
proof (induction xs rule: open_loop.induct)
  case (2 env idx attempt rest)
  show ?case
    by (auto simp: Let_def intro!: keeps_bind keeps_lift keeps_call_stream keeps_ret keeps_fail
        keeps_emit_attempt_failed 2 dest: preflight_error split: sum.split)
qed (simp add: keeps_fail)

lemma keeps_open_stream_from: "keeps ok (open_stream_from env start)"
  by (simp add: open_stream_from_def keeps_open_loop)

lemma keeps_retry: "keeps ok (retry_pump_with_fallbacks env idx err)"
  unfolding retry_pump_with_fallbacks_def Let_def
  by (auto intro!: keeps_bind keeps_emit_attempt_failed keeps_fail keeps_open_stream_from)

end

section \<open>The order of the attempts\<close>

fun is_chain_obs :: "obs \<Rightarrow> bool" where
  "is_chain_obs (Ob_Stream p m) = True"
| "is_chain_obs (Ob_Stream_Error e) = True"
| "is_chain_obs ob = False"

definition attempt_call :: "resolved_model \<Rightarrow> obs" where
  "attempt_call a = Ob_Stream (unwrap_or [] (target_provider (rm_target a)))
     (target_model (rm_target a))"

text \<open>What the chain leaves behind when the attempts fail with the given errors.\<close>

definition failed_calls :: "resolved_model list \<Rightarrow> provider_error list \<Rightarrow> obs list" where
  "failed_calls as es = concat (map2 (\<lambda>a e. [attempt_call a, Ob_Stream_Error e]) as es)"

interpretation no_calls: event_invariant "\<lambda>_ l. filter is_chain_obs l = []"
  by unfold_locales auto

lemma emit_attempt_failed_quiet:
  "\<exists>l. st_trace (fst (emit_attempt_failed env i p m e b s)) = st_trace s @ l
       \<and> filter is_chain_obs l = []
       \<and> snd (emit_attempt_failed env i p m e b s) \<in> {Returns (), Parked}"
proof -
  have "\<exists>l. st_trace (fst (ignore_error (emit_event hs tx ev) s)) = st_trace s @ l
      \<and> filter is_chain_obs l = [] \<and> snd (ignore_error (emit_event hs tx ev) s) \<in> {Returns (), Parked}"
    for hs :: "'a hook list" and tx ev
  proof (cases "emit_event hs tx ev s")
    case (Pair t r')
    obtain l where "st_trace t = st_trace s @ l" "filter is_chain_obs l = []"
      using no_calls.keeps_emit_event Pair by (rule keepsD) blast
    with Pair show ?thesis by (cases r') (auto simp: ignore_error_def)
  qed
  then show ?thesis
    by (cases "fe_stream_tx env") (simp_all add: emit_attempt_failed_def ret_def)
qed

lemma preflight_names:
  assumes "preflight_attempt env a k = Inr (p, req)"
  shows "attempt_call a = Ob_Stream (pc_name p) (rq_model req)"
proof -
  from assms obtain n where n: "target_provider (rm_target a) = Some n"
    by (auto simp: preflight_attempt_def split: option.splits)
  with assms have "provider_named (fe_providers env) n = Inr p"
    "req = request_for_attempt (fe_base env) a k"
    by (auto simp: preflight_attempt_def and_then_Inr Let_def)
  then show ?thesis
    using n by (auto simp: attempt_call_def request_for_attempt_def Let_def provider_named_def
        find_Some_iff split: option.splits)
qed

lemma call_stream_trace:
  "\<exists>l. st_trace (fst (call_stream p req s)) = st_trace s @ l
     \<and> (case snd (call_stream p req s) of
          Returns (Inl e) \<Rightarrow> l = [Ob_Stream (pc_name p) (rq_model req), Ob_Stream_Error e]
        | Fails e \<Rightarrow> False
        | _ \<Rightarrow> l = [Ob_Stream (pc_name p) (rq_model req)])"
proof -
  define t where "t = s\<lparr>st_trace := st_trace s @ [Ob_Stream (pc_name p) (rq_model req)]\<rparr>"
  obtain u r where u: "invoke (pv_stream p req) t = (u, r)" by (cases "invoke (pv_stream p req) t")
  have "st_trace u = st_trace t" "\<And>e. r \<noteq> Fails e"
    using invoke_le(2,3) [where f = "pv_stream p req" and s = t] by (simp_all add: u)
  then show ?thesis
    using u by (cases r) (auto simp: call_stream_def emit_def bind_def ret_def t_def split: sum.split)
qed

text \<open>The shape of one walk over the chain \<open>xs\<close>: the attempts before number \<open>length es\<close> opened
  with the errors \<open>es\<close>, each of which moves on; then one opened, or failed for good, or did not
  pass its checks, or none was left.\<close>

definition chain_end ::
  "'w fallback_env \<Rightarrow> (nat \<times> resolved_model) list \<Rightarrow> provider_error list \<Rightarrow> obs list
   \<Rightarrow> 'w opened_stream step \<Rightarrow> bool" where
  "chain_end env xs es l r =
     (case r of
        Returns op \<Rightarrow> length es < length xs \<and> op_attempt_idx op = fst (xs ! length es)
          \<and> filter is_chain_obs l
              = failed_calls (map snd xs) es @ [attempt_call (snd (xs ! length es))]
      | Fails e \<Rightarrow>
          (\<exists>err. e = KE_Provider err \<and> length es < length xs
             \<and> should_try_next_open_stream err (fst (xs ! length es))
                 (length (fe_attempts env)) = False
             \<and> filter is_chain_obs l = failed_calls (map snd xs) (es @ [err]))
          \<or> (filter is_chain_obs l = failed_calls (map snd xs) es
             \<and> (if length es < length xs
                then preflight_attempt env (snd (xs ! length es))
                       (attempt_kind_for_index (fst (xs ! length es))) = Inl e
                else e = KE_Internal ''fallback chain exhausted''))
      | Parked \<Rightarrow> True)"

definition moves_on ::
  "'w fallback_env \<Rightarrow> (nat \<times> resolved_model) list \<Rightarrow> provider_error list \<Rightarrow> bool" where
  "moves_on env xs es \<longleftrightarrow> length es \<le> length xs
     \<and> list_all2 (\<lambda>x e. should_try_next_open_stream e (fst x) (length (fe_attempts env)))
         (take (length es) xs) es"

lemma chain_failover:
  assumes "should_try_next_open_stream err idx (length (fe_attempts env))"
    and "filter is_chain_obs l1 = [attempt_call a, Ob_Stream_Error err]"
    and "moves_on env xs es" "chain_end env xs es l r"
  shows "moves_on env ((idx, a) # xs) (err # es)"
    and "chain_end env ((idx, a) # xs) (err # es) (l1 @ l) r"
proof -
  show "moves_on env ((idx, a) # xs) (err # es)"
    using assms(1,3) by (simp add: moves_on_def)
  show "chain_end env ((idx, a) # xs) (err # es) (l1 @ l) r"
    using assms(2,4)
    by (cases r) (auto simp: chain_end_def failed_calls_def split: if_splits)
qed

lemma call_stream_cases:
  assumes "preflight_attempt env a k = Inr (p, req)"
  obtains (parked) s' l where "call_stream p req s = (s', Parked)" "st_trace s' = st_trace s @ l"
  | (opened) s' l stream where "call_stream p req s = (s', Returns (Inr stream))"
      "st_trace s' = st_trace s @ l" "filter is_chain_obs l = [attempt_call a]"
  | (failed) s' l err where "call_stream p req s = (s', Returns (Inl err))"
      "st_trace s' = st_trace s @ l"
      "filter is_chain_obs l = [attempt_call a, Ob_Stream_Error err]"
proof (cases "call_stream p req s")
  case (Pair s' r)
  obtain l where l: "st_trace s' = st_trace s @ l" "case r of
        Returns (Inl e) \<Rightarrow> l = [attempt_call a, Ob_Stream_Error e]
      | Fails e \<Rightarrow> False | _ \<Rightarrow> l = [attempt_call a]"
    using call_stream_trace [of p req s, folded preflight_names [OF assms]] Pair by auto
  have quiet: "is_chain_obs (attempt_call a)" by (simp add: attempt_call_def)
  show ?thesis
  proof (cases r)
    case (Returns res)
    with l quiet Pair that(2,3) show ?thesis by (cases res) auto
  qed (use l Pair that(1) in auto)
qed

lemma open_loop_order:
  "\<exists>l es. st_trace (fst (open_loop env xs s)) = st_trace s @ l
     \<and> moves_on env xs es \<and> chain_end env xs es l (snd (open_loop env xs s))"
proof (induction xs arbitrary: s)
  case Nil
  show ?case
    by (rule exI [of _ "[]"], rule exI [of _ "[]"])
      (simp add: fail_def failed_calls_def moves_on_def chain_end_def)
next
  case (Cons x xs)
  obtain idx a where x: "x = (idx, a)" by (cases x)
  have nil: "moves_on env (x # xs) []" by (simp add: moves_on_def)
  show ?case
  proof (cases "preflight_attempt env a (attempt_kind_for_index idx)")
    case (Inl e)
    then show ?thesis
      by (intro exI [of _ "[]"]) (simp add: x fail_def failed_calls_def moves_on_def chain_end_def)
  next
    case (Inr pr)
    obtain p req where pr: "pr = (p, req)" by (cases pr)
    note pre = Inr [unfolded pr]
    from pre show ?thesis
    proof (cases rule: call_stream_cases [where s = s])
      case (parked s' l)
      with nil show ?thesis
        by (intro exI [of _ l] exI [of _ "[]"]) (simp add: x pre bind_def chain_end_def)
    next
      case (opened s' l stream)
      with nil show ?thesis
        by (intro exI [of _ l] exI [of _ "[]"])
          (simp add: x pre bind_def ret_def opened_for_def failed_calls_def chain_end_def)
    next
      case (failed s1 l1 err)
      define wf where "wf = should_try_next_open_stream err idx (length (fe_attempts env))"
      obtain s2 r2 where s2: "emit_attempt_failed env idx (pc_name p) (rq_model req) err wf s1 = (s2, r2)"
        by (cases "emit_attempt_failed env idx (pc_name p) (rq_model req) err wf s1")
      obtain l2 where l2: "st_trace s2 = st_trace s1 @ l2" "filter is_chain_obs l2 = []"
        "r2 = Returns () \<or> r2 = Parked"
        using emit_attempt_failed_quiet [of env idx "pc_name p" "rq_model req" err wf s1]
        by (auto simp: s2)
      have tr: "st_trace s2 = st_trace s @ l1 @ l2"
        "filter is_chain_obs (l1 @ l2) = [attempt_call a, Ob_Stream_Error err]"
        using failed l2 by simp_all
      have loop: "open_loop env ((idx, a) # xs) s = (if r2 = Parked then (s2, Parked)
          else if wf then open_loop env xs s2 else (s2, Fails (KE_Provider err)))"
        using failed(1) s2 l2(3) by (auto simp: pre bind_def Let_def fail_def wf_def)
      show ?thesis
      proof (cases "r2 = Returns () \<and> wf")
        case True
        from Cons.IH [of s2] obtain l es where IH: "st_trace (fst (open_loop env xs s2)) = st_trace s2 @ l"
          "moves_on env xs es" "chain_end env xs es l (snd (open_loop env xs s2))"
          by blast
        show ?thesis
          using True IH tr chain_failover [OF _ tr(2) IH(2,3)]
          by (intro exI [of _ "(l1 @ l2) @ l"] exI [of _ "err # es"]) (simp add: loop x wf_def del: open_loop.simps)
      next
        case False
        then show ?thesis
          using nil tr l2(3)
          by (intro exI [of _ "l1 @ l2"] exI [of _ "[]"])
            (auto simp: loop x wf_def failed_calls_def chain_end_def simp del: open_loop.simps)
      qed
    qed
  qed
qed

lemma enumerate_drop: "drop n (enumerate 0 as) = enumerate n (drop n as)"
  by (cases "n \<le> length as") (simp_all add: enumerate_eq_zip drop_zip)

lemma moves_on_enumerate:
  assumes "moves_on env (drop n (enumerate 0 (fe_attempts env))) es"
  shows "list_all (\<lambda>(i, e). should_try_next_open_stream e i (length (fe_attempts env)))
           (enumerate n es)"
    and "length es \<le> length (fe_attempts env) - n"
    and "es \<noteq> [] \<Longrightarrow> n + length es < length (fe_attempts env)"
proof -
  let ?as = "fe_attempts env"
  show len: "length es \<le> length ?as - n"
    using assms by (simp add: moves_on_def)
  have each: "should_try_next_open_stream (es ! k) (n + k) (length ?as)" if "k < length es" for k
    using assms len that
    by (auto simp: moves_on_def list_all2_conv_all_nth enumerate_drop nth_enumerate_eq)
  then show "list_all (\<lambda>(i, e). should_try_next_open_stream e i (length ?as)) (enumerate n es)"
    by (auto simp: list_all_length nth_enumerate_eq)
  show "n + length es < length ?as" if "es \<noteq> []"
    using each [of "length es - 1"] that by (cases es) (auto simp: should_try_next_open_stream_def)
qed

section \<open>Properties\<close>

text \<open>The error class reported to hooks carries all that the fallback decision depends on:
  whether an error moves on to the next attempt is a function of its class, and among HTTP errors
  only 408, 429 with a retry delay under 30 seconds, and the server errors move on.\<close>

theorem fallback_decided_by_class:
  "should_fallback_open_stream err =
     (case attempt_error_class_from err of
        AE_RateLimited retry \<Rightarrow> is_none_or (\<lambda>secs. secs < 30) retry
      | AE_ApiServer st \<Rightarrow> True | AE_Timeout \<Rightarrow> True | AE_Transport \<Rightarrow> True
      | AE_RetryableStream \<Rightarrow> True | AE_Other \<Rightarrow> True
      | _ \<Rightarrow> False)"
  by (cases err)
    (auto simp: should_fallback_open_stream_def attempt_error_class_from_def is_none_or_def
      rate_limit_should_fallback_def long_rate_limit_secs_def split: option.split)

text \<open>C5: an LLM call tries its attempts strictly in order and without gaps. Attempts that fail
  with an error that moves on are followed by the next one; the call ends with the stream of the
  first attempt that opens, or with the error of the first attempt that fails for good, is the last,
  or does not pass its checks. The chain of a call that has an attempt left is never exhausted.\<close>

theorem fallback_in_order:
  "\<exists>l es. st_trace (fst (open_stream_from env start s)) = st_trace s @ l
     \<and> list_all (\<lambda>(i, e). should_try_next_open_stream e i (length (fe_attempts env)))
         (enumerate start es)
     \<and> (case snd (open_stream_from env start s) of
          Returns op \<Rightarrow> op_attempt_idx op = start + length es
            \<and> op_attempt_idx op < length (fe_attempts env)
            \<and> filter is_chain_obs l = failed_calls (drop start (fe_attempts env)) es
                @ [attempt_call (fe_attempts env ! (start + length es))]
        | Fails e \<Rightarrow>
            (\<exists>err. e = KE_Provider err \<and> start + length es < length (fe_attempts env)
               \<and> should_try_next_open_stream err (start + length es)
                   (length (fe_attempts env)) = False
               \<and> filter is_chain_obs l = failed_calls (drop start (fe_attempts env)) (es @ [err]))
            \<or> (filter is_chain_obs l = failed_calls (drop start (fe_attempts env)) es
               \<and> (if start + length es < length (fe_attempts env)
                  then preflight_attempt env (fe_attempts env ! (start + length es))
                         (attempt_kind_for_index (start + length es)) = Inl e
                  else length (fe_attempts env) \<le> start
                       \<and> e = KE_Internal ''fallback chain exhausted''))
        | Parked \<Rightarrow> True)"
  (is "\<exists>l es. _ l \<and> _ es \<and> ?shape l es")
proof -
  let ?xs = "drop start (enumerate 0 (fe_attempts env))"
  obtain l es where o: "st_trace (fst (open_stream_from env start s)) = st_trace s @ l"
    "moves_on env ?xs es" "chain_end env ?xs es l (snd (open_stream_from env start s))"
    using open_loop_order [of env ?xs s] by (auto simp: open_stream_from_def)
  have snds: "map snd ?xs = drop start (fe_attempts env)"
    by (simp add: enumerate_drop)
  have nth: "?xs ! k = (start + k, fe_attempts env ! (start + k))"
    if "k < length (fe_attempts env) - start" for k
    using that by (simp add: enumerate_drop nth_enumerate_eq)
  have lens: "length ?xs = length (fe_attempts env) - start" by simp
  note m = moves_on_enumerate [OF o(2)]
  have "?shape l es"
  proof (cases "length es < length (fe_attempts env) - start")
    case True
    then show ?thesis
      using o(3) by (cases "snd (open_stream_from env start s)")
        (simp_all only: chain_end_def snds lens nth step.case fst_conv snd_conv if_True, auto)
  next
    case False
    then have "es = []" "length (fe_attempts env) \<le> start" using m(3) by fastforce+
    then show ?thesis
      using o(3) by (cases "snd (open_stream_from env start s)") (auto simp: chain_end_def snds)
  qed
  then show ?thesis using o(1) m(1) by blast
qed

end
