(* ===== verification/Tool_Turn.thy ===== *)
theory Tool_Turn
  imports Fallback
begin

text \<open>
  The configuration of a run, its message log and the handling of one tool call: tools
  (\<open>tool/mod.rs\<close>), \<open>StreamCfg\<close>, \<open>MessageLog\<close> and \<open>stream_tool_call\<close> (\<open>run/stream.rs\<close>), the checks and
  the dispatch (\<open>run/shared/build_request.rs\<close>).
\<close>

section \<open>Tools\<close>

record tool_ctx =
  tx_subject :: subject
  tx_cancel :: "bool option"
  tx_current_model :: "resolved_with_source option"
  tx_current_effort :: "resolved_effort option"
  tx_session_id :: "string option"

definition tool_ctx_new :: "subject \<Rightarrow> tool_ctx" where
  "tool_ctx_new sub = \<lparr>tx_subject = sub, tx_cancel = None, tx_current_model = None,
     tx_current_effort = None, tx_session_id = None\<rparr>"

record 'w tool =
  tl_name :: string
  tl_description :: string
  tl_schema :: json
  tl_execute_result :: "json \<Rightarrow> tool_ctx \<Rightarrow> ('w, tool_error + tool_result) call"

definition tool_defs :: "'w tool list \<Rightarrow> tool_def list" where
  "tool_defs tools = map (\<lambda>t. \<lparr>td_name = tl_name t, td_description = tl_description t,
     td_input_schema = tl_schema t\<rparr>) tools"

section \<open>Configuration of a run\<close>

text \<open>\<open>StreamCfg\<close>. The policy, the two override stores, the sender and the two renderings of
  third-party crates (base64 and RFC 3339 in serialized messages, \<open>Value::to_string\<close>) are fields;
  the run context and the tokens live in the run state.\<close>

record 'w stream_cfg =
  cf_providers :: "'w provider list"
  cf_policy :: "subject \<Rightarrow> action \<Rightarrow> ('w, policy_decision) call"
  cf_tools :: "'w tool list"
  cf_hooks :: "'w hook list"
  cf_max_turns :: nat
  cf_model :: model_target
  cf_explicit_model :: "model_target option"
  cf_session_override :: "model_id option"
  cf_fallbacks :: "model_target list"
  cf_system_prompt :: "string option"
  cf_temperature :: "rat option"
  cf_max_tokens :: "nat option"
  cf_reasoning_effort :: "reasoning_effort option"
  cf_web_search :: web_search_config
  cf_models :: registry
  cf_global_model :: "('w, override_store_error + model_id option) call"
  cf_global_effort :: "('w, string + reasoning_effort option) call"
  cf_tx :: "'w sender"
  cf_to_json :: "message \<Rightarrow> json"
  cf_show_json :: "json \<Rightarrow> string"

section \<open>Checks\<close>

definition check_cancel :: "('w, unit) run" where
  "check_cancel = bind (read (cx_cancelled \<circ> st_ctx))
     (\<lambda>c. if c then fail KE_Cancelled else ret ())"

definition check_pause :: "('w, unit) run" where
  "check_pause = bind (read st_paused) (\<lambda>p. if p then fail KE_Paused else ret ())"

definition ask_policy :: "'w stream_cfg \<Rightarrow> action \<Rightarrow> ('w, policy_decision) run" where
  "ask_policy cfg a = bind (invoke (\<lambda>ctx. cf_policy cfg (cx_subject ctx) a)) (\<lambda>d.
     bind (emit (Ob_Policy a d)) (\<lambda>_. ret d))"

definition check_policy :: "'w stream_cfg \<Rightarrow> action \<Rightarrow> ('w, unit) run" where
  "check_policy cfg a = bind (ask_policy cfg a) (\<lambda>d. case d of
       Allow \<Rightarrow> ret ()
     | Deny reason \<Rightarrow> fail (KE_PolicyDenied reason))"

section \<open>The message log\<close>

record message_log =
  ml_typed :: "message list"
  ml_raw :: "json list"

definition log_empty :: message_log where
  "log_empty = \<lparr>ml_typed = [], ml_raw = []\<rparr>"

definition log_from_typed :: "'w stream_cfg \<Rightarrow> message list \<Rightarrow> message_log" where
  "log_from_typed cfg typed = \<lparr>ml_typed = typed, ml_raw = map (cf_to_json cfg) typed\<rparr>"

definition log_append :: "'w stream_cfg \<Rightarrow> message_log \<Rightarrow> message \<Rightarrow> ('w, message_log) run" where
  "log_append cfg ml msg = bind (emit (Ob_Append msg)) (\<lambda>_.
     bind (apply_on_message (cf_hooks cfg) (ml_typed ml @ [msg])) (\<lambda>typed.
     ret (log_from_typed cfg typed)))"

fun log_append_all :: "'w stream_cfg \<Rightarrow> message_log \<Rightarrow> message list \<Rightarrow> ('w, message_log) run" where
  "log_append_all cfg ml [] = ret ml"
| "log_append_all cfg ml (m # ms) =
     bind (log_append cfg ml m) (\<lambda>ml'. log_append_all cfg ml' ms)"

definition log_from_initial :: "'w stream_cfg \<Rightarrow> message list \<Rightarrow> ('w, message_log) run" where
  "log_from_initial cfg initial =
     bind (apply_on_user_prompt_submit (cf_hooks cfg) initial) (\<lambda>prepared.
     log_append_all cfg log_empty prepared)"

definition compacted_for_provider :: "'w stream_cfg \<Rightarrow> message_log \<Rightarrow> ('w, message_log option) run"
where
  "compacted_for_provider cfg ml = bind (apply_pre_compact (cf_hooks cfg) (ml_typed ml)) (\<lambda>r.
     ret (map_option (log_from_typed cfg) r))"

section \<open>Tool dispatch\<close>

definition execute_tool ::
  "'w tool \<Rightarrow> tool_call \<Rightarrow> resolved_with_source \<Rightarrow> resolved_effort
   \<Rightarrow> run_ctx \<Rightarrow> ('w, tool_error + tool_result) call" where
  "execute_tool t call model effort ctx =
     tl_execute_result t (tc_args call)
       ((tool_ctx_new (cx_subject ctx))
          \<lparr>tx_current_model := Some model, tx_current_effort := Some effort,
           tx_cancel := Some (cx_cancelled ctx), tx_session_id := cx_session_id ctx\<rparr>)"

definition dispatch_tool ::
  "'w stream_cfg \<Rightarrow> tool_call \<Rightarrow> resolved_with_source \<Rightarrow> resolved_effort \<Rightarrow> ('w, tool_result) run"
where
  "dispatch_tool cfg call model effort =
     (case find (\<lambda>t. tl_name t = tc_name call) (cf_tools cfg) of
        None \<Rightarrow> fail (KE_Tool (TE_NotFound (tc_name call)))
      | Some t \<Rightarrow>
          bind (emit (Ob_Tool call)) (\<lambda>_.
          bind (invoke (execute_tool t call model effort)) (\<lambda>r. case r of Inl e \<Rightarrow> fail (KE_Tool e) | Inr res \<Rightarrow> ret (with_call_id (tc_id call) res))))"

definition resolve_tool_call ::
  "'w stream_cfg \<Rightarrow> tool_call \<Rightarrow> resolved_with_source \<Rightarrow> resolved_effort \<Rightarrow> ('w, tool_result) run"
where
  "resolve_tool_call cfg call model effort =
     (let soft = (\<lambda>reason. ret (with_call_id (tc_id call) (soft_error (JStr reason))))
      in bind (ask_policy cfg (Act_ToolCall (tc_name call))) (\<lambda>d. case d of
           Deny reason \<Rightarrow> soft reason
         | Allow \<Rightarrow> (\<lambda>s. case dispatch_tool cfg call model effort s of
               (s', Fails (KE_Tool TE_Cancelled)) \<Rightarrow> fail KE_Cancelled s'
             | (s', Fails (KE_Tool (TE_Permission reason))) \<Rightarrow> soft reason s'
             | (s', Fails (KE_Tool (TE_InvalidArgs reason))) \<Rightarrow> soft reason s'
             | (s', Fails (KE_Tool (TE_NotFound reason))) \<Rightarrow> soft reason s'
             | (s', r) \<Rightarrow> (s', r))))"

definition wrapped_result :: "'w stream_cfg \<Rightarrow> tool_call \<Rightarrow> tool_result \<Rightarrow> message" where
  "wrapped_result cfg call result =
     (let raw = (case tr_output result of JStr s \<Rightarrow> s | other \<Rightarrow> cf_show_json cfg other)
      in ToolResult (tr_call_id result)
           (JStr (if tr_is_error result then wrap_tool_error (tc_name call) raw
                  else wrap_tool_output (tc_name call) raw))
           (tr_is_error result))"

definition stream_tool_call ::
  "'w stream_cfg \<Rightarrow> message_log \<Rightarrow> resolved_with_source \<Rightarrow> resolved_effort \<Rightarrow> tool_call
   \<Rightarrow> ('w, message_log) run" where
  "stream_tool_call cfg ml model effort call0 =
     bind check_cancel (\<lambda>_.
     bind check_pause (\<lambda>_.
     bind (apply_before_tool (cf_hooks cfg) call0) (\<lambda>call.
     bind (emit_event (cf_hooks cfg) (cf_tx cfg) (ToolCallStarted call)) (\<lambda>_.
     bind (resolve_tool_call cfg call model effort) (\<lambda>result0.
     bind (apply_after_tool (cf_hooks cfg) call result0) (\<lambda>result.
     bind (log_append cfg ml (wrapped_result cfg call result)) (\<lambda>ml'.
     bind (emit_completed (cf_hooks cfg) (cf_tx cfg) call result) (\<lambda>_.
     log_append_all cfg ml' (tr_run_messages result)))))))))"

fun stream_tool_calls ::
  "'w stream_cfg \<Rightarrow> message_log \<Rightarrow> resolved_with_source \<Rightarrow> resolved_effort \<Rightarrow> tool_call list
   \<Rightarrow> ('w, message_log) run" where
  "stream_tool_calls cfg ml model effort [] = ret ml"
| "stream_tool_calls cfg ml model effort (c # cs) =
     bind (stream_tool_call cfg ml model effort c) (\<lambda>ml'.
     stream_tool_calls cfg ml' model effort cs)"

section \<open>Trace properties of a tool call\<close>

text \<open>Hook callbacks leave nothing in the trace and never raise an error of the loop.\<close>

interpretation silent: trace_invariant "\<lambda>x l. l = [] \<and> \<not> loop_exit x"
  by unfold_locales auto

lemma silentE:
  assumes "keeps (\<lambda>x l. l = [] \<and> \<not> loop_exit x) m" "m s = (s', r)"
  obtains "st_trace s' = st_trace s" "\<not> loop_exit (exit_of r)" "state_le s s'"
  using keepsD [OF assms] by auto

definition tool_answer :: "tool_call \<Rightarrow> message \<Rightarrow> bool" where
  "tool_answer c m \<longleftrightarrow> (\<exists>i raw e. m = ToolResult i
     (JStr (if e then wrap_tool_error (tc_name c) raw else wrap_tool_output (tc_name c) raw)) e)"

lemma wrapped_result_answers: "tool_answer c (wrapped_result cfg c r)"
  by (auto simp: tool_answer_def wrapped_result_def Let_def)

lemma log_append_trace:
  assumes "log_append cfg ml m s = (s', r)"
  shows "st_trace s' = st_trace s @ [Ob_Append m] \<and> \<not> loop_exit (exit_of r) \<and> state_le s s'"
proof -
  define t where "t = s\<lparr>st_trace := st_trace s @ [Ob_Append m]\<rparr>"
  have "keeps (\<lambda>x l. l = [] \<and> \<not> loop_exit x)
      (bind (apply_on_message (cf_hooks cfg) (ml_typed ml @ [m])) (\<lambda>ty. ret (log_from_typed cfg ty)))"
    by (intro silent.keeps_bind silent.keeps_hooks silent.keeps_ret)
  moreover have "bind (apply_on_message (cf_hooks cfg) (ml_typed ml @ [m]))
      (\<lambda>ty. ret (log_from_typed cfg ty)) t = (s', r)"
    using assms by (simp add: log_append_def bind_def emit_def t_def)
  ultimately show ?thesis
    by (rule silentE) (simp add: t_def)
qed

lemma ask_policy_cases:
  assumes "ask_policy cfg a s = (s', r)"
  obtains "r = Parked" "st_trace s' = st_trace s" "state_le s s'"
  | d where "r = Returns d" "st_trace s' = st_trace s @ [Ob_Policy a d]" "state_le s s'"
proof -
  obtain t q where t: "invoke (\<lambda>ctx. cf_policy cfg (cx_subject ctx) a) s = (t, q)"
    by (metis surj_pair)
  have "state_le s t" "st_trace t = st_trace s" "\<And>e. q \<noteq> Fails e"
    using invoke_le [where f = "\<lambda>ctx. cf_policy cfg (cx_subject ctx) a" and s = s]
    by (simp_all add: t)
  note q = this
  show thesis
  proof (cases q)
    case (Returns d)
    have r: "r = Returns d \<and> s' = t\<lparr>st_trace := st_trace t @ [Ob_Policy a d]\<rparr>"
      using assms by (simp add: ask_policy_def bind_def t Returns emit_def ret_def)
    show thesis by (rule that(2) [of d]) (use r q(1,2) in simp_all)
  next
    case (Fails e)
    with q(3) show thesis by blast
  next
    case Parked
    have r: "r = Parked \<and> s' = t"
      using assms by (simp add: ask_policy_def bind_def t Parked)
    show thesis by (rule that(1)) (use r q(1,2) in simp_all)
  qed
qed

lemma dispatch_tool_cases:
  assumes "dispatch_tool cfg c model effort s = (s', r)"
  obtains "r = Fails (KE_Tool (TE_NotFound (tc_name c)))" "s' = s"
  | "st_trace s' = st_trace s @ [Ob_Tool c]" "state_le s s'"
    "r = Parked \<or> (\<exists>e. r = Fails (KE_Tool e)) \<or> (\<exists>res. r = Returns res)"
proof (cases "find (\<lambda>t. tl_name t = tc_name c) (cf_tools cfg)")
  case None
  with assms that(1) show thesis by (simp add: dispatch_tool_def fail_def)
next
  case (Some t)
  let ?f = "execute_tool t c model effort"
  define u where "u = s\<lparr>st_trace := st_trace s @ [Ob_Tool c]\<rparr>"
  obtain v q where v: "invoke ?f u = (v, q)" by (metis surj_pair)
  have v': "state_le u v" "st_trace v = st_trace u" "\<And>e. q \<noteq> Fails e"
    using invoke_le [where f = ?f and s = u] by (simp_all add: v)
  have "dispatch_tool cfg c model effort s = (case q of
      Returns (Inl e) \<Rightarrow> (v, Fails (KE_Tool e))
    | Returns (Inr res) \<Rightarrow> (v, Returns (with_call_id (tc_id c) res))
    | Fails e \<Rightarrow> (v, Fails e) | Parked \<Rightarrow> (v, Parked))"
    using v by (simp add: dispatch_tool_def Some bind_def emit_def u_def fail_def ret_def
        split: step.split sum.split)
  with v' assms that(2) show thesis
    by (cases q) (auto simp: u_def split: sum.splits)
qed

lemma resolve_tool_call_trace:
  assumes "resolve_tool_call cfg c model effort s = (s', r)"
  shows "state_le s s' \<and> \<not> loop_exit (exit_of r)
    \<and> (\<exists>l. st_trace s' = st_trace s @ l
         \<and> (l = [] \<and> r = Parked \<or> (\<exists>d. l = [Ob_Policy (Act_ToolCall (tc_name c)) d])
            \<or> l = [Ob_Policy (Act_ToolCall (tc_name c)) Allow, Ob_Tool c]))"
proof -
  obtain t q where t: "ask_policy cfg (Act_ToolCall (tc_name c)) s = (t, q)" by (metis surj_pair)
  from t show ?thesis
  proof (cases rule: ask_policy_cases)
    case 1
    then show ?thesis using t assms by (auto simp: resolve_tool_call_def Let_def bind_def)
  next
    case (2 d)
    show ?thesis
    proof (cases d)
      case (Deny reason)
      then show ?thesis
        using t 2 assms by (auto simp: resolve_tool_call_def Let_def bind_def ret_def)
    next
      case Allow
      obtain u p where u: "dispatch_tool cfg c model effort t = (u, p)" by (metis surj_pair)
      then show ?thesis
      proof (cases rule: dispatch_tool_cases)
        case 1
        then show ?thesis
          using t u 2 Allow assms by (auto simp: resolve_tool_call_def Let_def bind_def ret_def)
      next
        case dispatched: 2
        have "state_le s u" using 2(3) dispatched(2) by (rule state_le_trans)
        then show ?thesis
          using t u 2 Allow dispatched assms
          by (auto simp: resolve_tool_call_def Let_def bind_def ret_def fail_def
              split: step.splits tool_error.splits)
      qed
    qed
  qed
qed

lemma stream_tool_call_eq:
  "stream_tool_call cfg ml model effort c0 =
     bind check_cancel (\<lambda>_. bind check_pause (\<lambda>_.
     bind (apply_before_tool (cf_hooks cfg) c0) (\<lambda>c.
     bind (emit_event (cf_hooks cfg) (cf_tx cfg) (ToolCallStarted c)) (\<lambda>_.
     bind (bind (resolve_tool_call cfg c model effort) (\<lambda>r0.
           bind (apply_after_tool (cf_hooks cfg) c r0) (\<lambda>r.
           bind (log_append cfg ml (wrapped_result cfg c r)) (\<lambda>ml'. ret (r, ml'))))) (\<lambda>(r, ml').
     bind (emit_completed (cf_hooks cfg) (cf_tx cfg) c r) (\<lambda>_.
     log_append_all cfg ml' (tr_run_messages r)))))))"
  by (simp add: stream_tool_call_def bind_assoc)

locale run_invariant = provider_invariant +
  assumes ok_policy: "a \<noteq> Act_LlmCall \<Longrightarrow> ok Exit_Returns [Ob_Policy a d]"
    and ok_message: "ok Exit_Returns [Ob_Append m]"
    and ok_answered: "tool_answer c m \<Longrightarrow>
      ok Exit_Returns [Ob_Policy (Act_ToolCall (tc_name c)) Allow, Ob_Tool c, Ob_Append m]"
    and ok_unanswered: "\<not> loop_exit x \<Longrightarrow> x \<noteq> Exit_Returns \<Longrightarrow>
      ok x [Ob_Policy (Act_ToolCall (tc_name c)) Allow, Ob_Tool c]"
begin

lemma ok_then: "ok Exit_Returns l \<Longrightarrow> \<not> loop_exit x \<Longrightarrow> ok x l"
  using ok_append [of l x "[]"] by (simp add: ok_nil)

lemma keeps_log_append: "keeps ok (log_append cfg ml m)"
  unfolding log_append_def
  by (intro keeps_bind keeps_emit ok_message keeps_hooks keeps_ret)

lemma keeps_log_append_all: "keeps ok (log_append_all cfg ml ms)"
  by (induction ms arbitrary: ml) (auto intro: keeps_bind keeps_log_append keeps_ret)

lemma keeps_ask_policy: "a \<noteq> Act_LlmCall \<Longrightarrow> keeps ok (ask_policy cfg a)"
  unfolding ask_policy_def
  by (intro keeps_bind keeps_invoke keeps_emit ok_policy keeps_ret)

lemma keeps_check_policy: "a \<noteq> Act_LlmCall \<Longrightarrow> keeps ok (check_policy cfg a)"
  unfolding check_policy_def
  by (auto intro!: keeps_bind keeps_ask_policy keeps_ret keeps_fail split: policy_decision.split)

lemma keeps_check_cancel: "keeps ok check_cancel"
  unfolding check_cancel_def by (auto intro!: keeps_bind keeps_read keeps_ret keeps_fail)

lemma answer_open:
  assumes "l = [] \<and> p = Parked \<or> (\<exists>d. l = [Ob_Policy (Act_ToolCall (tc_name c)) d])
      \<or> l = [Ob_Policy (Act_ToolCall (tc_name c)) Allow, Ob_Tool c]"
    and "\<not> loop_exit x" "x \<noteq> Exit_Returns"
  shows "ok x l"
proof -
  have "ok Exit_Returns [Ob_Policy (Act_ToolCall (tc_name c)) d]" for d
    by (rule ok_policy) simp
  then show ?thesis
    using assms(1) ok_nil [OF assms(2)] ok_then [OF _ assms(2)] ok_unanswered [OF assms(2,3)] by blast
qed

lemma answer_closed:
  assumes "l = [] \<and> p = Parked \<or> (\<exists>d. l = [Ob_Policy (Act_ToolCall (tc_name c)) d])
      \<or> l = [Ob_Policy (Act_ToolCall (tc_name c)) Allow, Ob_Tool c]"
    and "p = Returns q" "\<not> loop_exit x"
  shows "ok x (l @ [Ob_Append (wrapped_result cfg c r)])"
proof -
  have "ok Exit_Returns [Ob_Policy (Act_ToolCall (tc_name c)) d]" for d
    by (rule ok_policy) simp
  then have "ok Exit_Returns (l @ [Ob_Append (wrapped_result cfg c r)])"
    using assms(1,2) ok_answered [OF wrapped_result_answers, of c cfg r] ok_append [OF _ ok_message]
    by auto
  then show ?thesis using assms(3) by (rule ok_then)
qed

text \<open>A call whose answer reaches the log adds the policy decision, the execution and the answer
  together; a call that stops in between stops the run.\<close>

lemma keeps_answer:
  "keeps ok (bind (resolve_tool_call cfg c model effort) (\<lambda>r0.
     bind (apply_after_tool (cf_hooks cfg) c r0) (\<lambda>r.
     bind (log_append cfg ml (wrapped_result cfg c r)) (\<lambda>ml'. ret (r, ml')))))"
  (is "keeps ok ?m")
proof (rule keeps_pairI)
  fix s s' r
  assume m: "?m s = (s', r)"
  obtain t p where t: "resolve_tool_call cfg c model effort s = (t, p)" by (metis surj_pair)
  obtain l where l: "state_le s t" "\<not> loop_exit (exit_of p)" "st_trace t = st_trace s @ l"
    "l = [] \<and> p = Parked \<or> (\<exists>d. l = [Ob_Policy (Act_ToolCall (tc_name c)) d])
      \<or> l = [Ob_Policy (Act_ToolCall (tc_name c)) Allow, Ob_Tool c]"
    using resolve_tool_call_trace [OF t] by blast
  have halt: "kept ok s u x"
    if "st_trace u = st_trace t" "state_le t u" "\<not> loop_exit x" "x \<noteq> Exit_Returns" for u x
    using that l(1,3) answer_open [OF l(4) that(3,4)] state_le_trans
    by (fastforce simp: kept_def)
  show "kept ok s s' (exit_of r)"
  proof (cases "\<exists>r0. p = Returns r0")
    case False
    then have "s' = t" "exit_of r = exit_of p" using m t by (cases p; auto simp: bind_def)+
    with False l(2) show ?thesis by (auto intro: halt)
  next
    case True
    then obtain r0 where r0: "p = Returns r0" ..
    obtain u q where u: "apply_after_tool (cf_hooks cfg) c r0 t = (u, q)" by (metis surj_pair)
    have u': "st_trace u = st_trace t \<and> \<not> loop_exit (exit_of q) \<and> state_le t u"
      using silent.keeps_hooks(6) u by (rule silentE) simp
    show ?thesis
    proof (cases "\<exists>r1. q = Returns r1")
      case False
      then have "s' = u" "exit_of r = exit_of q" using m t r0 u by (cases q; auto simp: bind_def)+
      with False u' show ?thesis by (auto intro: halt)
    next
      case True
      then obtain r1 where r1: "q = Returns r1" ..
      obtain v w where v: "log_append cfg ml (wrapped_result cfg c r1) u = (v, w)"
        by (metis surj_pair)
      note v' = log_append_trace [OF v]
      have le: "state_le s v" using l(1) u' v' state_le_trans by metis
      have "s' = v" "exit_of r = exit_of w"
        using m t u v r0 r1 by (cases w; auto simp: bind_def ret_def)+
      moreover have "kept ok s v (exit_of w)"
        unfolding kept_def
        using v' u' l(3) answer_closed [OF l(4) r0, of "exit_of w" cfg r1] le by auto
      ultimately show ?thesis by simp
    qed
  qed
qed

lemma keeps_check_pause: "ok (Exit_Fails KE_Paused) [] \<Longrightarrow> keeps ok check_pause"
  by (rule keepsI) (auto simp: check_pause_def bind_def read_def fail_def ret_def ok_nil
      split: if_splits)

lemma keeps_tool_call:
  assumes "ok (Exit_Fails KE_Paused) []"
  shows "keeps ok (stream_tool_call cfg ml model effort c)"
  unfolding stream_tool_call_eq emit_completed_def
  by (auto intro!: keeps_bind keeps_check_cancel keeps_check_pause assms keeps_hooks
      keeps_emit_event keeps_answer keeps_log_append_all)

lemma keeps_tool_calls:
  assumes "ok (Exit_Fails KE_Paused) []"
  shows "keeps ok (stream_tool_calls cfg ml model effort cs)"
  by (induction cs arbitrary: ml) (auto intro: keeps_bind keeps_tool_call [OF assms] keeps_ret)

end

end
