(* ===== verification/Run_Loop.thy ===== *)
theory Run_Loop
  imports Tool_Turn
begin

text \<open>
  The run loop of the kernel: the pump of one provider stream (\<open>run/stream/provider_turn.rs\<close>), one
  turn (\<open>run/stream/turn.rs\<close>) and the driver of a run (\<open>run/stream.rs\<close>). The driver races the loop
  against the cancellation token and the receiver in a biased \<open>select!\<close>: a loop parked at an await
  is dropped as soon as one of them fires, which is how \<open>drive_stream\<close> treats it. A driver parked
  with neither fired never goes on (its task is stuck or aborted), and neither does one parked in a
  terminal callback, which the driver does not race.
\<close>

section \<open>Pumping a provider stream\<close>

record stream_accum =
  ac_text :: string
  ac_tool_calls :: "tool_call list"
  ac_stop_reason :: stop_reason
  ac_usage :: usage
  ac_model :: model_id
  ac_blocks :: "message list"

definition accum_new :: "model_id \<Rightarrow> stream_accum" where
  "accum_new m = \<lparr>ac_text = [], ac_tool_calls = [], ac_stop_reason = EndTurn,
     ac_usage = usage_default, ac_model = m, ac_blocks = []\<rparr>"

definition reset_for_retry :: "model_id \<Rightarrow> stream_accum \<Rightarrow> stream_accum" where
  "reset_for_retry m acc = acc\<lparr>ac_text := [], ac_tool_calls := [], ac_blocks := [],
     ac_stop_reason := EndTurn, ac_usage := usage_default, ac_model := m\<rparr>"

definition accept_event ::
  "'w stream_cfg \<Rightarrow> provider_event \<Rightarrow> stream_accum \<Rightarrow> ('w, stream_accum) run" where
  "accept_event cfg ev acc =
     (let send = emit_event (cf_hooks cfg) (cf_tx cfg)
      in case ev of
        TextDelta t \<Rightarrow>
          bind (send (Token t)) (\<lambda>_. ret (acc\<lparr>ac_text := ac_text acc @ t\<rparr>))
      | ReasoningDelta t \<Rightarrow> bind (send (Reasoning t)) (\<lambda>_. ret acc)
      | Tool_Use c \<Rightarrow> ret (acc\<lparr>ac_tool_calls := ac_tool_calls acc @ [c]\<rparr>)
      | Usage u \<Rightarrow> ret (acc\<lparr>ac_usage := u\<rparr>)
      | Stop r \<Rightarrow> ret (acc\<lparr>ac_stop_reason := r\<rparr>)
      | Server_Tool_Result p name content cits \<Rightarrow>
          bind (send (ServerToolResult p name cits content)) (\<lambda>_.
          ret (acc\<lparr>ac_blocks := ac_blocks acc @ [ProviderBlock p content]\<rparr>)))"

definition retry_env ::
  "'w stream_cfg \<Rightarrow> llm_request \<Rightarrow> resolved_model list \<Rightarrow> 'w opened_stream \<Rightarrow> 'w fallback_env" where
  "retry_env cfg base attempts current =
     \<lparr>fe_providers = cf_providers cfg, fe_registry = cf_models cfg, fe_base = base,
      fe_attempts = attempts, fe_model_source = rws_source (op_current_model current),
      fe_effort_source = op_effort_source current, fe_hooks = cf_hooks cfg,
      fe_stream_tx = Some (cf_tx cfg)\<rparr>"

lemma retry_env_attempts [simp]: "fe_attempts (retry_env cfg base attempts current) = attempts"
  by (simp add: retry_env_def)

text \<open>A retry opens a later attempt, and attempts are numbered below the length of the chain: the
  reason why the pump terminates.\<close>

lemma open_loop_index:
  assumes "open_loop env xs s = (s', Returns op)"
  shows "op_attempt_idx op \<in> fst ` set xs"
  using assms
proof (induction xs arbitrary: s)
  case (Cons x xs)
  obtain idx a where x: "x = (idx, a)" by (cases x)
  show ?case
    using Cons
    by (fastforce simp: x bind_def ret_def fail_def lift_result_def opened_for_def Let_def
        split: prod.splits step.splits sum.splits if_splits)
qed (simp add: fail_def)

lemma retry_index:
  assumes "retry_pump_with_fallbacks env idx err s = (s', Returns op)"
  shows "idx < op_attempt_idx op \<and> op_attempt_idx op < length (fe_attempts env)"
proof -
  from assms obtain t where "open_stream_from env (idx + 1) t = (s', Returns op)"
    by (auto simp: retry_pump_with_fallbacks_def Let_def bind_def fail_def
        split: prod.splits step.splits if_splits)
  then have "op_attempt_idx op \<in> fst ` set (drop (idx + 1) (enumerate 0 (fe_attempts env)))"
    by (auto simp: open_stream_from_def dest: open_loop_index)
  then show ?thesis
    by (auto simp: enumerate_drop in_set_enumerate_eq)
qed

function pump_provider_events ::
  "'w stream_cfg \<Rightarrow> llm_request \<Rightarrow> resolved_model list \<Rightarrow> 'w opened_stream \<Rightarrow> stream_accum
   \<Rightarrow> ('w, 'w opened_stream \<times> stream_accum) run" where
  "pump_provider_events cfg base attempts current acc s =
     (if cx_cancelled (st_ctx s) \<or> st_closed s then (s, Fails KE_Cancelled)
      else case op_stream current of
        [] \<Rightarrow> (s, Returns (current, acc))
      | nxt # rest \<Rightarrow>
          (case invoke (\<lambda>_. nxt) s of
             (s1, Returns (Inl err)) \<Rightarrow>
               (case retry_pump_with_fallbacks (retry_env cfg base attempts current)
                       (op_attempt_idx current) err s1 of
                  (s2, Returns current') \<Rightarrow>
                    pump_provider_events cfg base attempts current'
                      (reset_for_retry (rq_model (op_request current')) acc) s2
                | (s2, Fails e) \<Rightarrow> (s2, Fails e)
                | (s2, Parked) \<Rightarrow> (s2, Parked))
           | (s1, Returns (Inr ev)) \<Rightarrow>
               (case accept_event cfg ev acc s1 of
                  (s2, Returns acc') \<Rightarrow>
                    pump_provider_events cfg base attempts (current\<lparr>op_stream := rest\<rparr>) acc' s2
                | (s2, Fails e) \<Rightarrow> (s2, Fails e)
                | (s2, Parked) \<Rightarrow> (s2, Parked))
           | (s1, Fails e) \<Rightarrow> (s1, Fails e)
           | (s1, Parked) \<Rightarrow> (s1, Parked)))"
  by pat_completeness auto

termination
proof (relation "(\<lambda>(cfg, base, attempts, current, acc, s).
    length attempts - op_attempt_idx current) <*mlex*>
    measure (\<lambda>(cfg, base, attempts, current, acc, s). length (op_stream current))",
    goal_cases)
  case (2 cfg base attempts current acc s)
  then show ?case
    by (fastforce simp: mlex_iff dest!: retry_index [OF sym])
next
  case 3
  then show ?case by (auto simp: mlex_iff)
qed (simp add: wf_mlex)

declare pump_provider_events.simps [simp del]

record provider_turn =
  pt_request :: llm_request
  pt_response :: llm_response
  pt_current_model :: resolved_with_source
  pt_current_effort :: resolved_effort
  pt_blocks :: "message list"

definition consume_provider_stream ::
  "'w stream_cfg \<Rightarrow> llm_request \<Rightarrow> resolved_model list \<Rightarrow> 'w opened_stream \<Rightarrow> ('w, provider_turn) run"
where
  "consume_provider_stream cfg base attempts opened =
     bind (pump_provider_events cfg base attempts opened (accum_new (rq_model (op_request opened))))
       (\<lambda>(current, acc). ret
          \<lparr>pt_request = op_request current,
           pt_response = \<lparr>rs_text = ac_text acc, rs_tool_calls = ac_tool_calls acc,
                          rs_stop_reason = ac_stop_reason acc, rs_usage = ac_usage acc,
                          rs_model = ac_model acc\<rparr>,
           pt_current_model = op_current_model current,
           pt_current_effort = op_current_effort current,
           pt_blocks = ac_blocks acc\<rparr>)"

section \<open>One turn\<close>

definition resolve_effective_model :: "'w stream_cfg \<Rightarrow> ('w, resolved_with_source) run" where
  "resolve_effective_model cfg =
     bind (read (cx_model_override \<circ> st_ctx)) (\<lambda>published.
     let session_override = opt_or published (cf_session_override cfg);
         global_read = (if cf_explicit_model cfg = None \<and> session_override = None
                        then invoke (\<lambda>_. cf_global_model cfg) else ret (Inr None))
     in bind global_read (\<lambda>g. lift_result (map_err map_resolve_error
          (resolve_model_target_with_overrides (cf_models cfg) session_override g
             (cf_explicit_model cfg) (cf_model cfg)))))"

definition resolve_effective_effort ::
  "'w stream_cfg \<Rightarrow> resolved_with_source \<Rightarrow> ('w, resolved_effort) run" where
  "resolve_effective_effort cfg model =
     (let pick = (\<lambda>e src. ret \<lparr>re_effort = e, re_source = src\<rparr>)
      in case cf_reasoning_effort cfg of
           Some e \<Rightarrow> pick (Some e) ES_Explicit
         | None \<Rightarrow> bind (read (cx_effort_override \<circ> st_ctx)) (\<lambda>published. case published of
             Some e \<Rightarrow> pick (Some e) ES_SessionOverride
           | None \<Rightarrow> bind (invoke (\<lambda>_. cf_global_effort cfg)) (\<lambda>g. case g of
               Inl reason \<Rightarrow> fail (KE_ReasoningEffortOverrideStore reason)
             | Inr (Some e) \<Rightarrow> pick (Some e) ES_GlobalOverride
             | Inr None \<Rightarrow> pick (mc_reasoning_effort (mi_caps (rws_info model))) ES_ModelDefault)))"

definition effort_for_request :: "resolved_effort \<Rightarrow> reasoning_effort option" where
  "effort_for_request e = (case re_source e of
       ES_ModelDefault \<Rightarrow> None
     | ES_Explicit \<Rightarrow> re_effort e
     | ES_SessionOverride \<Rightarrow> re_effort e
     | ES_GlobalOverride \<Rightarrow> re_effort e)"

definition target_for_resolved :: "resolved_with_source \<Rightarrow> model_target" where
  "target_for_resolved r = model_target_new (mi_provider (rws_info r)) (mi_id (rws_info r))"

definition primary_target_for_request :: "model_target \<Rightarrow> model_id \<Rightarrow> model_target" where
  "primary_target_for_request configured m =
     (if target_model configured = m then configured else Id m)"

definition build_request ::
  "model_id \<Rightarrow> string option \<Rightarrow> json list \<Rightarrow> tool_def list \<Rightarrow> nat option \<Rightarrow> rat option
   \<Rightarrow> reasoning_effort option \<Rightarrow> llm_request" where
  "build_request m prompt msgs tools max_tokens temperature effort =
     \<lparr>rq_model = m, rq_system_prompt = prompt, rq_messages = msgs, rq_tools = tools,
      rq_max_tokens = max_tokens, rq_temperature = temperature, rq_stop_sequences = [],
      rq_reasoning_effort = effort, rq_web_search = web_search_default, rq_tool_choice = None\<rparr>"

record run_surface =
  sf_req :: llm_request
  sf_attempts :: "resolved_model list"
  sf_model :: resolved_with_source
  sf_effort :: resolved_effort

definition fallback_env_of :: "'w stream_cfg \<Rightarrow> run_surface \<Rightarrow> 'w sender option \<Rightarrow> 'w fallback_env" where
  "fallback_env_of cfg sf tx =
     \<lparr>fe_providers = cf_providers cfg, fe_registry = cf_models cfg, fe_base = sf_req sf,
      fe_attempts = sf_attempts sf, fe_model_source = rws_source (sf_model sf),
      fe_effort_source = re_source (sf_effort sf), fe_hooks = cf_hooks cfg, fe_stream_tx = tx\<rparr>"

text \<open>The pre-flight of one attempt asks the policy about hosted web search once per provider; the
  providers already asked are threaded through.\<close>

definition preflight_one ::
  "'w stream_cfg \<Rightarrow> 'w fallback_env \<Rightarrow> resolved_model \<Rightarrow> nat \<Rightarrow> string list \<Rightarrow> ('w, string list) run"
where
  "preflight_one cfg env attempt idx checked =
     bind (lift_result (preflight_attempt env attempt (attempt_kind_for_index idx)))
       (\<lambda>(p, req).
         if ws_enabled (rq_web_search req) \<and> \<not> list_ex (\<lambda>name. name = pc_name p) checked then
           bind (check_policy cfg (Act_HostedWebSearch (pc_name p)))
             (\<lambda>_. ret (checked @ [pc_name p]))
         else ret checked)"

fun survival_loop ::
  "'w stream_cfg \<Rightarrow> 'w fallback_env \<Rightarrow> (nat \<times> resolved_model) list \<Rightarrow> string list
   \<Rightarrow> ('w, bool list) run" where
  "survival_loop cfg env [] checked = ret []"
| "survival_loop cfg env ((idx, attempt) # rest) checked =
     (\<lambda>s. case preflight_one cfg env attempt idx checked s of
        (s', Returns checked') \<Rightarrow>
          bind (survival_loop cfg env rest checked') (\<lambda>bs. ret (True # bs)) s'
      | (s', Fails err) \<Rightarrow>
          if idx = 0 then (s', Fails err)
          else bind (survival_loop cfg env rest checked) (\<lambda>bs. ret (False # bs)) s'
      | (s', Parked) \<Rightarrow> (s', Parked))"

definition decide_attempt_survival :: "'w stream_cfg \<Rightarrow> run_surface \<Rightarrow> ('w, bool list) run" where
  "decide_attempt_survival cfg sf =
     survival_loop cfg (fallback_env_of cfg sf None) (enumerate 0 (sf_attempts sf)) []"

definition prune_unflyable_fallbacks :: "'w stream_cfg \<Rightarrow> run_surface \<Rightarrow> ('w, run_surface) run" where
  "prune_unflyable_fallbacks cfg sf = bind (decide_attempt_survival cfg sf) (\<lambda>survive.
     ret (sf\<lparr>sf_attempts := map fst (filter snd (zip (sf_attempts sf) survive))\<rparr>))"

definition bind_run_surface ::
  "'w stream_cfg \<Rightarrow> message_log \<Rightarrow> tool_def list \<Rightarrow> ('w, message_log \<times> run_surface) run" where
  "bind_run_surface cfg ml0 tools =
     bind (check_policy cfg Act_LlmCall) (\<lambda>_.
     bind (compacted_for_provider cfg ml0) (\<lambda>compacted.
     let ml = unwrap_or ml0 compacted
     in bind (resolve_effective_model cfg) (\<lambda>model.
        bind (resolve_effective_effort cfg model) (\<lambda>effort.
        let target = target_for_resolved model;
            req = (build_request (target_model target) (cf_system_prompt cfg) (ml_raw ml) tools
                     (cf_max_tokens cfg) (cf_temperature cfg) (effort_for_request effort))
                    \<lparr>rq_web_search := cf_web_search cfg\<rparr>
        in bind (apply_before_llm (cf_hooks cfg) req) (\<lambda>req'.
           bind (lift_result (resolve_attempts (cf_models cfg)
                   (primary_target_for_request target (rq_model req')) (cf_fallbacks cfg)))
             (\<lambda>attempts.
           bind (prune_unflyable_fallbacks cfg
                   \<lparr>sf_req = req', sf_attempts = attempts, sf_model = model, sf_effort = effort\<rparr>)
             (\<lambda>sf. ret (ml, sf))))))))"

definition apply_provider_response ::
  "'w stream_cfg \<Rightarrow> message_log \<Rightarrow> provider_turn \<Rightarrow> llm_response
   \<Rightarrow> ('w, message_log \<times> string option) run" where
  "apply_provider_response cfg ml turn resp =
     bind (log_append_all cfg ml (pt_blocks turn)) (\<lambda>ml1.
     bind (log_append cfg ml1 (Assistant (rs_text resp) (rs_tool_calls resp))) (\<lambda>ml2.
     if rs_tool_calls resp = [] then ret (ml2, Some (rs_text resp))
     else bind (stream_tool_calls cfg ml2 (pt_current_model turn) (pt_current_effort turn)
                  (rs_tool_calls resp)) (\<lambda>ml3. ret (ml3, None))))"

definition stream_one_turn ::
  "'w stream_cfg \<Rightarrow> message_log \<Rightarrow> tool_def list \<Rightarrow> ('w, message_log \<times> string option) run" where
  "stream_one_turn cfg ml0 tools =
     bind check_cancel (\<lambda>_.
     bind (bind_run_surface cfg ml0 tools) (\<lambda>(ml, sf).
     bind check_cancel (\<lambda>_.
     bind (open_stream_with_fallbacks (fallback_env_of cfg sf (Some (cf_tx cfg)))) (\<lambda>opened.
     bind (consume_provider_stream cfg (sf_req sf) (sf_attempts sf) opened) (\<lambda>turn.
     bind (apply_after_llm (cf_hooks cfg) (pt_request turn) (pt_response turn)) (\<lambda>resp.
     apply_provider_response cfg ml turn resp))))))"

section \<open>The driver\<close>

fun turn_loop ::
  "'w stream_cfg \<Rightarrow> tool_def list \<Rightarrow> nat \<Rightarrow> message_log \<Rightarrow> ('w, string) run" where
  "turn_loop cfg tools 0 ml = fail (KE_MaxTurnsExceeded (cf_max_turns cfg))"
| "turn_loop cfg tools (Suc n) ml =
     bind check_pause (\<lambda>_.
     bind (stream_one_turn cfg ml tools) (\<lambda>(ml', final). case final of
         Some text \<Rightarrow> ret text
       | None \<Rightarrow> turn_loop cfg tools n ml'))"

definition drive_inner :: "'w stream_cfg \<Rightarrow> message list \<Rightarrow> ('w, string) run" where
  "drive_inner cfg initial =
     bind (apply_on_session_start (cf_hooks cfg)) (\<lambda>_.
     bind (log_from_initial cfg initial) (\<lambda>ml.
     turn_loop cfg (tool_defs (cf_tools cfg)) (cf_max_turns cfg) ml))"

definition outcome_for_error :: "kernel_error \<Rightarrow> outcome" where
  "outcome_for_error err = (case err of
       KE_MaxTurnsExceeded _ \<Rightarrow> MaxTurnsExceeded
     | KE_Cancelled \<Rightarrow> Cancelled
     | KE_Paused \<Rightarrow> Paused
     | other \<Rightarrow> Errored (show_kernel_error other))"

definition finish_success :: "'w stream_cfg \<Rightarrow> string \<Rightarrow> ('w, unit) run" where
  "finish_success cfg text = (\<lambda>s. case prepare_event (cf_hooks cfg) (Final text) s of
       (s', Parked) \<Rightarrow> (s', Parked)
     | (s', Returns ev) \<Rightarrow>
         bind (apply_on_stop (cf_hooks cfg) (Completed text)) (\<lambda>_.
         bind (send_stream_item (cf_tx cfg) (Inr ev)) (\<lambda>_. ret ())) s'
     | (s', Fails err) \<Rightarrow>
         bind (apply_on_stop (cf_hooks cfg) (Completed text)) (\<lambda>_.
         bind (send_stream_item (cf_tx cfg) (Inl err)) (\<lambda>_. ret ())) s')"

definition stamp_shutdown :: "kernel_error \<Rightarrow> ('w, unit) run" where
  "stamp_shutdown err s =
     ((if err = KE_Cancelled \<and> st_shutdown s
       then on_ctx (fst \<circ> set_cancel_reason Shutdown) s else s), Returns ())"

definition is_errored :: "outcome \<Rightarrow> bool" where
  "is_errored oc = (case oc of Errored _ \<Rightarrow> True | _ \<Rightarrow> False)"

definition finish_error :: "'w stream_cfg \<Rightarrow> kernel_error \<Rightarrow> ('w, unit) run" where
  "finish_error cfg err =
     bind (stamp_shutdown err) (\<lambda>_.
     let oc = outcome_for_error err
     in bind (if is_errored oc then apply_on_error (cf_hooks cfg) err else ret ()) (\<lambda>_.
        bind (apply_on_stop (cf_hooks cfg) oc) (\<lambda>_.
        bind (send_stream_item (cf_tx cfg) (Inl err)) (\<lambda>_. ret ()))))"

text \<open>The biased \<open>select!\<close>: the token and the receiver are looked at before the loop is polled at
  all, and whenever the loop is parked.\<close>

definition drive_stream :: "'w stream_cfg \<Rightarrow> message list \<Rightarrow> ('w, unit) run" where
  "drive_stream cfg initial s =
     (if cx_cancelled (st_ctx s) \<or> st_closed s then finish_error cfg KE_Cancelled s
      else case drive_inner cfg initial s of
        (s', Returns text) \<Rightarrow> finish_success cfg text s'
      | (s', Fails err) \<Rightarrow> finish_error cfg err s'
      | (s', Parked) \<Rightarrow>
          if cx_cancelled (st_ctx s') \<or> st_closed s' then finish_error cfg KE_Cancelled s'
          else (s', Parked))"

end
