(* ===== verification/Run_Safety.thy ===== *)
theory Run_Safety
  imports Run_Loop
begin

text \<open>
  Safety of the run loop, for arbitrary hooks, tools, policies, providers and interleavings with
  concurrent tasks: the operations of a turn keep every compositional trace property, and the
  properties of a run follow by choosing one.
\<close>

section \<open>A turn keeps trace properties\<close>

context run_invariant
begin

lemma map_resolve_error_plain: "\<not> loop_error (map_resolve_error e)"
  by (cases e) (simp_all add: map_resolve_error_def)

lemma keeps_effective_model: "keeps ok (resolve_effective_model cfg)"
  unfolding resolve_effective_model_def Let_def
  by (auto intro!: keeps_bind keeps_read keeps_invoke keeps_ret keeps_lift
      simp: map_err_def map_resolve_error_plain split: sum.splits)

lemma keeps_effective_effort: "keeps ok (resolve_effective_effort cfg model)"
  unfolding resolve_effective_effort_def Let_def
  by (auto intro!: keeps_bind keeps_read keeps_invoke keeps_ret keeps_fail
      split: option.split sum.split)

lemma resolve_attempts_plain: "resolve_attempts r p fs = Inl e \<Longrightarrow> \<not> loop_error e"
  by (auto simp: resolve_attempts_def resolve_model_def resolve_model_target_def and_then_Inl
      map_err_def map_resolve_error_plain split: model_target.splits sum.splits)

lemma keeps_preflight_one: "keeps ok (preflight_one cfg env a i checked)"
  unfolding preflight_one_def
  by (auto intro!: keeps_bind keeps_lift keeps_check_policy keeps_ret dest: preflight_error)

end

text \<open>A failed pre-flight of a fallback leaves at most a policy answer behind, which is why the
  failure may be discarded.\<close>

fun is_web_obs :: "obs \<Rightarrow> bool" where
  "is_web_obs (Ob_Policy (Act_HostedWebSearch p) d) = True"
| "is_web_obs ob = False"

lemma check_policy_trace:
  assumes "check_policy cfg a s = (s', r)"
  shows "state_le s s' \<and> \<not> loop_exit (exit_of r)
    \<and> (\<exists>l. st_trace s' = st_trace s @ l \<and> (l = [] \<and> r = Parked \<or> (\<exists>d. l = [Ob_Policy a d])))"
proof -
  obtain t q where t: "ask_policy cfg a s = (t, q)" by (metis surj_pair)
  from t show ?thesis
  proof (cases rule: ask_policy_cases)
    case 1
    then show ?thesis using t assms by (auto simp: check_policy_def bind_def)
  next
    case (2 d)
    then show ?thesis
      using t assms by (cases d) (auto simp: check_policy_def bind_def ret_def fail_def)
  qed
qed

lemma preflight_one_trace:
  assumes "preflight_one cfg env a i checked s = (s', r)"
  shows "state_le s s' \<and> (\<exists>l. st_trace s' = st_trace s @ l \<and> list_all is_web_obs l)"
proof (cases "preflight_attempt env a (attempt_kind_for_index i)")
  case (Inl e)
  then show ?thesis using assms by (auto simp: preflight_one_def fail_def)
next
  case (Inr pr)
  obtain p req where pr: "pr = (p, req)" by (cases pr)
  let ?act = "Act_HostedWebSearch (pc_name p)"
  obtain t q where t: "check_policy cfg ?act s = (t, q)" by (metis surj_pair)
  have "s' = s \<or> s' = t"
    using assms t
    by (cases q) (auto simp: preflight_one_def Inr pr bind_def ret_def split: if_splits)
  then show ?thesis using check_policy_trace [OF t] by auto
qed

context run_invariant
begin

lemma ok_web: "list_all is_web_obs l \<Longrightarrow> ok Exit_Returns l"
proof (induction l)
  case (Cons ob l)
  then obtain p d where "ob = Ob_Policy (Act_HostedWebSearch p) d"
    by (cases ob rule: is_web_obs.cases) auto
  with Cons show ?case
    using ok_append [OF ok_policy, of "Act_HostedWebSearch p" Exit_Returns l d] by simp
qed (simp add: ok_nil)

lemma kept_web:
  assumes "preflight_one cfg env a i checked s = (t, q)" "kept ok t u x"
  shows "kept ok s u x"
  using preflight_one_trace [OF assms(1)] assms(2) ok_web
  by (intro kept_trans [OF _ assms(2)]) (auto simp: kept_def)

lemma keeps_survival_loop: "keeps ok (survival_loop cfg env xs checked)"
proof (induction xs arbitrary: checked)
  case (Cons x xs)
  obtain idx a where x: "x = (idx, a)" by (cases x)
  have rest: "keeps ok (bind (survival_loop cfg env xs c) (\<lambda>bs. ret (b # bs)))" for c b
    by (intro keeps_bind Cons keeps_ret)
  show ?case
  proof (rule keeps_pairI)
    fix s s' r
    assume loop: "survival_loop cfg env (x # xs) checked s = (s', r)"
    obtain t q where t: "preflight_one cfg env a idx checked s = (t, q)" by (metis surj_pair)
    note k = keeps_kept [OF keeps_preflight_one t]
    note cont = kept_web [OF t keeps_kept [OF rest]]
    show "kept ok s s' (exit_of r)"
    proof (cases q)
      case (Returns c)
      then have "bind (survival_loop cfg env xs c) (\<lambda>bs. ret (True # bs)) t = (s', r)"
        using loop by (simp add: x t)
      then show ?thesis by (rule cont)
    next
      case (Fails e)
      show ?thesis
      proof (cases "idx = 0")
        case True
        then show ?thesis using loop k Fails t by (auto simp: x)
      next
        case False
        then have "bind (survival_loop cfg env xs checked) (\<lambda>bs. ret (False # bs)) t = (s', r)"
          using loop Fails by (simp add: x t)
        then show ?thesis by (rule cont)
      qed
    next
      case Parked
      then show ?thesis using loop k by (auto simp: x t)
    qed
  qed
qed (simp add: keeps_ret)

lemma keeps_prune: "keeps ok (prune_unflyable_fallbacks cfg sf)"
  unfolding prune_unflyable_fallbacks_def decide_attempt_survival_def
  by (intro keeps_bind keeps_survival_loop keeps_ret)

lemma keeps_accept_event: "keeps ok (accept_event cfg ev acc)"
  unfolding accept_event_def Let_def
  by (cases ev) (auto intro!: keeps_bind keeps_emit_event keeps_ret)

lemma keeps_pump: "keeps ok (pump_provider_events cfg base attempts current acc)"
proof (rule keeps_pairI)
  fix s s' r
  assume "pump_provider_events cfg base attempts current acc s = (s', r)"
  then show "kept ok s s' (exit_of r)"
  proof (induction cfg base attempts current acc s arbitrary: s' r
      rule: pump_provider_events.induct)
    case (1 cfg base attempts current acc s)
    let ?halt = "cx_cancelled (st_ctx s) \<or> st_closed s"
    show ?case
    proof (cases "?halt \<or> op_stream current = []")
      case True
      with "1.prems" have "s' = s" "\<not> loop_exit (exit_of r)"
        by (subst (asm) pump_provider_events.simps; auto split: if_splits)+
      then show ?thesis by (auto simp: kept_def ok_nil)
    next
      case False
      then obtain nxt rest where n: "op_stream current = nxt # rest"
        by (cases "op_stream current") auto
      obtain t q where t: "invoke (\<lambda>_. nxt) s = (t, q)" by (metis surj_pair)
      note kt = keeps_kept [OF keeps_invoke t]
      show ?thesis
      proof (cases q)
        case (Returns item)
        show ?thesis
        proof (cases item)
          case (Inl err)
          obtain u p where u: "retry_pump_with_fallbacks (retry_env cfg base attempts current)
              (op_attempt_idx current) err t = (u, p)" by (metis surj_pair)
          note ku = kept_trans [OF kt [unfolded Returns exit_of.simps] keeps_kept [OF keeps_retry u]]
          show ?thesis
          proof (cases p)
            case (Returns current')
            have "pump_provider_events cfg base attempts current'
                (reset_for_retry (rq_model (op_request current')) acc) u = (s', r)"
              using "1.prems" False n t u Inl Returns \<open>q = _\<close>
              by (subst (asm) pump_provider_events.simps) simp
            then have "kept ok u s' (exit_of r)"
              using "1.IH"(1) False n t u Inl Returns \<open>q = _\<close> by (metis)
            with ku Returns show ?thesis by (auto intro: kept_trans)
          qed (use "1.prems" False n t u ku Inl \<open>q = _\<close> in
              \<open>(subst (asm) pump_provider_events.simps, auto)+\<close>)
        next
          case (Inr ev)
          obtain u p where u: "accept_event cfg ev acc t = (u, p)" by (metis surj_pair)
          note ku = kept_trans [OF kt [unfolded Returns exit_of.simps] keeps_kept [OF keeps_accept_event u]]
          show ?thesis
          proof (cases p)
            case (Returns acc')
            have "pump_provider_events cfg base attempts (current\<lparr>op_stream := rest\<rparr>) acc' u = (s', r)"
              using "1.prems" False n t u Inr Returns \<open>q = _\<close>
              by (subst (asm) pump_provider_events.simps) simp
            then have "kept ok u s' (exit_of r)"
              using "1.IH"(2) False n t u Inr Returns \<open>q = _\<close> by (metis)
            with ku Returns show ?thesis by (auto intro: kept_trans)
          qed (use "1.prems" False n t u ku Inr \<open>q = _\<close> in
              \<open>(subst (asm) pump_provider_events.simps, auto)+\<close>)
        qed
      qed (use "1.prems" False n t kt in \<open>(subst (asm) pump_provider_events.simps, auto)+\<close>)
    qed
  qed
qed

lemma keeps_consume: "keeps ok (consume_provider_stream cfg base attempts opened)"
  unfolding consume_provider_stream_def
  by (auto intro!: keeps_bind keeps_pump keeps_ret)

lemma surface_shape:
  "\<exists>rest. bind_run_surface cfg ml tools = bind (check_policy cfg Act_LlmCall) (\<lambda>_. rest)
     \<and> keeps ok rest"
  unfolding bind_run_surface_def compacted_for_provider_def Let_def
  by (intro exI conjI, rule refl)
    (auto intro!: keeps_bind keeps_hooks keeps_ret keeps_effective_model keeps_effective_effort
      keeps_lift keeps_prune dest: resolve_attempts_plain)

lemma keeps_response:
  assumes "ok (Exit_Fails KE_Paused) []"
  shows "keeps ok (apply_provider_response cfg ml turn resp)"
  unfolding apply_provider_response_def
  by (auto intro!: keeps_bind keeps_log_append keeps_log_append_all keeps_ret
      keeps_tool_calls [OF assms])

text \<open>A turn asks the policy about the LLM call once, first thing.\<close>

lemma turn_shape:
  assumes "ok (Exit_Fails KE_Paused) []"
  shows "\<exists>rest. stream_one_turn cfg ml tools
      = bind check_cancel (\<lambda>_. bind (check_policy cfg Act_LlmCall) (\<lambda>_. rest)) \<and> keeps ok rest"
proof -
  obtain rest where r: "bind_run_surface cfg ml tools = bind (check_policy cfg Act_LlmCall) (\<lambda>_. rest)"
    "keeps ok rest"
    using surface_shape by blast
  show ?thesis
    unfolding stream_one_turn_def r(1) bind_assoc open_stream_with_fallbacks_def
    by (intro exI conjI, rule refl)
      (auto intro!: keeps_bind r(2) keeps_check_cancel keeps_open_stream_from keeps_consume
        keeps_hooks keeps_response [OF assms])
qed

end

section \<open>The loop keeps trace properties\<close>

locale loop_invariant = run_invariant +
  assumes ok_start: "ok x []"
    and ok_llm: "ok Exit_Returns [Ob_Policy Act_LlmCall d]"
begin

lemma keeps_any_policy: "keeps ok (check_policy cfg a)"
proof -
  have "ok Exit_Returns [Ob_Policy a d]" for d
    using ok_policy ok_llm by (cases "a = Act_LlmCall") auto
  then show ?thesis
    unfolding check_policy_def ask_policy_def
    by (auto intro!: keeps_bind keeps_invoke keeps_emit keeps_ret keeps_fail
        split: policy_decision.split)
qed

lemma keeps_turn: "keeps ok (stream_one_turn cfg ml tools)"
proof -
  obtain rest where "stream_one_turn cfg ml tools
      = bind check_cancel (\<lambda>_. bind (check_policy cfg Act_LlmCall) (\<lambda>_. rest))" "keeps ok rest"
    using turn_shape [OF ok_start] by blast
  then show ?thesis by (auto intro: keeps_bind keeps_check_cancel keeps_any_policy)
qed

lemma keeps_turn_loop: "keeps ok (turn_loop cfg tools n ml)"
proof (induction n arbitrary: ml)
  case 0
  then show ?case by (intro keepsI) (auto simp: fail_def ok_start)
next
  case (Suc n)
  then show ?case
    by (auto intro!: keeps_bind keeps_check_pause keeps_turn keeps_ret ok_start split: option.split)
qed

lemma keeps_drive_inner: "keeps ok (drive_inner cfg initial)"
  unfolding drive_inner_def log_from_initial_def
  by (auto intro!: keeps_bind keeps_hooks keeps_log_append_all keeps_turn_loop)

end

section \<open>Trace properties of interest\<close>

text \<open>A tool runs only right after the policy allowed it, by the name it was asked about.\<close>

fun gated :: "obs option \<Rightarrow> obs list \<Rightarrow> bool" where
  "gated prev [] = True"
| "gated prev (ob # l) = ((case ob of
       Ob_Tool c \<Rightarrow> prev = Some (Ob_Policy (Act_ToolCall (tc_name c)) Allow)
     | _ \<Rightarrow> True) \<and> gated (Some ob) l)"

lemma gated_weaken: "gated None l \<Longrightarrow> gated p l"
  by (cases l) (auto split: obs.splits)

lemma gated_append: "gated p l \<Longrightarrow> gated None l' \<Longrightarrow> gated p (l @ l')"
  by (induction l arbitrary: p) (auto intro: gated_weaken)

text \<open>A tool that ran is answered at once: its wrapped result enters the log before anything else
  happens.\<close>

fun settled :: "obs list \<Rightarrow> bool" where
  "settled [] = True"
| "settled (ob # l) = ((case ob of
       Ob_Tool c \<Rightarrow> (case l of Ob_Append m # _ \<Rightarrow> tool_answer c m | _ \<Rightarrow> False)
     | _ \<Rightarrow> True) \<and> settled l)"

lemma settled_append: "settled l \<Longrightarrow> settled l' \<Longrightarrow> settled (l @ l')"
  by (induction l) (auto split: obs.splits list.splits)

fun is_terminal_obs :: "obs \<Rightarrow> bool" where
  "is_terminal_obs (Ob_Stop oc r) = True"
| "is_terminal_obs (Ob_Error e) = True"
| "is_terminal_obs (Ob_Sent (Inl e)) = True"
| "is_terminal_obs ob = False"

fun is_llm_obs :: "obs \<Rightarrow> bool" where
  "is_llm_obs (Ob_Policy Act_LlmCall d) = True"
| "is_llm_obs ob = False"

definition llm_calls :: "obs list \<Rightarrow> nat" where
  "llm_calls l = length (filter is_llm_obs l)"

interpretation gated: loop_invariant "\<lambda>_ l. gated None l"
  by unfold_locales (auto intro: gated_append)

interpretation settled: loop_invariant
  "\<lambda>x l. x = Exit_Returns \<or> x = Exit_Fails KE_Paused \<longrightarrow> settled l"
  by unfold_locales (auto intro: settled_append)

interpretation live: loop_invariant "\<lambda>_ l. list_all (\<lambda>ob. is_terminal_obs ob = False) l"
  by unfold_locales auto

interpretation no_llm: run_invariant
  "\<lambda>x l. llm_calls l = 0 \<and> (\<forall>n. x \<noteq> Exit_Fails (KE_MaxTurnsExceeded n))"
proof unfold_locales
  fix a d
  assume "a \<noteq> Act_LlmCall"
  then show "llm_calls [Ob_Policy a d] = 0 \<and> (\<forall>n. Exit_Returns \<noteq> Exit_Fails (KE_MaxTurnsExceeded n))"
    by (cases a) (auto simp: llm_calls_def)
qed (auto simp: llm_calls_def)

end
