(* ===== verification/Run_Guarantees.thy ===== *)
theory Run_Guarantees
  imports Run_Safety
begin

text \<open>
  What a run guarantees, whatever its hooks, tools, policy and providers do: how it ends, how many
  turns it takes, when tools run, what a pause leaves behind, and who a cancellation is attributed
  to.
\<close>

section \<open>Counting turns\<close>

lemma llm_calls_append [simp]: "llm_calls (l @ l') = llm_calls l + llm_calls l'"
  by (simp add: llm_calls_def)

lemma llm_calls_policy [simp]: "llm_calls [Ob_Policy Act_LlmCall d] = 1" "llm_calls [] = 0"
  by (simp_all add: llm_calls_def)

lemma turn_llm_calls:
  assumes "stream_one_turn cfg ml tools s = (s', r)"
  shows "\<exists>l. st_trace s' = st_trace s @ l \<and> llm_calls l \<le> 1
    \<and> (\<forall>x. r = Returns x \<longrightarrow> llm_calls l = 1) \<and> (\<forall>n. r \<noteq> Fails (KE_MaxTurnsExceeded n))"
proof -
  obtain rest where rest: "stream_one_turn cfg ml tools
      = bind check_cancel (\<lambda>_. bind (check_policy cfg Act_LlmCall) (\<lambda>_. rest))"
    "keeps (\<lambda>x l. llm_calls l = 0 \<and> (\<forall>n. x \<noteq> Exit_Fails (KE_MaxTurnsExceeded n))) rest"
    using no_llm.turn_shape [of cfg ml tools] by auto
  show ?thesis
  proof (cases "cx_cancelled (st_ctx s)")
    case True
    then show ?thesis
      using assms by (auto simp: rest(1) check_cancel_def bind_def read_def fail_def)
  next
    case False
    obtain t q where t: "check_policy cfg Act_LlmCall s = (t, q)" by (metis surj_pair)
    obtain l where l: "st_trace t = st_trace s @ l" "\<not> loop_exit (exit_of q)"
      "l = [] \<and> q = Parked \<or> (\<exists>d. l = [Ob_Policy Act_LlmCall d])"
      using check_policy_trace [OF t] by blast
    have eq: "stream_one_turn cfg ml tools s = (case q of Returns x \<Rightarrow> rest t
        | Fails e \<Rightarrow> (t, Fails e) | Parked \<Rightarrow> (t, Parked))"
      using False t by (simp add: rest(1) check_cancel_def bind_def read_def ret_def split: step.split)
    show ?thesis
    proof (cases q)
      case (Returns x)
      with eq assms have "rest t = (s', r)" by simp
      with rest(2) obtain l' where "st_trace s' = st_trace t @ l'" "llm_calls l' = 0"
        "\<forall>n. exit_of r \<noteq> Exit_Fails (KE_MaxTurnsExceeded n)"
        by (rule keepsD) blast
      with l Returns show ?thesis by (intro exI [of _ "l @ l'"]) auto
    qed (use eq assms l in auto)
  qed
qed

lemma turn_loop_llm_calls:
  assumes "turn_loop cfg tools n ml s = (s', r)"
  shows "\<exists>l. st_trace s' = st_trace s @ l \<and> llm_calls l \<le> n
    \<and> (\<forall>m. r = Fails (KE_MaxTurnsExceeded m) \<longrightarrow> m = cf_max_turns cfg \<and> llm_calls l = n)"
  using assms
proof (induction n arbitrary: ml s)
  case 0
  then show ?case by (auto simp: fail_def)
next
  case (Suc n)
  show ?case
  proof (cases "st_paused s")
    case True
    then show ?thesis
      using Suc.prems by (auto simp: check_pause_def bind_def read_def fail_def)
  next
    case False
    obtain t q where t: "stream_one_turn cfg ml tools s = (t, q)" by (metis surj_pair)
    obtain l where l: "st_trace t = st_trace s @ l" "llm_calls l \<le> 1"
      "\<forall>x. q = Returns x \<longrightarrow> llm_calls l = 1" "\<forall>n. q \<noteq> Fails (KE_MaxTurnsExceeded n)"
      using turn_llm_calls [OF t] by blast
    have eq: "turn_loop cfg tools (Suc n) ml s = (case q of
          Returns (ml', Some text) \<Rightarrow> (t, Returns text)
        | Returns (ml', None) \<Rightarrow> turn_loop cfg tools n ml' t
        | Fails e \<Rightarrow> (t, Fails e) | Parked \<Rightarrow> (t, Parked))"
      using False t
      by (simp add: check_pause_def bind_def read_def ret_def split: step.split option.split)
    show ?thesis
    proof (cases "\<exists>ml'. q = Returns (ml', None)")
      case True
      then obtain ml' where q: "q = Returns (ml', None)" by blast
      with eq Suc.prems have "turn_loop cfg tools n ml' t = (s', r)" by simp
      with Suc.IH obtain l' where "st_trace s' = st_trace t @ l'" "llm_calls l' \<le> n"
        "\<forall>m. r = Fails (KE_MaxTurnsExceeded m) \<longrightarrow> m = cf_max_turns cfg \<and> llm_calls l' = n"
        by blast
      with l q show ?thesis by (intro exI [of _ "l @ l'"]) auto
    next
      case False
      with eq Suc.prems have "s' = t" "\<forall>m. r \<noteq> Fails (KE_MaxTurnsExceeded m)"
        using l(4) by (auto split: step.splits option.splits)
      with l show ?thesis by auto
    qed
  qed
qed

text \<open>C3: a run is bounded. It asks for at most \<open>max_turns\<close> LLM calls, and it ends with
  \<open>MaxTurnsExceeded\<close> only after exactly that many.\<close>

theorem run_turns_bounded:
  "\<exists>l. st_trace (fst (drive_inner cfg initial s)) = st_trace s @ l \<and> llm_calls l \<le> cf_max_turns cfg
     \<and> (case snd (drive_inner cfg initial s) of
          Fails (KE_MaxTurnsExceeded n) \<Rightarrow> n = cf_max_turns cfg \<and> llm_calls l = n
        | _ \<Rightarrow> True)"
proof -
  define start where "start = bind (apply_on_session_start (cf_hooks cfg))
      (\<lambda>_. log_from_initial cfg initial)"
  have start: "keeps (\<lambda>x l. llm_calls l = 0 \<and> (\<forall>n. x \<noteq> Exit_Fails (KE_MaxTurnsExceeded n))) start"
    unfolding start_def log_from_initial_def
    by (intro no_llm.keeps_bind no_llm.keeps_hooks no_llm.keeps_log_append_all)
  have eq: "drive_inner cfg initial
      = bind start (turn_loop cfg (tool_defs (cf_tools cfg)) (cf_max_turns cfg))"
    by (simp add: drive_inner_def start_def bind_assoc)
  obtain t q where t: "start s = (t, q)" by (metis surj_pair)
  with start obtain l where l: "st_trace t = st_trace s @ l" "llm_calls l = 0"
    "\<forall>n. exit_of q \<noteq> Exit_Fails (KE_MaxTurnsExceeded n)"
    by (rule keepsD) blast
  show ?thesis
  proof (cases q)
    case (Returns ml)
    obtain u r where u: "turn_loop cfg (tool_defs (cf_tools cfg)) (cf_max_turns cfg) ml t = (u, r)"
      by (metis surj_pair)
    obtain l' where "st_trace u = st_trace t @ l'" "llm_calls l' \<le> cf_max_turns cfg"
      "\<forall>m. r = Fails (KE_MaxTurnsExceeded m) \<longrightarrow> m = cf_max_turns cfg \<and> llm_calls l' = cf_max_turns cfg"
      using turn_loop_llm_calls [OF u] by blast
    with l t u Returns show ?thesis
      by (intro exI [of _ "l @ l'"]) (auto simp: eq bind_def split: step.split kernel_error.split)
  qed (use l t in \<open>auto simp: eq bind_def split: kernel_error.split\<close>)
qed

section \<open>How a run ends\<close>

lemma call_on_stop_trace:
  assumes "call_on_stop oc h s = (s', r)"
  shows "st_trace s' = st_trace s @ [Ob_Stop oc (cx_cancel_reason (st_ctx s))]
    \<and> state_le s s' \<and> (r = Returns () \<or> r = Parked)"
proof -
  define t where "t = s\<lparr>st_trace := st_trace s @ [Ob_Stop oc (cx_cancel_reason (st_ctx s))]\<rparr>"
  have "invoke (hk_on_stop h oc) t = (s', r)"
    using assms by (simp add: call_on_stop_def bind_def read_def emit_def t_def)
  then show ?thesis
    using invoke_le [where f = "hk_on_stop h oc" and s = t] by (cases r) (auto simp: t_def)
qed

lemma call_on_error_trace:
  assumes "call_on_error err h s = (s', r)"
  shows "st_trace s' = st_trace s @ [Ob_Error err] \<and> state_le s s' \<and> (r = Returns () \<or> r = Parked)"
proof -
  define t where "t = s\<lparr>st_trace := st_trace s @ [Ob_Error err]\<rparr>"
  have "invoke (hk_on_error h err) t = (s', r)"
    using assms by (simp add: call_on_error_def bind_def emit_def t_def)
  then show ?thesis
    using invoke_le [where f = "hk_on_error h err" and s = t] by (cases r) (auto simp: t_def)
qed

lemma reason_le: "state_le s t \<Longrightarrow> opt_le (cx_cancel_reason (st_ctx s)) (cx_cancel_reason (st_ctx t))"
  by (simp add: state_le_def ctx_le_def)

lemma apply_on_stop_trace:
  assumes "apply_on_stop hs oc s = (s', r)"
  shows "\<exists>qs. st_trace s' = st_trace s @ map (Ob_Stop oc) qs
    \<and> list_all (opt_le (cx_cancel_reason (st_ctx s))) qs \<and> state_le s s'
    \<and> (r = Returns () \<and> length qs = length hs \<or> r = Parked \<and> length qs \<le> length hs)"
  using assms unfolding apply_on_stop_def
proof (induction hs arbitrary: s)
  case Nil
  then show ?case by (auto simp: ret_def)
next
  case (Cons h hs)
  obtain t q where t: "call_on_stop oc h s = (t, q)" by (metis surj_pair)
  note t' = call_on_stop_trace [OF t]
  show ?case
  proof (cases "q = Returns ()")
    case True
    with Cons.prems t have "apply_terminal (call_on_stop oc) hs t = (s', r)" by (simp add: bind_def)
    from Cons.IH [OF this] obtain qs where qs: "st_trace s' = st_trace t @ map (Ob_Stop oc) qs"
      "list_all (opt_le (cx_cancel_reason (st_ctx t))) qs" "state_le t s'"
      "r = Returns () \<and> length qs = length hs \<or> r = Parked \<and> length qs \<le> length hs" by blast
    have "opt_le (cx_cancel_reason (st_ctx s)) (cx_cancel_reason (st_ctx t))"
      using t' reason_le by blast
    with qs(2) have "list_all (opt_le (cx_cancel_reason (st_ctx s))) qs"
      by (auto simp: list_all_iff intro: opt_le_trans)
    moreover have "state_le s s'" using t' qs(3) state_le_trans by blast
    ultimately show ?thesis
      using t' qs by (intro exI [of _ "cx_cancel_reason (st_ctx s) # qs"]) auto
  next
    case False
    with t' Cons.prems t have "s' = t" "r = Parked" by (auto simp: bind_def)
    with t' show ?thesis by (intro exI [of _ "[cx_cancel_reason (st_ctx s)]"]) auto
  qed
qed

lemma apply_on_error_trace:
  assumes "apply_on_error hs err s = (s', r)"
  shows "\<exists>n. st_trace s' = st_trace s @ replicate n (Ob_Error err) \<and> state_le s s'
    \<and> (r = Returns () \<and> n = length hs \<or> r = Parked \<and> n \<le> length hs)"
  using assms unfolding apply_on_error_def
proof (induction hs arbitrary: s)
  case Nil
  then show ?case by (auto simp: ret_def)
next
  case (Cons h hs)
  obtain t q where t: "call_on_error err h s = (t, q)" by (metis surj_pair)
  note t' = call_on_error_trace [OF t]
  show ?case
  proof (cases "q = Returns ()")
    case True
    with Cons.prems t have "apply_terminal (call_on_error err) hs t = (s', r)" by (simp add: bind_def)
    from Cons.IH [OF this] obtain n where n: "st_trace s' = st_trace t @ replicate n (Ob_Error err)"
      "state_le t s'" "r = Returns () \<and> n = length hs \<or> r = Parked \<and> n \<le> length hs" by blast
    then have "state_le s s'" using t' state_le_trans by blast
    then show ?thesis using t' n by (intro exI [of _ "Suc n"]) auto
  next
    case False
    with t' Cons.prems t have "s' = t" "r = Parked" by (auto simp: bind_def)
    with t' show ?thesis by (intro exI [of _ "Suc 0"]) auto
  qed
qed

text \<open>The last act of a run: \<open>on_stop\<close> on every hook, then the terminal item.\<close>

definition stop_and_send :: "'w stream_cfg \<Rightarrow> outcome \<Rightarrow> stream_item \<Rightarrow> ('w, unit) run" where
  "stop_and_send cfg oc item = bind (apply_on_stop (cf_hooks cfg) oc) (\<lambda>_.
     bind (send_stream_item (cf_tx cfg) item) (\<lambda>_. ret ()))"

text \<open>Every hook is told the outcome, then at most one item is sent; a driver parked on the way
  has told at most all of them.\<close>

definition ends_with ::
  "nat \<Rightarrow> outcome \<Rightarrow> cancel_reason option \<Rightarrow> obs list \<Rightarrow> unit step \<Rightarrow> bool" where
  "ends_with n oc reason l r \<longleftrightarrow> (\<exists>qs fin. l = map (Ob_Stop oc) qs @ fin
     \<and> list_all (opt_le reason) qs \<and> length fin \<le> 1 \<and> set fin \<subseteq> range Ob_Sent
     \<and> (r = Returns () \<and> length qs = n \<or> r = Parked \<and> length qs \<le> n \<and> fin = []))"

lemma stop_and_send_trace:
  assumes "stop_and_send cfg oc item s = (s', r)"
  shows "\<exists>l. st_trace s' = st_trace s @ l \<and> state_le s s'
    \<and> ends_with (length (cf_hooks cfg)) oc (cx_cancel_reason (st_ctx s)) l r"
proof -
  obtain t q where t: "apply_on_stop (cf_hooks cfg) oc s = (t, q)" by (metis surj_pair)
  obtain qs where qs: "st_trace t = st_trace s @ map (Ob_Stop oc) qs"
    "list_all (opt_le (cx_cancel_reason (st_ctx s))) qs" "state_le s t"
    "q = Returns () \<and> length qs = length (cf_hooks cfg)
     \<or> q = Parked \<and> length qs \<le> length (cf_hooks cfg)"
    using apply_on_stop_trace [OF t] by blast
  show ?thesis
  proof (cases "q = Returns ()")
    case True
    obtain u p where u: "send_stream_item (cf_tx cfg) item t = (u, p)" by (metis surj_pair)
    note u' = send_cases [OF u]
    have "s' = u" "r = (if p = Parked then Parked else Returns ())"
      using assms t True u u' by (auto simp: stop_and_send_def bind_def ret_def)
    moreover obtain fin where "st_trace u = st_trace t @ fin" "length fin \<le> 1"
      "set fin \<subseteq> range Ob_Sent" "p = Parked \<Longrightarrow> fin = []"
      using u' by auto
    moreover have "state_le s u" using qs(3) u' state_le_trans by blast
    ultimately show ?thesis
      using qs True by (intro exI [of _ "map (Ob_Stop oc) qs @ fin"]) (auto simp: ends_with_def)
  next
    case False
    with qs have "s' = t" "r = Parked" using assms t by (auto simp: stop_and_send_def bind_def)
    with qs False show ?thesis
      by (intro exI [of _ "map (Ob_Stop oc) qs"]) (auto simp: ends_with_def)
  qed
qed

text \<open>The attribution a cancelled run ends with: what the cell holds, or the shutdown.\<close>

definition attributed :: "kernel_error \<Rightarrow> 'w run_state \<Rightarrow> cancel_reason option" where
  "attributed err s = (let cell = cx_cancel_reason (st_ctx s)
     in if err = KE_Cancelled \<and> st_shutdown s then Some (unwrap_or Shutdown cell) else cell)"

lemma stamp_shutdown_step:
  "\<exists>t. stamp_shutdown err s = (t, Returns ()) \<and> st_trace t = st_trace s \<and> state_le s t
     \<and> cx_cancel_reason (st_ctx t) = attributed err s"
proof -
  have "state_le s (on_ctx (fst \<circ> set_cancel_reason Shutdown) s)"
    using apply_op_le [of s "Set_Cancel_Reason Shutdown"] by simp
  moreover have "cx_cancel_reason (fst (set_cancel_reason Shutdown (st_ctx s)))
      = Some (unwrap_or Shutdown (cx_cancel_reason (st_ctx s)))"
    by (cases "cx_cancel_reason (st_ctx s)") (simp_all add: set_cancel_reason_def once_set_def)
  ultimately show ?thesis
    by (simp add: stamp_shutdown_def attributed_def Let_def on_ctx_def)
qed

lemma finish_error_trace:
  assumes "finish_error cfg err s = (s', r)"
  shows "\<exists>k l. st_trace s' = st_trace s @ replicate k (Ob_Error err) @ l \<and> state_le s s'
    \<and> ends_with (length (cf_hooks cfg)) (outcome_for_error err) (attributed err s) l r
    \<and> k \<le> (if is_errored (outcome_for_error err) then length (cf_hooks cfg) else 0)
    \<and> (r = Returns () \<longrightarrow>
         k = (if is_errored (outcome_for_error err) then length (cf_hooks cfg) else 0))"
proof -
  let ?oc = "outcome_for_error err" and ?hs = "cf_hooks cfg"
  let ?tell = "if is_errored ?oc then apply_on_error ?hs err else ret ()"
  obtain t where t: "stamp_shutdown err s = (t, Returns ())" "st_trace t = st_trace s" "state_le s t"
    "cx_cancel_reason (st_ctx t) = attributed err s"
    using stamp_shutdown_step by blast
  obtain u q where u: "?tell t = (u, q)" by (metis surj_pair)
  obtain k where k: "st_trace u = st_trace t @ replicate k (Ob_Error err)" "state_le t u"
    "q = Returns () \<and> k = (if is_errored ?oc then length ?hs else 0)
     \<or> q = Parked \<and> k \<le> (if is_errored ?oc then length ?hs else 0)"
    using apply_on_error_trace [of ?hs err t u q] u
    by (cases "is_errored ?oc") (auto simp: ret_def)
  have fe: "finish_error cfg err s = bind ?tell (\<lambda>_. stop_and_send cfg ?oc (Inl err)) t"
  proof -
    have "finish_error cfg err = bind (stamp_shutdown err) (\<lambda>_. bind ?tell (\<lambda>_. stop_and_send cfg ?oc (Inl err)))"
      by (simp only: finish_error_def stop_and_send_def Let_def)
    then show ?thesis using t(1) by (simp add: bind_def [of "stamp_shutdown err"])
  qed
  show ?thesis
  proof (cases "q = Returns ()")
    case True
    with fe u assms have v: "stop_and_send cfg ?oc (Inl err) u = (s', r)" by (simp add: bind_def)
    obtain l where l: "st_trace s' = st_trace u @ l" "state_le u s'"
      "ends_with (length ?hs) ?oc (cx_cancel_reason (st_ctx u)) l r"
      using stop_and_send_trace [OF v] by blast
    have "opt_le (attributed err s) (cx_cancel_reason (st_ctx u))"
      using reason_le [OF k(2)] t(4) by simp
    with l(3) have "ends_with (length ?hs) ?oc (attributed err s) l r"
      by (fastforce simp: ends_with_def list_all_iff intro: opt_le_trans)
    moreover have "state_le s s'" using t(3) k(2) l(2) state_le_trans by blast
    ultimately show ?thesis using l(1) k t(2) True by (intro exI [of _ k] exI [of _ l]) auto
  next
    case False
    with k fe u assms have "s' = u" "r = Parked" by (auto simp: bind_def)
    moreover have "ends_with (length ?hs) ?oc (attributed err s) [] Parked"
      by (auto simp: ends_with_def)
    moreover have "state_le s u" using t(3) k(2) state_le_trans by blast
    ultimately show ?thesis using k False t(2) by (intro exI [of _ k] exI [of _ "[]"]) auto
  qed
qed

lemma finish_success_trace:
  assumes "finish_success cfg text s = (s', r)"
  shows "\<exists>l. st_trace s' = st_trace s @ l \<and> state_le s s'
    \<and> ends_with (length (cf_hooks cfg)) (Completed text) (cx_cancel_reason (st_ctx s)) l r"
proof -
  obtain t q where t: "prepare_event (cf_hooks cfg) (Final text) s = (t, q)" by (metis surj_pair)
  have t': "st_trace t = st_trace s" "state_le s t"
    using silent.keeps_prepare_event t by (rule silentE; blast)+
  consider "q = Parked" "s' = t" "r = Parked"
    | item where "stop_and_send cfg (Completed text) item t = (s', r)"
    using t assms by (cases q) (auto simp: finish_success_def stop_and_send_def)
  then show ?thesis
  proof cases
    case 1
    then show ?thesis using t' by (intro exI [of _ "[]"]) (simp add: ends_with_def)
  next
    case 2
    obtain l where l: "st_trace s' = st_trace t @ l" "state_le t s'"
      "ends_with (length (cf_hooks cfg)) (Completed text) (cx_cancel_reason (st_ctx t)) l r"
      using stop_and_send_trace [OF 2] by blast
    have "ends_with (length (cf_hooks cfg)) (Completed text) (cx_cancel_reason (st_ctx s)) l r"
      using l(3) reason_le [OF t'(2)]
      by (fastforce simp: ends_with_def list_all_iff intro: opt_le_trans)
    then show ?thesis using l t' state_le_trans by (metis)
  qed
qed

lemma ends_withE:
  assumes "ends_with n oc reason l r"
  obtains qs fin where "l = map (Ob_Stop oc) qs @ fin" "length fin \<le> 1" "set fin \<subseteq> range Ob_Sent"
    "case r of Returns _ \<Rightarrow> length qs = n | Parked \<Rightarrow> length qs \<le> n \<and> fin = [] | Fails e \<Rightarrow> False"
proof -
  from assms obtain qs fin where "l = map (Ob_Stop oc) qs @ fin" "length fin \<le> 1"
    "set fin \<subseteq> range Ob_Sent" "r = Returns () \<and> length qs = n \<or> r = Parked \<and> length qs \<le> n \<and> fin = []"
    unfolding ends_with_def by blast
  then show thesis by (intro that [of qs fin]) auto
qed

text \<open>The outcome a run reports: what the loop returned or raised, or \<open>Cancelled\<close> when the driver
  dropped it.\<close>

definition run_outcome :: "'w stream_cfg \<Rightarrow> message list \<Rightarrow> 'w run_state \<Rightarrow> outcome" where
  "run_outcome cfg initial s =
     (if cx_cancelled (st_ctx s) \<or> st_closed s then Cancelled
      else case snd (drive_inner cfg initial s) of
        Returns text \<Rightarrow> Completed text
      | Fails err \<Rightarrow> outcome_for_error err
      | Parked \<Rightarrow> Cancelled)"

text \<open>The driver either stays parked or goes through one of the two finishing steps.\<close>

lemma drive_stream_cases:
  assumes "drive_stream cfg initial s = (s', r)"
  obtains (parked) "drive_inner cfg initial s = (s', Parked)" "r = Parked"
  | (ended) t answer_text where "drive_inner cfg initial s = (t, Returns answer_text)"
      "finish_success cfg answer_text t = (s', r)" "run_outcome cfg initial s = Completed answer_text"
  | (error) t err where "t = s \<or> fst (drive_inner cfg initial s) = t" "finish_error cfg err t = (s', r)"
      "run_outcome cfg initial s = outcome_for_error err"
proof (cases "cx_cancelled (st_ctx s) \<or> st_closed s")
  case True
  then show thesis
    using assms that(3) [of s KE_Cancelled]
    by (auto simp: drive_stream_def run_outcome_def outcome_for_error_def)
next
  case False
  obtain t q where t: "drive_inner cfg initial s = (t, q)" by (metis surj_pair)
  show thesis
  proof (cases q)
    case (Returns answer_text)
    then show thesis using False t assms that(2) by (simp add: drive_stream_def run_outcome_def)
  next
    case (Fails err)
    then show thesis
      using False t assms that(3) [of t err] by (simp add: drive_stream_def run_outcome_def)
  next
    case Parked
    then show thesis
      using False t assms that(1) that(3) [of t KE_Cancelled]
      by (auto simp: drive_stream_def run_outcome_def outcome_for_error_def split: if_splits)
  qed
qed

section \<open>Properties\<close>

text \<open>C1: every run ends exactly once, and its observers learn of the outcome before its consumer
  does. Unless the driver task is stuck or aborted, each hook gets exactly one \<open>on_stop\<close>, all with
  the outcome the loop reached, after everything else the run did and before the one terminal item;
  \<open>on_error\<close> precedes it for exactly the outcomes that are errors. Nothing terminal happens
  earlier.\<close>

theorem run_ends_once:
  "\<exists>pre errs qs fin. st_trace (fst (drive_stream cfg initial s))
        = st_trace s @ pre @ map Ob_Error errs
            @ map (Ob_Stop (run_outcome cfg initial s)) qs @ fin
     \<and> list_all (\<lambda>ob. is_terminal_obs ob = False) pre
     \<and> length fin \<le> 1 \<and> set fin \<subseteq> range Ob_Sent
     \<and> (case snd (drive_stream cfg initial s) of
          Returns _ \<Rightarrow> length qs = length (cf_hooks cfg)
            \<and> length errs = (if is_errored (run_outcome cfg initial s)
                            then length (cf_hooks cfg) else 0)
        | Parked \<Rightarrow> length qs \<le> length (cf_hooks cfg) \<and> fin = []
        | Fails e \<Rightarrow> False)"
proof -
  obtain s' r where d: "drive_stream cfg initial s = (s', r)" by (metis surj_pair)
  have inner: "\<exists>pre. st_trace t = st_trace s @ pre \<and> list_all (\<lambda>ob. is_terminal_obs ob = False) pre"
    if "t = s \<or> fst (drive_inner cfg initial s) = t" for t
    using that
  proof
    assume "fst (drive_inner cfg initial s) = t"
    then have "drive_inner cfg initial s = (t, snd (drive_inner cfg initial s))" by auto
    with live.keeps_drive_inner show ?thesis by (rule keepsD) blast
  qed auto
  from d show ?thesis
  proof (cases rule: drive_stream_cases)
    case parked
    then obtain pre where "st_trace s' = st_trace s @ pre" "list_all (\<lambda>ob. is_terminal_obs ob = False) pre"
      using inner [of s'] by auto
    then show ?thesis
      using d parked by (intro exI [of _ pre] exI [of _ "[]"]) simp
  next
    case (ended t answer_text)
    obtain pre where "st_trace t = st_trace s @ pre" "list_all (\<lambda>ob. is_terminal_obs ob = False) pre"
      using inner [of t] ended(1) by auto
    moreover obtain l where "st_trace s' = st_trace t @ l"
      "ends_with (length (cf_hooks cfg)) (Completed answer_text) (cx_cancel_reason (st_ctx t)) l r"
      using finish_success_trace [OF ended(2)] by blast
    moreover obtain qs fin where "l = map (Ob_Stop (Completed answer_text)) qs @ fin"
      "length fin \<le> 1" "set fin \<subseteq> range Ob_Sent" "case r of Returns _ \<Rightarrow> length qs = length (cf_hooks cfg)
        | Parked \<Rightarrow> length qs \<le> length (cf_hooks cfg) \<and> fin = [] | Fails e \<Rightarrow> False"
      using calculation(4) by (rule ends_withE)
    ultimately show ?thesis
      using d ended(3) by (intro exI [of _ pre] exI [of _ "[]"] exI [of _ qs] exI [of _ fin])
        (auto simp: is_errored_def split: step.splits)
  next
    case (error t err)
    obtain pre where "st_trace t = st_trace s @ pre" "list_all (\<lambda>ob. is_terminal_obs ob = False) pre"
      using inner [OF error(1)] by auto
    moreover obtain k l where "st_trace s' = st_trace t @ replicate k (Ob_Error err) @ l"
      "ends_with (length (cf_hooks cfg)) (outcome_for_error err) (attributed err t) l r"
      "r = Returns () \<longrightarrow>
         k = (if is_errored (outcome_for_error err) then length (cf_hooks cfg) else 0)"
      using finish_error_trace [OF error(2)] by blast
    moreover obtain qs fin where "l = map (Ob_Stop (outcome_for_error err)) qs @ fin"
      "length fin \<le> 1" "set fin \<subseteq> range Ob_Sent" "case r of Returns _ \<Rightarrow> length qs = length (cf_hooks cfg)
        | Parked \<Rightarrow> length qs \<le> length (cf_hooks cfg) \<and> fin = [] | Fails e \<Rightarrow> False"
      using calculation(4) by (rule ends_withE)
    ultimately show ?thesis
      using d error(3)
      by (intro exI [of _ pre] exI [of _ "replicate k err"] exI [of _ qs] exI [of _ fin])
        (auto simp: map_replicate split: step.splits)
  qed
qed


text \<open>C2: the policy gates every tool. Throughout a run, a tool executes only directly after the
  policy allowed a call of that tool, and every allowed execution needs its own decision.\<close>

theorem tools_run_only_when_allowed:
  "\<exists>l. st_trace (fst (drive_inner cfg initial s)) = st_trace s @ l \<and> gated None l"
proof -
  have "drive_inner cfg initial s = (fst (drive_inner cfg initial s), snd (drive_inner cfg initial s))"
    by simp
  with gated.keeps_drive_inner show ?thesis by (rule keepsD) blast
qed

text \<open>C4: a pause leaves a clean log. A run ends paused only when a pause was requested, and then
  every tool it started has answered, with the answer wrapped in boundary tags in the log: a pause
  never interrupts a tool. The same holds of a run that completes.\<close>

theorem pause_is_clean:
  "\<exists>l. st_trace (fst (drive_inner cfg initial s)) = st_trace s @ l
     \<and> (case snd (drive_inner cfg initial s) of
          Fails KE_Paused \<Rightarrow> st_paused (fst (drive_inner cfg initial s)) \<and> settled l
        | Returns text \<Rightarrow> settled l
        | _ \<Rightarrow> True)"
proof -
  obtain s' r where d: "drive_inner cfg initial s = (s', r)" by (metis surj_pair)
  with settled.keeps_drive_inner obtain l where l: "st_trace s' = st_trace s @ l"
    "exit_of r = Exit_Returns \<or> exit_of r = Exit_Fails KE_Paused \<longrightarrow> settled l"
    "r = Fails KE_Paused \<Longrightarrow> st_paused s'"
    by (rule keepsD) blast
  show ?thesis
    using d l by (cases r) (auto split: kernel_error.split intro!: exI [of _ l])
qed

text \<open>Shared state only grows during a run: session id, overrides and cancel reason are
  written at most once, fired tokens stay fired, and the identity of the run never changes.\<close>

theorem run_state_grows: "state_le s (fst (drive_stream cfg initial s))"
proof -
  obtain s' r where d: "drive_stream cfg initial s = (s', r)" by (metis surj_pair)
  have inner: "state_le s t" if "t = s \<or> fst (drive_inner cfg initial s) = t" for t
    using that
  proof
    assume "fst (drive_inner cfg initial s) = t"
    then have "drive_inner cfg initial s = (t, snd (drive_inner cfg initial s))" by auto
    with gated.keeps_drive_inner show ?thesis by (rule keepsD) blast
  qed auto
  from d have "state_le s s'"
  proof (cases rule: drive_stream_cases)
    case parked
    then show ?thesis by (simp add: inner)
  next
    case (ended t answer_text)
    then show ?thesis
      using inner [of t] finish_success_trace [OF ended(2)] state_le_trans by auto
  next
    case (error t err)
    then show ?thesis
      using inner [OF error(1)] finish_error_trace [OF error(2)] state_le_trans by blast
  qed
  then show ?thesis by (simp add: d)
qed

text \<open>C7: failures of a tool call. Whatever the tool and the policy do, the call is answered under
  its own id, or the run stops because the tool was cancelled or failed to execute; a denied,
  unknown, forbidden or malformed call never stops the run.\<close>

theorem tool_failures_classified:
  "case snd (resolve_tool_call cfg call model effort s) of
     Returns res \<Rightarrow> tr_call_id res = tc_id call
   | Fails e \<Rightarrow> e \<in> {KE_Cancelled} \<union> range (KE_Tool \<circ> TE_Execution) \<union> range (KE_Tool \<circ> TE_Io)
   | Parked \<Rightarrow> True"
proof -
  obtain t q where t: "ask_policy cfg (Act_ToolCall (tc_name call)) s = (t, q)" by (metis surj_pair)
  obtain u p where u: "dispatch_tool cfg call model effort t = (u, p)" by (metis surj_pair)
  have p: "case p of Returns res \<Rightarrow> tr_call_id res = tc_id call | Fails e \<Rightarrow> e \<in> range KE_Tool | Parked \<Rightarrow> True"
  proof -
    have "case snd (dispatch_tool cfg call model effort t) of
        Returns res \<Rightarrow> tr_call_id res = tc_id call | Fails e \<Rightarrow> e \<in> range KE_Tool | Parked \<Rightarrow> True"
    proof (cases "find (\<lambda>t. tl_name t = tc_name call) (cf_tools cfg)")
      case (Some tl)
      define v where "v = t\<lparr>st_trace := st_trace t @ [Ob_Tool call]\<rparr>"
      obtain w x where w: "invoke (execute_tool tl call model effort) v = (w, x)" by (metis surj_pair)
      have "x \<noteq> Fails e" for e
        using invoke_le(3) [where f = "execute_tool tl call model effort" and s = v] by (simp add: w)
      then show ?thesis
        using w by (cases x) (auto simp: dispatch_tool_def Some bind_def emit_def v_def fail_def
            ret_def with_call_id_def split: sum.split)
    qed (simp add: dispatch_tool_def fail_def)
    then show ?thesis by (simp add: u)
  qed
  show ?thesis
  proof (cases q)
    case (Returns d)
    then show ?thesis
      using t u p
      by (cases d) (auto simp: resolve_tool_call_def Let_def bind_def ret_def fail_def
          with_call_id_def soft_error_def split: step.splits tool_error.splits kernel_error.splits)
  next
    case (Fails e)
    then show ?thesis using t by (auto elim: ask_policy_cases)
  next
    case Parked
    then show ?thesis using t by (simp add: resolve_tool_call_def Let_def bind_def)
  qed
qed

section \<open>Pruning the chain\<close>

definition flyable :: "'w fallback_env \<Rightarrow> nat \<Rightarrow> resolved_model \<Rightarrow> bool" where
  "flyable env i a \<longleftrightarrow> isl (preflight_attempt env a (attempt_kind_for_index i)) = False"

lemma preflight_one_flyable:
  "preflight_one cfg env a i checked s = (s', Returns c) \<Longrightarrow> flyable env i a"
  by (cases "preflight_attempt env a (attempt_kind_for_index i)")
    (auto simp: preflight_one_def flyable_def fail_def)

lemma survival_loop_mask:
  "survival_loop cfg env xs checked s = (s', Returns bs) \<Longrightarrow>
     list_all2 (\<lambda>x b. (b \<longrightarrow> flyable env (fst x) (snd x)) \<and> (fst x = 0 \<longrightarrow> b)) xs bs"
proof (induction xs arbitrary: checked s bs)
  case Nil
  then show ?case by (simp add: ret_def)
next
  case (Cons x xs)
  obtain i a where x: "x = (i, a)" by (cases x)
  obtain t q where t: "preflight_one cfg env a i checked s = (t, q)" by (metis surj_pair)
  have step: "\<exists>bs'. bs = b # bs' \<and> list_all2 (\<lambda>x b. (b \<longrightarrow> flyable env (fst x) (snd x)) \<and> (fst x = 0 \<longrightarrow> b)) xs bs'"
    if "bind (survival_loop cfg env xs c) (\<lambda>bs. ret (b # bs)) t = (s', Returns bs)" for c b
    using that Cons.IH [of c t] by (auto simp: bind_def ret_def split: prod.splits step.splits)
  show ?case
  proof (cases q)
    case (Returns c)
    then show ?thesis
      using Cons.prems t step [of c True] preflight_one_flyable by (fastforce simp: x)
  next
    case (Fails e)
    then show ?thesis
      using Cons.prems t step [of checked False] by (auto simp: x split: if_splits)
  next
    case Parked
    then show ?thesis using Cons.prems t by (simp add: x)
  qed
qed

lemma resolve_attempts_nonempty:
  "resolve_attempts r p fs = Inr xs \<Longrightarrow> \<exists>a as. xs = a # as"
  by (cases xs) (auto simp: resolve_attempts_def and_then_Inr)

lemma preflight_attempt_cong:
  assumes "fe_providers env = fe_providers env'" "fe_registry env = fe_registry env'"
    "fe_base env = fe_base env'"
  shows "preflight_attempt env a k = preflight_attempt env' a k"
  by (simp only: preflight_attempt_def assms)

lemma flyable_env_cong:
  assumes "sf_req sf = sf_req sf'"
  shows "flyable (fallback_env_of cfg sf tx) i a = flyable (fallback_env_of cfg sf' tx') i a"
proof -
  have "preflight_attempt (fallback_env_of cfg sf tx) a k = preflight_attempt (fallback_env_of cfg sf' tx') a k"
    for k
    by (rule preflight_attempt_cong) (simp_all add: fallback_env_of_def assms)
  then show ?thesis by (simp only: flyable_def)
qed

lemma pruned_attempts:
  assumes "prune_unflyable_fallbacks cfg sf s = (s', Returns sf')" "sf_attempts sf = a # as"
  shows "\<exists>as'. sf_attempts sf' = a # as' \<and> sf_req sf' = sf_req sf
    \<and> flyable (fallback_env_of cfg sf None) 0 a \<and> (\<forall>x\<in>set as'. flyable (fallback_env_of cfg sf None) 1 x)"
proof -
  obtain bs where bs: "survival_loop cfg (fallback_env_of cfg sf None) (enumerate 0 (a # as)) [] s = (s', Returns bs)"
    "sf' = sf\<lparr>sf_attempts := map fst (filter snd (zip (a # as) bs))\<rparr>"
    using assms
    by (auto simp: prune_unflyable_fallbacks_def decide_attempt_survival_def bind_def ret_def
        simp del: enumerate_simps split: prod.splits step.splits)
  note mask = survival_loop_mask [OF bs(1)]
  then obtain bs' where b: "bs = True # bs'" "flyable (fallback_env_of cfg sf None) 0 a"
    "list_all2 (\<lambda>x b. (b \<longrightarrow> flyable (fallback_env_of cfg sf None) (fst x) (snd x)) \<and> (fst x = 0 \<longrightarrow> b))
       (enumerate 1 as) bs'"
    by (cases bs) auto
  have "flyable (fallback_env_of cfg sf None) 1 x" if "x \<in> set (map fst (filter snd (zip as bs')))" for x
  proof -
    from that obtain j where j: "j < length as" "j < length bs'" "as ! j = x" "bs' ! j"
      by (auto simp: set_zip)
    with b(3) have "flyable (fallback_env_of cfg sf None) (1 + j) x"
      by (auto simp: list_all2_conv_all_nth nth_enumerate_eq)
    then show ?thesis by (simp add: flyable_def attempt_kind_for_index_def)
  qed
  then show ?thesis using bs(2) b by auto
qed

text \<open>After the pre-flight, no attempt of a turn can fail its checks any more: the primary is
  still first, and every attempt left is qualified, served by a registered provider, and within
  the tool limit and the capabilities of its provider and model. A failing fallback was removed, a
  failing primary ended the turn.\<close>

theorem surviving_attempts_fly:
  "case snd (bind_run_surface cfg ml tools s) of
     Returns (ml', sf) \<Rightarrow> sf_attempts sf \<noteq> []
       \<and> list_all (\<lambda>(i, a). isl (preflight_attempt (fallback_env_of cfg sf tx) a
             (attempt_kind_for_index i)) = False) (enumerate 0 (sf_attempts sf))
   | _ \<Rightarrow> True"
proof (cases "snd (bind_run_surface cfg ml tools s)")
  case (Returns res)
  obtain ml' sf where res: "res = (ml', sf)" by (cases res)
  from Returns obtain s' where "bind_run_surface cfg ml tools s = (s', Returns (ml', sf))"
    by (metis prod.collapse res)
  then obtain t u sf0 p fs where sf0: "prune_unflyable_fallbacks cfg sf0 t = (u, Returns sf)"
    "resolve_attempts (cf_models cfg) p fs = Inr (sf_attempts sf0)"
    by (auto simp: bind_run_surface_def Let_def bind_def ret_def lift_result_def fail_def
        split: prod.splits step.splits sum.splits)
  then obtain a as where a: "sf_attempts sf0 = a # as"
    using resolve_attempts_nonempty by blast
  obtain as' where as': "sf_attempts sf = a # as'" "sf_req sf = sf_req sf0"
    "flyable (fallback_env_of cfg sf0 None) 0 a" "\<forall>x\<in>set as'. flyable (fallback_env_of cfg sf0 None) 1 x"
    using pruned_attempts [OF sf0(1) a] by blast
  have fly: "flyable (fallback_env_of cfg sf tx) i x = flyable (fallback_env_of cfg sf0 None) i x" for i x
    by (rule flyable_env_cong) (rule as'(2))
  have "flyable (fallback_env_of cfg sf tx) i x" if "(i, x) \<in> set (enumerate 1 as')" for i x
  proof -
    from that have "x \<in> set as'" "0 < i" by (auto simp: in_set_enumerate_eq)
    have "flyable (fallback_env_of cfg sf tx) i x = flyable (fallback_env_of cfg sf0 None) i x"
      by (rule fly)
    also have "\<dots> = flyable (fallback_env_of cfg sf0 None) 1 x"
      using \<open>0 < i\<close> by (simp add: flyable_def attempt_kind_for_index_def)
    finally show ?thesis using as'(4) \<open>x \<in> set as'\<close> by blast
  qed
  then show ?thesis
    using as'(1,3) fly by (auto simp: Returns res list_all_iff flyable_def)
qed simp_all

end
