(* ===== verification/Store_Base.thy ===== *)
theory Store_Base
  imports Core_Types
begin

text \<open>
  What the store components share: the error enum (\<open>crabgent-store/src/error.rs\<close>), pagination
  (\<open>page.rs\<close>), and the lease protocol: an interface for stores that hand out work items, whose law
  is that an item handed out is not handed out again before it is released. The cron store's
  \<open>claim_due\<close> and the task store's \<open>claim_for_resume\<close> both provide it.

  The in-memory stores hold their maps behind a mutex. Each operation runs under the lock from
  start to end, so it is one atomic step on the map; a poisoned mutex (a panic under the lock) is
  not modelled.
\<close>

section \<open>Errors\<close>

datatype store_error =
    SE_NotFound
  | SE_Conflict string
  | SE_Transient string
  | SE_Invalid string
  | SE_Unsupported
  | SE_Serialization string
  | SE_Backend string

definition show_store_error :: "store_error \<Rightarrow> string" where
  "show_store_error e = (case e of
       SE_NotFound \<Rightarrow> ''not found''
     | SE_Conflict m \<Rightarrow> ''conflict: '' @ m
     | SE_Transient m \<Rightarrow> ''transient: '' @ m
     | SE_Invalid m \<Rightarrow> ''invalid input: '' @ m
     | SE_Unsupported \<Rightarrow> ''operation not supported by backend''
     | SE_Serialization m \<Rightarrow> ''serialization error: '' @ m
     | SE_Backend m \<Rightarrow> ''backend error: '' @ m)"

definition is_transient :: "store_error \<Rightarrow> bool" where
  "is_transient e = (case e of SE_Transient _ \<Rightarrow> True | _ \<Rightarrow> False)"

definition store_error_kind :: "store_error \<Rightarrow> string" where
  "store_error_kind e = (case e of
       SE_NotFound \<Rightarrow> ''not_found''
     | SE_Conflict _ \<Rightarrow> ''conflict''
     | SE_Transient _ \<Rightarrow> ''transient''
     | SE_Invalid _ \<Rightarrow> ''invalid''
     | SE_Unsupported \<Rightarrow> ''unsupported''
     | SE_Serialization _ \<Rightarrow> ''serialization''
     | SE_Backend _ \<Rightarrow> ''backend'')"

type_synonym session_id = string

section \<open>Stored model selectors and durations\<close>

datatype model_target_dto = Dto_Id string | Dto_Provider string string

definition target_of_dto :: "model_target_dto \<Rightarrow> model_target" where
  "target_of_dto d = (case d of
       Dto_Id i \<Rightarrow> Id (model_id_new i)
     | Dto_Provider p i \<Rightarrow> model_target_new p (model_id_new i))"

definition dto_of_target :: "model_target \<Rightarrow> model_target_dto" where
  "dto_of_target t = (case t of Id m \<Rightarrow> Dto_Id m | Provider p m \<Rightarrow> Dto_Provider p m)"

definition legacy_model_target_dto :: "string \<Rightarrow> model_target_dto" where
  "legacy_model_target_dto raw = (case split_once CHR ''/'' raw of
       None \<Rightarrow> Dto_Id raw
     | Some (p, i) \<Rightarrow> if p = [] \<or> i = [] then Dto_Id raw else Dto_Provider p i)"

definition normalize_model_target_dto :: "model_target_dto \<Rightarrow> model_target_dto" where
  "normalize_model_target_dto d = (case d of
       Dto_Id i \<Rightarrow> legacy_model_target_dto i
     | Dto_Provider p i \<Rightarrow> Dto_Provider p i)"

text \<open>\<open>parse\<close> is \<open>serde_json::from_str\<close> at this type.\<close>

definition deserialize_model_target_dto ::
  "(string \<Rightarrow> model_target_dto option) \<Rightarrow> string \<Rightarrow> model_target_dto" where
  "deserialize_model_target_dto parse raw = (case parse raw of
       Some d \<Rightarrow> normalize_model_target_dto d
     | None \<Rightarrow> legacy_model_target_dto raw)"

text \<open>\<open>Duration::seconds\<close> and \<open>Duration::days\<close>, in nanoseconds.\<close>

definition seconds :: "int \<Rightarrow> int" where
  "seconds n = n * 1000000000"

definition days :: "int \<Rightarrow> int" where
  "days n = n * 86400 * 1000000000"

section \<open>Pages\<close>

record page =
  pg_limit :: nat
  pg_offset :: nat

definition page_first :: "nat \<Rightarrow> page" where
  "page_first limit = \<lparr>pg_limit = limit, pg_offset = 0\<rparr>"

definition page_new :: "nat \<Rightarrow> nat \<Rightarrow> page" where
  "page_new limit offset = \<lparr>pg_limit = limit, pg_offset = offset\<rparr>"

definition page_next :: "page \<Rightarrow> page" where
  "page_next p = \<lparr>pg_limit = pg_limit p, pg_offset = pg_offset p + pg_limit p\<rparr>"

definition page_default :: page where
  "page_default = page_first 50"

definition paginate :: "page \<Rightarrow> 'a list \<Rightarrow> 'a list" where
  "paginate p xs = skip_take (pg_offset p) (pg_limit p) xs"

text \<open>Walking the pages of a fixed listing visits each entry once, in order.\<close>

fun walk_pages :: "nat \<Rightarrow> page \<Rightarrow> 'a list \<Rightarrow> 'a list" where
  "walk_pages 0 p xs = []"
| "walk_pages (Suc n) p xs = paginate p xs @ walk_pages n (page_next p) xs"

lemma walk_pages_prefix:
  "walk_pages n p xs = take (n * pg_limit p) (drop (pg_offset p) xs)"
proof (induction n arbitrary: p)
  case (Suc n)
  have "walk_pages (Suc n) p xs
      = take (pg_limit p) (drop (pg_offset p) xs)
        @ take (n * pg_limit p) (drop (pg_offset p + pg_limit p) xs)"
    using Suc.IH [of "page_next p"] by (simp add: paginate_def skip_take_def page_next_def)
  also have "\<dots> = take (pg_limit p + n * pg_limit p) (drop (pg_offset p) xs)"
    by (simp add: take_add add.commute)
  finally show ?case by simp
qed simp

text \<open>The listing of a map: the values that pass a filter, sorted, one page of them.\<close>

definition list_page ::
  "('v \<Rightarrow> bool) \<Rightarrow> ('v \<Rightarrow> instant) \<Rightarrow> page \<Rightarrow> ('k, 'v) hmap \<Rightarrow> 'v list" where
  "list_page P key p m = paginate p (sort_key key (filter P (hm_values m)))"

lemma list_page_set: "set (list_page P key p m) \<subseteq> {v \<in> set (hm_values m). P v}"
  using set_skip_take by (fastforce simp: list_page_def paginate_def)

lemma list_page_sorted: "sorted (map key (list_page P key p m))"
  by (simp add: list_page_def paginate_def sorted_skip_take)

lemma list_page_complete:
  assumes "length (hm_values m) \<le> n"
  shows "set (list_page P key (page_first n) m) = {v \<in> set (hm_values m). P v}"
proof -
  have "length (sort_key key (filter P (hm_values m))) \<le> n"
    using le_trans [OF length_filter_le assms] by simp
  then have "list_page P key (page_first n) m = sort_key key (filter P (hm_values m))"
    by (simp add: list_page_def paginate_def page_first_def skip_take_all)
  then show ?thesis by simp
qed

section \<open>Operations of a store behind a trait\<close>

text \<open>What clients of a store trait see: an operation changes the store and may fail. The in-memory
  stores live in a world with the ids that will be drawn (\<open>Uuid::now_v7\<close>) and the times the clock
  will show.\<close>

type_synonym ('s, 'e, 'a) store_op = "'s \<Rightarrow> 's \<times> ('e + 'a)"

definition op_return :: "'a \<Rightarrow> ('s, 'e, 'a) store_op" where
  "op_return x s = (s, Inr x)"

definition op_fail :: "'e \<Rightarrow> ('s, 'e, 'a) store_op" where
  "op_fail e s = (s, Inl e)"

definition op_bind :: "('s, 'e, 'a) store_op \<Rightarrow> ('a \<Rightarrow> ('s, 'e, 'b) store_op) \<Rightarrow> ('s, 'e, 'b) store_op" where
  "op_bind m f s = (case m s of (s', Inl e) \<Rightarrow> (s', Inl e) | (s', Inr x) \<Rightarrow> f x s')"

definition op_map_err :: "('e \<Rightarrow> 'f) \<Rightarrow> ('s, 'e, 'a) store_op \<Rightarrow> ('s, 'f, 'a) store_op" where
  "op_map_err f m s = (case m s of (s', r) \<Rightarrow> (s', map_err f r))"

definition op_lift :: "'e + 'a \<Rightarrow> ('s, 'e, 'a) store_op" where
  "op_lift r s = (s, r)"

lemma op_simps [simp]:
  "op_bind (op_return x) f = f x" "op_bind (op_fail e) f = op_fail e"
  "op_map_err g (op_return x) = op_return x" "op_map_err g (op_fail e) = op_fail (g e)"
  "op_lift (Inr x) = op_return x" "op_lift (Inl e) = op_fail e"
  by (auto simp: fun_eq_iff op_bind_def op_return_def op_fail_def op_map_err_def op_lift_def)

record 's mem_world =
  mw_store :: 's
  mw_ids :: "nat \<Rightarrow> string"
  mw_drawn :: nat
  mw_clock :: "nat \<Rightarrow> instant"
  mw_ticks :: nat

definition mem_now :: "'s mem_world \<Rightarrow> 's mem_world \<times> instant" where
  "mem_now w = (w\<lparr>mw_ticks := mw_ticks w + 1\<rparr>, mw_clock w (mw_ticks w))"

section \<open>The lease protocol\<close>

fun grants :: "('op \<Rightarrow> 's \<Rightarrow> 's) \<Rightarrow> ('op \<Rightarrow> 's \<Rightarrow> 'i list) \<Rightarrow> 'op list \<Rightarrow> 's \<Rightarrow> 'i list" where
  "grants step granted [] s = []"
| "grants step granted (a # as) s = granted a s @ grants step granted as (step a s)"

fun never_released ::
  "('op \<Rightarrow> 's \<Rightarrow> 's) \<Rightarrow> ('op \<Rightarrow> 's \<Rightarrow> 'i \<Rightarrow> bool) \<Rightarrow> 'i \<Rightarrow> 'op list \<Rightarrow> 's \<Rightarrow> bool" where
  "never_released step releases i [] s = True"
| "never_released step releases i (a # as) s =
     (\<not> releases a s i \<and> never_released step releases i as (step a s))"

lemma distinct_count_one: "distinct xs \<Longrightarrow> x \<in> set xs \<Longrightarrow> count_list xs x = 1"
  by (induction xs) (auto simp: count_list_0_iff)

locale lease =
  fixes inv :: "'s \<Rightarrow> bool"
    and held :: "'s \<Rightarrow> 'i \<Rightarrow> bool"
    and step :: "'op \<Rightarrow> 's \<Rightarrow> 's"
    and granted :: "'op \<Rightarrow> 's \<Rightarrow> 'i list"
    and releases :: "'op \<Rightarrow> 's \<Rightarrow> 'i \<Rightarrow> bool"
  assumes step_inv: "inv s \<Longrightarrow> inv (step a s)"
    and granted_distinct: "inv s \<Longrightarrow> distinct (granted a s)"
    and granted_free: "inv s \<Longrightarrow> i \<in> set (granted a s) \<Longrightarrow> \<not> held s i"
    and granted_held: "inv s \<Longrightarrow> i \<in> set (granted a s) \<Longrightarrow> held (step a s) i"
    and held_stays: "inv s \<Longrightarrow> held s i \<Longrightarrow> \<not> releases a s i \<Longrightarrow> held (step a s) i"
begin

lemma inv_run: "inv s \<Longrightarrow> inv (fold step as s)"
  by (induction as arbitrary: s) (auto intro: step_inv)

lemma held_not_granted:
  "inv s \<Longrightarrow> held s i \<Longrightarrow> never_released step releases i as s \<Longrightarrow>
     i \<notin> set (grants step granted as s)"
proof (induction as arbitrary: s)
  case (Cons a as)
  then have "held (step a s) i" "i \<notin> set (granted a s)"
    using held_stays granted_free by auto
  with Cons step_inv show ?case by auto
qed simp

lemma granted_at_most_once:
  "inv s \<Longrightarrow> never_released step releases i as s \<Longrightarrow>
     count_list (grants step granted as s) i \<le> 1"
proof (induction as arbitrary: s)
  case (Cons a as)
  then have inv': "inv (step a s)" and nr: "never_released step releases i as (step a s)"
    by (auto intro: step_inv)
  show ?case
  proof (cases "i \<in> set (granted a s)")
    case True
    then have "count_list (granted a s) i = 1"
      using granted_distinct [OF Cons.prems(1)] by (simp add: distinct_count_one)
    moreover have "i \<notin> set (grants step granted as (step a s))"
      using held_not_granted [OF inv' granted_held [OF Cons.prems(1) True] nr] .
    ultimately show ?thesis by (simp add: count_list_0_iff)
  next
    case False
    then have "count_list (granted a s) i = 0" by (simp add: count_list_0_iff)
    with Cons.IH [OF inv' nr] show ?thesis by simp
  qed
qed simp

end

end
