(* ===== verification/Scope_Query.thy ===== *)
theory Scope_Query
  imports Store_Base
begin

text \<open>
  The backend-neutral scope predicates (\<open>crabgent-store/src/scope_query.rs\<close>): filter queries, in
  which an absent field is a wildcard, and identity queries, in which it must be absent in the row.
  The two SQL callbacks are arguments: the column name of a field, and the text of the \<open>n\<close>-th
  placeholder. The theorems relate both kinds of query to \<open>MemoryScope::matches\<close> and to equality,
  and show that the rendered SQL has one placeholder per bound value.
\<close>

datatype scope_field = F_Owner | F_Channel | F_Conv | F_Agent | F_Kind

record scope_filter =
  sf_field :: scope_field
  sf_value :: string

datatype scope_value = Equals string | EqualsAny string string | IsNull

record scope_predicate =
  sp_field :: scope_field
  sp_value :: scope_value

definition scope_field_value :: "memory_scope \<Rightarrow> scope_field \<Rightarrow> string option" where
  "scope_field_value s f = (case f of
       F_Owner \<Rightarrow> sc_owner s | F_Channel \<Rightarrow> sc_channel s | F_Conv \<Rightarrow> sc_conv s
     | F_Agent \<Rightarrow> sc_agent s | F_Kind \<Rightarrow> sc_kind s)"

definition field_predicate :: "scope_field \<Rightarrow> string option \<Rightarrow> scope_predicate" where
  "field_predicate f v =
     \<lparr>sp_field = f, sp_value = (case v of Some x \<Rightarrow> Equals x | None \<Rightarrow> IsNull)\<rparr>"

definition all_scope_predicates :: "memory_scope \<Rightarrow> scope_predicate list" where
  "all_scope_predicates s =
     map (\<lambda>f. field_predicate f (scope_field_value s f)) [F_Owner, F_Channel, F_Conv, F_Agent, F_Kind]"

definition scope_filters :: "memory_scope \<Rightarrow> scope_filter list" where
  "scope_filters s =
     concat (map (\<lambda>p. case sp_value p of
                   Equals v \<Rightarrow> [\<lparr>sf_field = sp_field p, sf_value = v\<rparr>] | _ \<Rightarrow> [])
       (all_scope_predicates s))"

type_synonym scope_query = "scope_predicate list"

definition query_filter :: "memory_scope \<Rightarrow> scope_query" where
  "query_filter s = map (\<lambda>f. \<lparr>sp_field = sf_field f, sp_value = Equals (sf_value f)\<rparr>) (scope_filters s)"

definition query_identity :: "memory_scope \<Rightarrow> scope_query" where
  "query_identity s = all_scope_predicates s"

definition predicate_matches_scope :: "scope_predicate \<Rightarrow> memory_scope \<Rightarrow> bool" where
  "predicate_matches_scope p s =
     (let actual = scope_field_value s (sp_field p) in
      case sp_value p of
        Equals expected \<Rightarrow> actual = Some expected
      | EqualsAny a b \<Rightarrow> list_ex (\<lambda>v. actual = Some v) [a, b]
      | IsNull \<Rightarrow> actual = None)"

definition query_matches :: "scope_query \<Rightarrow> memory_scope \<Rightarrow> bool" where
  "query_matches q s = list_all (\<lambda>p. predicate_matches_scope p s) q"

fun widen_owner_to_shared :: "string \<Rightarrow> scope_query \<Rightarrow> scope_query" where
  "widen_owner_to_shared agent [] = []"
| "widen_owner_to_shared agent (p # ps) =
     (if sp_field p = F_Owner then
        (case sp_value p of
           Equals ow \<Rightarrow> p\<lparr>sp_value := EqualsAny ow agent\<rparr> # ps
         | _ \<Rightarrow> p # ps)
      else p # widen_owner_to_shared agent ps)"

definition query_filters :: "scope_query \<Rightarrow> scope_filter list" where
  "query_filters q = concat (map (\<lambda>p. case sp_value p of
       Equals v \<Rightarrow> [\<lparr>sf_field = sp_field p, sf_value = v\<rparr>]
     | EqualsAny _ _ \<Rightarrow> [] | IsNull \<Rightarrow> []) q)"

definition equal_values :: "scope_query \<Rightarrow> string list" where
  "equal_values q = concat (map (\<lambda>p. case sp_value p of
       Equals v \<Rightarrow> [v] | EqualsAny a b \<Rightarrow> [a, b] | IsNull \<Rightarrow> []) q)"

text \<open>\<open>append_sql_filters\<close>: the state is the SQL text and the number of placeholders written.\<close>

definition push_placeholder :: "(nat \<Rightarrow> string) \<Rightarrow> string \<times> nat \<Rightarrow> string \<times> nat" where
  "push_placeholder ph st = (fst st @ ph (snd st), snd st + 1)"

definition push_str :: "string \<Rightarrow> string \<times> nat \<Rightarrow> string \<times> nat" where
  "push_str t st = (fst st @ t, snd st)"

definition append_predicate ::
  "(scope_field \<Rightarrow> string) \<Rightarrow> (nat \<Rightarrow> string) \<Rightarrow> scope_predicate \<Rightarrow> string \<times> nat \<Rightarrow> string \<times> nat" where
  "append_predicate col ph p st =
     (let st = push_str (col (sp_field p)) (push_str '' AND '' st) in
      case sp_value p of
        Equals _ \<Rightarrow> push_placeholder ph (push_str '' = '' st)
      | EqualsAny a b \<Rightarrow>
          push_str '')''
            (snd (fold (\<lambda>_ (index, st).
                    (index + 1, push_placeholder ph (if 0 < index then push_str '', '' st else st)))
                  [a, b] (0 :: nat, push_str '' IN ('' st)))
      | IsNull \<Rightarrow> push_str '' IS NULL'' st)"

definition append_sql_filters ::
  "(scope_field \<Rightarrow> string) \<Rightarrow> (nat \<Rightarrow> string) \<Rightarrow> scope_query \<Rightarrow> string \<times> nat \<Rightarrow> string \<times> nat" where
  "append_sql_filters col ph q st = fold (append_predicate col ph) q st"

section \<open>Properties\<close>

lemma query_filter_alt:
  "query_filter s = filter (\<lambda>p. sp_value p \<noteq> IsNull) (all_scope_predicates s)"
  by (simp add: query_filter_def scope_filters_def all_scope_predicates_def field_predicate_def
      split: option.split)

lemma predicate_matches_field:
  "predicate_matches_scope (field_predicate f v) s
     \<longleftrightarrow> (case v of Some x \<Rightarrow> scope_field_value s f = Some x | None \<Rightarrow> scope_field_value s f = None)"
  by (cases v) (auto simp: predicate_matches_scope_def field_predicate_def)

text \<open>A filter query selects exactly the rows the scope's own \<open>matches\<close> selects, an identity
  query exactly the rows with the same scope, and a filter query widened to an agent's shared rows
  selects the rows of the owner or of the agent.\<close>

theorem scope_queries_sound:
  "query_matches (query_filter s) x = scope_matches s x
   \<and> query_matches (query_identity s) x = (x = s)
   \<and> query_matches (widen_owner_to_shared agent (query_filter s)) x
       = (scope_matches s x
          \<or> (sc_owner s \<noteq> None \<and> scope_matches (s\<lparr>sc_owner := Some agent\<rparr>) x))"
proof (intro conjI)
  show "query_matches (query_filter s) x = scope_matches s x"
    by (simp add: query_matches_def query_filter_def scope_filters_def all_scope_predicates_def
        field_predicate_def predicate_matches_scope_def scope_matches_def opt_eq_def
        scope_field_value_def Let_def split: option.split)
  show "query_matches (query_identity s) x = (x = s)"
    by (cases s; cases x)
       (auto simp: query_matches_def query_identity_def all_scope_predicates_def
          predicate_matches_field scope_field_value_def split: option.splits)
  show "query_matches (widen_owner_to_shared agent (query_filter s)) x
      = (scope_matches s x
         \<or> (sc_owner s \<noteq> None \<and> scope_matches (s\<lparr>sc_owner := Some agent\<rparr>) x))"
    by (cases "sc_owner s"; cases "sc_channel s"; cases "sc_conv s"; cases "sc_agent s";
        cases "sc_kind s")
       (auto simp: query_matches_def query_filter_def scope_filters_def all_scope_predicates_def
          field_predicate_def predicate_matches_scope_def scope_matches_def opt_eq_def
          scope_field_value_def Let_def)
qed

lemma append_predicate_count:
  "snd (append_predicate col ph p st)
     = snd st + (case sp_value p of Equals _ \<Rightarrow> 1 | EqualsAny _ _ \<Rightarrow> 2 | IsNull \<Rightarrow> 0)"
  by (simp add: append_predicate_def push_placeholder_def push_str_def Let_def
      split: scope_value.split)

text \<open>The rendered SQL writes exactly one placeholder for each value the query binds, and the
  values never enter the text: queries that differ only in their values render alike.\<close>

theorem sql_placeholders_match_values:
  "snd (append_sql_filters col ph q (sql, n)) = n + length (equal_values q)
   \<and> append_sql_filters col ph
       (map (\<lambda>p. p\<lparr>sp_value := (case sp_value p of
            Equals v \<Rightarrow> Equals (f v) | EqualsAny a b \<Rightarrow> EqualsAny (f a) (f b)
          | IsNull \<Rightarrow> IsNull)\<rparr>) q) (sql, n)
     = append_sql_filters col ph q (sql, n)"
proof
  show "snd (append_sql_filters col ph q (sql, n)) = n + length (equal_values q)"
    unfolding append_sql_filters_def
  proof (induction q arbitrary: sql n)
    case (Cons p q)
    obtain sql' n' where st: "append_predicate col ph p (sql, n) = (sql', n')" by fastforce
    then have "n' = n + (case sp_value p of Equals _ \<Rightarrow> 1 | EqualsAny _ _ \<Rightarrow> 2 | IsNull \<Rightarrow> 0)"
      using append_predicate_count [of col ph p "(sql, n)"] by simp
    with st Cons.IH [of sql' n'] show ?case
      by (simp add: equal_values_def split: scope_value.split)
  qed (simp add: equal_values_def)
  have "append_predicate col ph (p\<lparr>sp_value := (case sp_value p of
            Equals v \<Rightarrow> Equals (f v) | EqualsAny a b \<Rightarrow> EqualsAny (f a) (f b)
          | IsNull \<Rightarrow> IsNull)\<rparr>) = append_predicate col ph p" for p
    by (simp add: fun_eq_iff append_predicate_def Let_def split: scope_value.split)
  then show "append_sql_filters col ph
       (map (\<lambda>p. p\<lparr>sp_value := (case sp_value p of
            Equals v \<Rightarrow> Equals (f v) | EqualsAny a b \<Rightarrow> EqualsAny (f a) (f b)
          | IsNull \<Rightarrow> IsNull)\<rparr>) q) (sql, n)
     = append_sql_filters col ph q (sql, n)"
    by (simp add: append_sql_filters_def fold_map o_def)
qed

end
