(* ===== verification/Cron_Store.thy ===== *)
theory Cron_Store
  imports Scope_Query "HOL-Library.Option_ord"
begin

text \<open>
  Cron jobs: the records (\<open>crabgent-store/src/records.rs\<close>) and the in-memory store
  (\<open>crabgent-store/src/memory/cron.rs\<close>). The state is the map from job ids to jobs. The store's
  claims are an instance of the lease protocol of \<open>Store_Base\<close>: a due job is handed to one caller
  until its claim is finished, released, recovered after the timeout, or the job is deleted.
\<close>

section \<open>Records\<close>

type_synonym cron_job_id = string

record cron_schedule =
  cs_interval_secs :: "nat option"
  cs_cron_expr :: "string option"
  cs_cron_tz :: "string option"

definition schedule_every :: "nat \<Rightarrow> cron_schedule" where
  "schedule_every secs = \<lparr>cs_interval_secs = Some secs, cs_cron_expr = None, cs_cron_tz = None\<rparr>"

definition schedule_cron :: "string \<Rightarrow> string option \<Rightarrow> cron_schedule" where
  "schedule_cron expr tz = \<lparr>cs_interval_secs = None, cs_cron_expr = Some expr, cs_cron_tz = tz\<rparr>"

record cron_job =
  cj_id :: cron_job_id
  cj_name :: string
  cj_scope :: memory_scope
  cj_prompt :: string
  cj_schedule :: cron_schedule
  cj_enabled :: bool
  cj_run_once :: bool
  cj_model_override :: "model_target_dto option"
  cj_reasoning_effort_override :: "reasoning_effort option"
  cj_pre_command :: "string option"
  cj_delivery_ctx :: json
  cj_last_run :: "instant option"
  cj_next_run :: instant
  cj_created_at :: instant
  cj_claimed_at :: "instant option"

record cron_job_update =
  cu_name :: "string option"
  cu_prompt :: "string option"
  cu_schedule :: "cron_schedule option"
  cu_enabled :: "bool option"
  cu_run_once :: "bool option"
  cu_model_override :: "model_target_dto option option"
  cu_reasoning_effort_override :: "reasoning_effort option option"
  cu_pre_command :: "string option option"
  cu_delivery_ctx :: "json option"
  cu_next_run :: "instant option"

definition cron_apply :: "cron_job_update \<Rightarrow> cron_job \<Rightarrow> cron_job" where
  "cron_apply u j = j\<lparr>
     cj_name := unwrap_or (cj_name j) (cu_name u),
     cj_prompt := unwrap_or (cj_prompt j) (cu_prompt u),
     cj_schedule := unwrap_or (cj_schedule j) (cu_schedule u),
     cj_enabled := unwrap_or (cj_enabled j) (cu_enabled u),
     cj_run_once := unwrap_or (cj_run_once j) (cu_run_once u),
     cj_model_override := unwrap_or (cj_model_override j) (cu_model_override u),
     cj_reasoning_effort_override :=
       unwrap_or (cj_reasoning_effort_override j) (cu_reasoning_effort_override u),
     cj_pre_command := unwrap_or (cj_pre_command j) (cu_pre_command u),
     cj_delivery_ctx := unwrap_or (cj_delivery_ctx j) (cu_delivery_ctx u),
     cj_next_run := unwrap_or (cj_next_run j) (cu_next_run u)\<rparr>"

section \<open>Operations\<close>

type_synonym cron_store = "(cron_job_id, cron_job) hmap"

definition cron_create :: "cron_job \<Rightarrow> cron_store \<Rightarrow> cron_store \<times> (store_error + unit)" where
  "cron_create job jobs =
     (if hm_contains (cj_id job) jobs
      then (jobs, Inl (SE_Conflict (''cron job already exists: '' @ cj_id job)))
      else (AList.update (cj_id job) job jobs, Inr ()))"

definition cron_get :: "cron_job_id \<Rightarrow> cron_store \<Rightarrow> cron_job option" where
  "cron_get i jobs = map_of jobs i"

definition cron_list :: "memory_scope \<Rightarrow> page \<Rightarrow> cron_store \<Rightarrow> cron_job list" where
  "cron_list scope p jobs =
     list_page (\<lambda>j. query_matches (query_filter scope) (cj_scope j)) cj_created_at p jobs"

definition cron_update :: "cron_job_id \<Rightarrow> cron_job_update \<Rightarrow> cron_store \<Rightarrow> cron_store \<times> bool" where
  "cron_update i u jobs =
     (if hm_contains i jobs then (hm_modify i (cron_apply u) jobs, True) else (jobs, False))"

definition cron_delete :: "cron_job_id \<Rightarrow> cron_store \<Rightarrow> cron_store \<times> bool" where
  "cron_delete i jobs = (AList.delete i jobs, hm_contains i jobs)"

definition is_due :: "instant \<Rightarrow> cron_job \<Rightarrow> bool" where
  "is_due now j \<longleftrightarrow> cj_enabled j \<and> cj_claimed_at j = None \<and> cj_next_run j \<le> now"

definition claim_job :: "instant \<Rightarrow> cron_job \<Rightarrow> cron_job" where
  "claim_job now j = j\<lparr>cj_claimed_at := Some now\<rparr>"

fun claim_loop :: "instant \<Rightarrow> cron_job_id list \<Rightarrow> cron_store \<Rightarrow> cron_store \<times> cron_job list" where
  "claim_loop now [] jobs = (jobs, [])"
| "claim_loop now (i # is) jobs =
     (case map_of jobs i of
        None \<Rightarrow> claim_loop now is jobs
      | Some job \<Rightarrow>
          (let (jobs', claimed) = claim_loop now is (hm_modify i (claim_job now) jobs)
           in (jobs', claim_job now job # claimed)))"

definition due_ids :: "instant \<Rightarrow> nat \<Rightarrow> cron_store \<Rightarrow> cron_job_id list" where
  "due_ids now limit jobs =
     take limit (sort_key (\<lambda>i. map_option cj_next_run (map_of jobs i))
                   (map cj_id (filter (is_due now) (hm_values jobs))))"

definition claim_due :: "instant \<Rightarrow> nat \<Rightarrow> cron_store \<Rightarrow> cron_store \<times> cron_job list" where
  "claim_due now limit jobs = claim_loop now (due_ids now limit jobs) jobs"

definition finish_job :: "instant \<Rightarrow> instant \<Rightarrow> bool \<Rightarrow> cron_job \<Rightarrow> cron_job" where
  "finish_job last_run next_run disable_run_once j =
     (let j = j\<lparr>cj_last_run := Some last_run, cj_next_run := next_run, cj_claimed_at := None\<rparr>
      in if disable_run_once \<and> cj_run_once j then j\<lparr>cj_enabled := False\<rparr> else j)"

definition finish_claim ::
  "cron_job_id \<Rightarrow> instant \<Rightarrow> instant \<Rightarrow> bool \<Rightarrow> cron_store \<Rightarrow> cron_store" where
  "finish_claim i last_run next_run disable_run_once jobs =
     hm_modify i (finish_job last_run next_run disable_run_once) jobs"

definition release_job :: "cron_job \<Rightarrow> cron_job" where
  "release_job j = j\<lparr>cj_claimed_at := None\<rparr>"

definition release_claim_only :: "cron_job_id \<Rightarrow> cron_store \<Rightarrow> cron_store" where
  "release_claim_only i jobs = hm_modify i release_job jobs"

definition is_stuck :: "instant \<Rightarrow> cron_job \<Rightarrow> bool" where
  "is_stuck cutoff j = is_some_and (\<lambda>c. c < cutoff) (cj_claimed_at j)"

definition cron_recover_stuck ::
  "instant \<Rightarrow> int \<Rightarrow> cron_store \<Rightarrow> cron_store \<times> cron_job_id list" where
  "cron_recover_stuck now timeout_secs jobs =
     (let cutoff = now - seconds timeout_secs;
          stuck = map cj_id (filter (is_stuck cutoff) (hm_values jobs))
      in (fold (\<lambda>i. hm_modify i release_job) stuck jobs, stuck))"

section \<open>Well-formed stores\<close>

definition cron_wf :: "cron_store \<Rightarrow> bool" where
  "cron_wf jobs \<longleftrightarrow> hm_wf jobs \<and> (\<forall>i j. map_of jobs i = Some j \<longrightarrow> cj_id j = i)"

lemma cron_wf_hm: "cron_wf jobs \<Longrightarrow> hm_wf jobs"
  by (simp add: cron_wf_def)

lemma cron_wf_id: "cron_wf jobs \<Longrightarrow> map_of jobs i = Some j \<Longrightarrow> cj_id j = i"
  by (simp add: cron_wf_def)

lemma cron_values_iff:
  "cron_wf jobs \<Longrightarrow> j \<in> set (hm_values jobs) \<longleftrightarrow> map_of jobs (cj_id j) = Some j"
  by (auto simp: cron_wf_hm hm_values_in dest: cron_wf_id)

lemma job_ids [simp]:
  "cj_id (cron_apply u j) = cj_id j" "cj_id (claim_job now j) = cj_id j"
  "cj_id (finish_job l n d j) = cj_id j" "cj_id (release_job j) = cj_id j"
  by (simp_all add: cron_apply_def claim_job_def finish_job_def release_job_def Let_def)

lemma claimed_at_simps [simp]:
  "cj_claimed_at (cron_apply u j) = cj_claimed_at j"
  "cj_claimed_at (claim_job now j) = Some now"
  "cj_claimed_at (finish_job l n d j) = None" "cj_claimed_at (release_job j) = None"
  by (simp_all add: cron_apply_def claim_job_def finish_job_def release_job_def Let_def)

lemma cron_wf_modify:
  "cron_wf jobs \<Longrightarrow> (\<And>j. cj_id (f j) = cj_id j) \<Longrightarrow> cron_wf (hm_modify i f jobs)"
  by (auto simp: cron_wf_def hm_get_modify split: if_splits)

lemma cron_wf_values_distinct: "cron_wf jobs \<Longrightarrow> distinct (map cj_id (hm_values jobs))"
proof -
  assume wf: "cron_wf jobs"
  have "map cj_id (hm_values jobs) = map fst jobs"
    using wf by (auto simp: hm_values_def cron_wf_def hm_get_in [symmetric])
  then show ?thesis using wf by (simp add: cron_wf_def hm_wf_def)
qed

lemma due_ids_props:
  assumes wf: "cron_wf jobs"
  shows "distinct (due_ids now limit jobs)"
    and "i \<in> set (due_ids now limit jobs) \<Longrightarrow> \<exists>j. map_of jobs i = Some j \<and> is_due now j"
    and "length (due_ids now limit jobs) \<le> limit"
proof -
  have "distinct (map cj_id (filter (is_due now) (hm_values jobs)))"
    using cron_wf_values_distinct [OF wf] by (rule distinct_map_filter)
  then show "distinct (due_ids now limit jobs)"
    by (simp add: due_ids_def)
  show "length (due_ids now limit jobs) \<le> limit" by (simp add: due_ids_def)
  assume "i \<in> set (due_ids now limit jobs)"
  then have "i \<in> cj_id ` set (filter (is_due now) (hm_values jobs))"
    unfolding due_ids_def using set_take_subset by fastforce
  then show "\<exists>j. map_of jobs i = Some j \<and> is_due now j"
    by (auto simp: cron_values_iff [OF wf])
qed

lemma claim_loop_spec:
  assumes "cron_wf jobs" "distinct is" "\<forall>i\<in>set is. map_of jobs i \<noteq> None"
  shows "cron_wf (fst (claim_loop now is jobs))
    \<and> (\<forall>k. map_of (fst (claim_loop now is jobs)) k
          = (if k \<in> set is then map_option (claim_job now) (map_of jobs k) else map_of jobs k))
    \<and> snd (claim_loop now is jobs) = map (\<lambda>i. claim_job now (the (map_of jobs i))) is"
  using assms
proof (induction "is" arbitrary: jobs)
  case (Cons i "is")
  let ?jobs = "hm_modify i (claim_job now) jobs"
  from Cons.prems obtain j where j: "map_of jobs i = Some j" by auto
  have "cron_wf ?jobs" using Cons.prems(1) by (rule cron_wf_modify) simp
  moreover have "\<forall>k\<in>set is. map_of ?jobs k \<noteq> None"
    using Cons.prems by (auto simp: hm_get_modify)
  ultimately have IH: "cron_wf (fst (claim_loop now is ?jobs))"
    "\<And>k. map_of (fst (claim_loop now is ?jobs)) k
          = (if k \<in> set is then map_option (claim_job now) (map_of ?jobs k) else map_of ?jobs k)"
    "snd (claim_loop now is ?jobs) = map (\<lambda>i. claim_job now (the (map_of ?jobs i))) is"
    using Cons.IH [of ?jobs] Cons.prems(2) by auto
  have "map (\<lambda>i. claim_job now (the (map_of ?jobs i))) is
      = map (\<lambda>i. claim_job now (the (map_of jobs i))) is"
    using Cons.prems(2) by (auto simp: hm_get_modify)
  then show ?case
    using IH j Cons.prems(2)
    by (auto simp: case_prod_beta hm_get_modify)
qed simp

section \<open>Claims\<close>

lemma take_before_rest:
  assumes "x \<in> set (take n (sort_key f xs))" "y \<in> set xs" "y \<notin> set (take n (sort_key f xs))"
  shows "f x \<le> f y"
proof -
  have "set (sort_key f xs) = set (take n (sort_key f xs)) \<union> set (drop n (sort_key f xs))"
    by (metis append_take_drop_id set_append)
  with assms have "y \<in> set (drop n (sort_key f xs))" by auto
  moreover have "sorted (map f (take n (sort_key f xs) @ drop n (sort_key f xs)))"
    by simp
  ultimately show ?thesis using assms(1) by (auto simp only: map_append sorted_append set_map)
qed

lemma claim_due_spec:
  assumes wf: "cron_wf jobs"
  shows "cron_wf (fst (claim_due now limit jobs))"
    and "map_of (fst (claim_due now limit jobs)) k
           = (if k \<in> set (due_ids now limit jobs) then map_option (claim_job now) (map_of jobs k)
              else map_of jobs k)"
    and "snd (claim_due now limit jobs)
           = map (\<lambda>i. claim_job now (the (map_of jobs i))) (due_ids now limit jobs)"
proof -
  have "\<forall>i\<in>set (due_ids now limit jobs). map_of jobs i \<noteq> None"
    using due_ids_props(2) [OF wf] by fastforce
  from claim_loop_spec [OF wf due_ids_props(1) [OF wf] this]
  show "cron_wf (fst (claim_due now limit jobs))"
    "map_of (fst (claim_due now limit jobs)) k
       = (if k \<in> set (due_ids now limit jobs) then map_option (claim_job now) (map_of jobs k)
          else map_of jobs k)"
    "snd (claim_due now limit jobs)
       = map (\<lambda>i. claim_job now (the (map_of jobs i))) (due_ids now limit jobs)"
    by (simp_all add: claim_due_def)
qed

lemma claimed_ids:
  assumes wf: "cron_wf jobs"
  shows "map cj_id (snd (claim_due now limit jobs)) = due_ids now limit jobs"
proof -
  have "cj_id (the (map_of jobs i)) = i" if "i \<in> set (due_ids now limit jobs)" for i
    using due_ids_props(2) [OF wf that] cron_wf_id [OF wf] by auto
  then show ?thesis by (simp add: claim_due_spec(3) [OF wf] map_idI)
qed

text \<open>\<open>claim_due\<close> hands out exactly the due jobs that come first by \<open>next_run\<close>, up to the
  limit, each once, stamped as claimed, and changes nothing else; a due job left behind is no
  earlier than any job handed out.\<close>

theorem claim_due_exact:
  assumes wf: "cron_wf jobs"
  shows "cron_wf (fst (claim_due now limit jobs))
    \<and> distinct (map cj_id (snd (claim_due now limit jobs)))
    \<and> length (snd (claim_due now limit jobs))
        = min limit (length (filter (is_due now) (hm_values jobs)))
    \<and> (\<forall>k. map_of (fst (claim_due now limit jobs)) k
          = (if k \<in> set (map cj_id (snd (claim_due now limit jobs)))
             then map_option (claim_job now) (map_of jobs k) else map_of jobs k))
    \<and> (\<forall>g\<in>set (snd (claim_due now limit jobs)).
          \<exists>j. map_of jobs (cj_id g) = Some j \<and> is_due now j \<and> g = claim_job now j)
    \<and> (\<forall>j\<in>set (hm_values jobs). is_due now j
          \<longrightarrow> cj_id j \<notin> set (map cj_id (snd (claim_due now limit jobs)))
          \<longrightarrow> (\<forall>g\<in>set (snd (claim_due now limit jobs)). cj_next_run g \<le> cj_next_run j))"
proof (intro conjI ballI impI)
  show "cron_wf (fst (claim_due now limit jobs))" by (rule claim_due_spec(1) [OF wf])
  show "distinct (map cj_id (snd (claim_due now limit jobs)))"
    by (simp add: claimed_ids [OF wf] due_ids_props(1) [OF wf])
  show "length (snd (claim_due now limit jobs))
      = min limit (length (filter (is_due now) (hm_values jobs)))"
    by (simp add: claim_due_spec(3) [OF wf] due_ids_def)
  show "\<forall>k. map_of (fst (claim_due now limit jobs)) k
      = (if k \<in> set (map cj_id (snd (claim_due now limit jobs)))
         then map_option (claim_job now) (map_of jobs k) else map_of jobs k)"
    unfolding claimed_ids [OF wf] by (simp add: claim_due_spec(2) [OF wf])
next
  fix g assume g: "g \<in> set (snd (claim_due now limit jobs))"
  then obtain i j where ij: "i \<in> set (due_ids now limit jobs)" "map_of jobs i = Some j"
      "is_due now j" "g = claim_job now j"
    using due_ids_props(2) [OF wf] by (fastforce simp: claim_due_spec(3) [OF wf])
  then have "cj_id g = i" using cron_wf_id [OF wf] by simp
  with ij show "\<exists>j. map_of jobs (cj_id g) = Some j \<and> is_due now j \<and> g = claim_job now j"
    by blast
  fix j' assume j': "j' \<in> set (hm_values jobs)" "is_due now j'"
    "cj_id j' \<notin> set (map cj_id (snd (claim_due now limit jobs)))"
  have m: "map_of jobs (cj_id j') = Some j'" using j'(1) cron_values_iff [OF wf] by simp
  have "map_option cj_next_run (map_of jobs i) \<le> map_option cj_next_run (map_of jobs (cj_id j'))"
    using ij(1) j' unfolding claimed_ids [OF wf] due_ids_def
    by (intro take_before_rest) auto
  with ij m show "cj_next_run g \<le> cj_next_run j'" by (simp add: claim_job_def)
qed

text \<open>A job for the witnesses.\<close>

definition sample_job :: cron_job where
  "sample_job = \<lparr>cj_id = ''j'', cj_name = ''n'', cj_scope = global_scope, cj_prompt = [],
     cj_schedule = schedule_every 60, cj_enabled = True, cj_run_once = False,
     cj_model_override = None, cj_reasoning_effort_override = None, cj_pre_command = None,
     cj_delivery_ctx = JNull, cj_last_run = None, cj_next_run = 5, cj_created_at = 0,
     cj_claimed_at = None\<rparr>"

lemma sample_job_wf: "cron_wf [(''j'', sample_job)]"
  by (simp add: cron_wf_def hm_wf_def sample_job_def)

lemma claim_due_exact_witness:
  "length (snd (claim_due 10 3 [(''j'', sample_job)])) = 1"
  using claim_due_exact [OF sample_job_wf, of 10 3]
  by (simp add: hm_values_def is_due_def sample_job_def)

section \<open>The cron store as a lease\<close>

datatype cron_op =
    Cron_Create cron_job
  | Cron_Update cron_job_id cron_job_update
  | Cron_Delete cron_job_id
  | Cron_Claim instant nat
  | Cron_Finish cron_job_id instant instant bool
  | Cron_Release cron_job_id
  | Cron_Recover instant int

definition cron_step :: "cron_op \<Rightarrow> cron_store \<Rightarrow> cron_store" where
  "cron_step a s = (case a of
       Cron_Create j \<Rightarrow> fst (cron_create j s)
     | Cron_Update i u \<Rightarrow> fst (cron_update i u s)
     | Cron_Delete i \<Rightarrow> fst (cron_delete i s)
     | Cron_Claim now limit \<Rightarrow> fst (claim_due now limit s)
     | Cron_Finish i l n d \<Rightarrow> finish_claim i l n d s
     | Cron_Release i \<Rightarrow> release_claim_only i s
     | Cron_Recover now t \<Rightarrow> fst (cron_recover_stuck now t s))"

definition cron_granted :: "cron_op \<Rightarrow> cron_store \<Rightarrow> cron_job_id list" where
  "cron_granted a s = (case a of
       Cron_Claim now limit \<Rightarrow> map cj_id (snd (claim_due now limit s)) | _ \<Rightarrow> [])"

definition cron_claimed :: "cron_store \<Rightarrow> cron_job_id \<Rightarrow> bool" where
  "cron_claimed s i = is_some_and (\<lambda>j. cj_claimed_at j \<noteq> None) (map_of s i)"

definition cron_releases :: "cron_op \<Rightarrow> cron_store \<Rightarrow> cron_job_id \<Rightarrow> bool" where
  "cron_releases a s i = (case a of
       Cron_Delete k \<Rightarrow> k = i
     | Cron_Finish k _ _ _ \<Rightarrow> k = i
     | Cron_Release k \<Rightarrow> k = i
     | Cron_Recover now t \<Rightarrow> is_some_and (is_stuck (now - seconds t)) (map_of s i)
     | _ \<Rightarrow> False)"

lemma release_twice [simp]: "release_job (release_job j) = release_job j"
  by (simp add: release_job_def)

lemma release_fold:
  "map_of (fold (\<lambda>i. hm_modify i release_job) is s) k
     = (if k \<in> set is then map_option release_job (map_of s k) else map_of s k)"
  by (induction "is" arbitrary: s) (simp_all add: hm_get_modify option.map_comp o_def)

lemma release_fold_wf: "cron_wf s \<Longrightarrow> cron_wf (fold (\<lambda>i. hm_modify i release_job) is s)"
  by (induction "is" arbitrary: s) (simp_all add: cron_wf_modify)

lemma stuck_ids:
  "cron_wf s \<Longrightarrow> k \<in> set (map cj_id (filter (is_stuck c) (hm_values s)))
     \<longleftrightarrow> is_some_and (is_stuck c) (map_of s k)"
  by (auto simp: is_some_and_def cron_wf_hm hm_values_in image_iff dest: cron_wf_id
      split: option.splits)

lemma cron_wf_update: "cron_wf s \<Longrightarrow> cron_wf (AList.update (cj_id j) j s)"
  by (auto simp: cron_wf_def hm_get_update split: if_splits)

lemma cron_wf_delete: "cron_wf s \<Longrightarrow> cron_wf (AList.delete i s)"
  by (auto simp: cron_wf_def hm_get_delete split: if_splits)

lemma cron_step_wf: "cron_wf s \<Longrightarrow> cron_wf (cron_step a s)"
  by (cases a)
     (simp_all add: cron_step_def cron_create_def cron_update_def cron_delete_def
        finish_claim_def release_claim_only_def cron_recover_stuck_def Let_def
        cron_wf_modify release_fold_wf claim_due_spec(1) cron_wf_update cron_wf_delete)

lemma claimed_modify:
  "(\<And>j. cj_claimed_at (f j) = cj_claimed_at j) \<Longrightarrow>
     cron_claimed (hm_modify k f s) i = cron_claimed s i"
  by (cases "map_of s k") (auto simp: cron_claimed_def hm_get_modify)

interpretation cron: lease cron_wf cron_claimed cron_step cron_granted cron_releases
proof
  fix s :: cron_store and a i
  assume wf: "cron_wf s"
  show "cron_wf (cron_step a s)" by (rule cron_step_wf [OF wf])
  show "distinct (cron_granted a s)"
    by (simp add: cron_granted_def claimed_ids [OF wf] due_ids_props(1) [OF wf]
        split: cron_op.split)
  {
    assume "i \<in> set (cron_granted a s)"
    then obtain now n where a: "a = Cron_Claim now n" and due: "i \<in> set (due_ids now n s)"
      by (cases a) (simp_all add: cron_granted_def claimed_ids [OF wf])
    then obtain j where "map_of s i = Some j" "is_due now j"
      using due_ids_props(2) [OF wf] by blast
    then show "\<not> cron_claimed s i" "cron_claimed (cron_step a s) i"
      using due by (simp_all add: a cron_claimed_def is_due_def cron_step_def
          claim_due_spec(2) [OF wf])
  }
  assume claimed: "cron_claimed s i" and nr: "\<not> cron_releases a s i"
  show "cron_claimed (cron_step a s) i"
  proof (cases a)
    case (Cron_Recover now t)
    with claimed nr show ?thesis
      by (simp add: cron_step_def cron_recover_stuck_def Let_def cron_claimed_def
          cron_releases_def release_fold stuck_ids [OF wf, simplified])
  next
    case (Cron_Claim now n)
    with claimed show ?thesis
      by (cases "map_of s i") (auto simp: cron_step_def cron_claimed_def claim_due_spec(2) [OF wf])
  qed (use claimed nr in \<open>auto simp: cron_step_def cron_create_def cron_update_def
        cron_delete_def finish_claim_def release_claim_only_def cron_releases_def
        claimed_modify cron_claimed_def hm_simps split: option.splits\<close>)
qed

text \<open>No double dispatch. Over any sequence of store operations, a job is handed out at most
  once as long as nothing releases it: no finished or released claim, no deletion, and no recovery
  run whose cutoff lies after the claim.\<close>

theorem cron_no_double_dispatch:
  assumes "cron_wf s" "never_released cron_step cron_releases i ops s"
  shows "count_list (grants cron_step cron_granted ops s) i \<le> 1"
  using assms by (rule cron.granted_at_most_once)

lemma cron_no_double_dispatch_witness:
  "count_list (grants cron_step cron_granted [Cron_Claim 10 3, Cron_Claim 20 3]
     [(''j'', sample_job)]) ''j'' \<le> 1"
  by (rule cron_no_double_dispatch [OF sample_job_wf]) (simp add: cron_releases_def)

end
