(* ===== verification/Task_Store.thy ===== *)
theory Task_Store
  imports Store_Base "HOL-Library.Word"
begin

text \<open>
  Background tasks: the records (\<open>crabgent-store/src/records.rs\<close>, \<open>records/task_pause.rs\<close>) and the
  in-memory store (\<open>crabgent-store/src/memory/task.rs\<close>). The state is the pair of the task map and
  the transcript map. \<open>resume_count\<close> is kept at its width: the increment of a resume claim is the
  wrapping one, and the theorems show that its guard keeps it from wrapping.

  A task moves \<open>Running -> Paused -> Running\<close> any number of times and ends \<open>Done\<close> or \<open>Failed\<close>;
  the claim of a paused task is an instance of the lease protocol of \<open>Store_Base\<close>.
\<close>

section \<open>Records\<close>

type_synonym task_id = string

datatype task_status = Running | Paused | Done | Failed

definition status_as_str :: "task_status \<Rightarrow> string" where
  "status_as_str s = (case s of
       Running \<Rightarrow> ''running'' | Paused \<Rightarrow> ''paused'' | Done \<Rightarrow> ''done'' | Failed \<Rightarrow> ''failed'')"

definition status_from_str :: "string \<Rightarrow> string + task_status" where
  "status_from_str s =
     (if s = ''running'' then Inr Running else if s = ''paused'' then Inr Paused
      else if s = ''done'' then Inr Done else if s = ''failed'' then Inr Failed else Inl s)"

datatype pause_cause = Shutdown | Forced | Crash

definition cause_as_str :: "pause_cause \<Rightarrow> string" where
  "cause_as_str c = (case c of
       Shutdown \<Rightarrow> ''shutdown'' | Forced \<Rightarrow> ''forced'' | Crash \<Rightarrow> ''crash'')"

definition cause_from_str :: "string \<Rightarrow> string + pause_cause" where
  "cause_from_str s =
     (if s = ''shutdown'' then Inr Shutdown else if s = ''forced'' then Inr Forced
      else if s = ''crash'' then Inr Crash else Inl s)"

lemma status_round_trip [simp]: "status_from_str (status_as_str s) = Inr s"
  by (cases s) (simp_all add: status_from_str_def status_as_str_def)

lemma cause_round_trip [simp]: "cause_from_str (cause_as_str c) = Inr c"
  by (cases c) (simp_all add: cause_from_str_def cause_as_str_def)

record task_resume_spec =
  rsp_subject_id :: string
  rsp_subject_attrs :: "(string, string) hmap"
  rsp_model :: model_target_dto
  rsp_explicit_model :: "model_target_dto option"
  rsp_session_model_override :: "string option"
  rsp_reasoning_effort :: "reasoning_effort option"
  rsp_system_prompt :: "string option"
  rsp_max_turns :: "nat option"
  rsp_tool_access :: tool_access

record task =
  tk_id :: task_id
  tk_owner :: owner
  tk_name :: "string option"
  tk_prompt :: string
  tk_status :: task_status
  tk_output :: string
  tk_error :: "string option"
  tk_created_at :: instant
  tk_updated_at :: instant
  tk_finished_at :: "instant option"
  tk_parent_session_id :: "string option"
  tk_parent_task_id :: "task_id option"
  tk_context_mode :: "string option"
  tk_reasoning_effort_override :: "reasoning_effort option"
  tk_resume_spec :: "task_resume_spec option"
  tk_resume_count :: "32 word"
  tk_pause_cause :: "pause_cause option"
  tk_paused_at :: "instant option"

section \<open>Operations\<close>

record task_store =
  ts_tasks :: "(task_id, task) hmap"
  ts_transcripts :: "(task_id, message list) hmap"

definition task_store_new :: task_store where
  "task_store_new = \<lparr>ts_tasks = [], ts_transcripts = []\<rparr>"

definition modify_task :: "task_id \<Rightarrow> (task \<Rightarrow> task) \<Rightarrow> task_store \<Rightarrow> task_store" where
  "modify_task i f s = s\<lparr>ts_tasks := hm_modify i f (ts_tasks s)\<rparr>"

definition task_list_by_status :: "task_status \<Rightarrow> page \<Rightarrow> task_store \<Rightarrow> task list" where
  "task_list_by_status st p s = list_page (\<lambda>t. tk_status t = st) tk_created_at p (ts_tasks s)"

definition task_insert :: "task \<Rightarrow> task_store \<Rightarrow> task_store \<times> (store_error + unit)" where
  "task_insert t s =
     (if hm_contains (tk_id t) (ts_tasks s)
      then (s, Inl (SE_Conflict (''task already exists: '' @ tk_id t)))
      else (s\<lparr>ts_tasks := AList.update (tk_id t) t (ts_tasks s)\<rparr>, Inr ()))"

definition task_get :: "task_id \<Rightarrow> task_store \<Rightarrow> task option" where
  "task_get i s = map_of (ts_tasks s) i"

definition task_append_output :: "instant \<Rightarrow> task_id \<Rightarrow> string \<Rightarrow> task_store \<Rightarrow> task_store" where
  "task_append_output now i chunk s =
     modify_task i (\<lambda>t. t\<lparr>tk_output := tk_output t @ chunk, tk_updated_at := now\<rparr>) s"

definition finish_task :: "instant \<Rightarrow> task_status \<Rightarrow> string option \<Rightarrow> task \<Rightarrow> task" where
  "finish_task now st err t =
     t\<lparr>tk_status := st, tk_error := err, tk_finished_at := Some now, tk_updated_at := now,
       tk_pause_cause := None, tk_paused_at := None\<rparr>"

definition task_finish ::
  "instant \<Rightarrow> task_id \<Rightarrow> task_status \<Rightarrow> string option \<Rightarrow> task_store
   \<Rightarrow> task_store \<times> (store_error + unit)" where
  "task_finish now i st err s =
     (if st = Running \<or> st = Paused
      then (s, Inl (SE_Invalid ''finish() requires Done or Failed status''))
      else (modify_task i (finish_task now st err) s, Inr ()))"

definition pause_task :: "instant \<Rightarrow> pause_cause \<Rightarrow> task \<Rightarrow> task" where
  "pause_task now cause t =
     t\<lparr>tk_status := Paused, tk_pause_cause := Some cause, tk_paused_at := Some now,
       tk_updated_at := now\<rparr>"

definition task_pause ::
  "instant \<Rightarrow> task_id \<Rightarrow> pause_cause \<Rightarrow> task_store \<Rightarrow> task_store \<times> bool" where
  "task_pause now i cause s = (case map_of (ts_tasks s) i of
       None \<Rightarrow> (s, False)
     | Some t \<Rightarrow>
         if tk_status t \<noteq> Running then (s, False)
         else (modify_task i (pause_task now cause) s, True))"

definition resume_task :: "instant \<Rightarrow> task \<Rightarrow> task" where
  "resume_task now t =
     t\<lparr>tk_status := Running, tk_pause_cause := None, tk_paused_at := None, tk_updated_at := now\<rparr>"

definition claim_for_resume ::
  "instant \<Rightarrow> task_id \<Rightarrow> 32 word \<Rightarrow> task_store \<Rightarrow> task_store \<times> bool" where
  "claim_for_resume now i max_resumes s = (case map_of (ts_tasks s) i of
       None \<Rightarrow> (s, False)
     | Some t \<Rightarrow>
         if tk_status t \<noteq> Paused then (s, False)
         else
           (let counts_toward_cap = (tk_pause_cause t \<noteq> Some Shutdown) in
            if counts_toward_cap \<and> max_resumes \<le> tk_resume_count t then (s, False)
            else (modify_task i (\<lambda>t. resume_task now
                    (if counts_toward_cap
                     then t\<lparr>tk_resume_count := tk_resume_count t + 1\<rparr> else t)) s, True)))"

definition stale_running :: "instant \<Rightarrow> task \<Rightarrow> bool" where
  "stale_running cutoff t \<longleftrightarrow> tk_status t = Running \<and> tk_updated_at t < cutoff"

text \<open>\<open>pause_orphans\<close> reads the clock twice: once for the cutoff, once for the new stamps.\<close>

definition task_pause_orphans ::
  "instant \<Rightarrow> instant \<Rightarrow> int \<Rightarrow> task_store \<Rightarrow> task_store \<times> task_id list" where
  "task_pause_orphans t0 now stale_secs s =
     (let orphans = map tk_id (filter (stale_running (t0 - seconds stale_secs))
                                (hm_values (ts_tasks s)))
      in (fold (\<lambda>i. modify_task i (pause_task now Crash)) orphans s, orphans))"

definition task_list_children :: "task_id \<Rightarrow> page \<Rightarrow> task_store \<Rightarrow> task list" where
  "task_list_children parent p s =
     list_page (\<lambda>t. tk_parent_task_id t = Some parent) tk_created_at p (ts_tasks s)"

definition task_save_transcript ::
  "instant \<Rightarrow> task_id \<Rightarrow> message list \<Rightarrow> task_store \<Rightarrow> task_store" where
  "task_save_transcript now i msgs s =
     (if hm_contains i (ts_tasks s)
      then (modify_task i (\<lambda>t. t\<lparr>tk_updated_at := now\<rparr>) s)
             \<lparr>ts_transcripts := AList.update i msgs (ts_transcripts s)\<rparr>
      else s)"

definition task_load_transcript :: "task_id \<Rightarrow> task_store \<Rightarrow> message list option" where
  "task_load_transcript i s = map_of (ts_transcripts s) i"

definition fail_stuck :: "instant \<Rightarrow> task \<Rightarrow> task" where
  "fail_stuck now t =
     t\<lparr>tk_status := Failed, tk_error := Some ''stuck task recovered'',
       tk_finished_at := Some now, tk_updated_at := now\<rparr>"

text \<open>\<open>recover_stuck\<close> reads the clock once for the cutoff and once more for each stuck task.\<close>

definition task_recover_stuck ::
  "instant \<Rightarrow> (task_id \<Rightarrow> instant) \<Rightarrow> int \<Rightarrow> task_store \<Rightarrow> task_store \<times> task_id list" where
  "task_recover_stuck t0 clock timeout_secs s =
     (let stuck = map tk_id (filter (stale_running (t0 - seconds timeout_secs))
                              (hm_values (ts_tasks s)))
      in (fold (\<lambda>i. modify_task i (fail_stuck (clock i))) stuck s, stuck))"

definition task_cleanup_old :: "instant \<Rightarrow> int \<Rightarrow> task_store \<Rightarrow> task_store \<times> nat" where
  "task_cleanup_old now num_days s =
     (let cutoff = now - days num_days;
          kept = hm_retain (\<lambda>_ t. is_none_or (\<lambda>f. cutoff \<le> f) (tk_finished_at t)) (ts_tasks s)
      in (s\<lparr>ts_tasks := kept,
            ts_transcripts := hm_retain (\<lambda>i _. hm_contains i kept) (ts_transcripts s)\<rparr>,
          length (ts_tasks s) - length kept))"

section \<open>Operations as steps\<close>

datatype task_op =
    Task_Insert task
  | Task_Append instant task_id string
  | Task_Finish instant task_id task_status "string option"
  | Task_Pause instant task_id pause_cause
  | Task_Claim instant task_id "32 word"
  | Task_Orphans instant instant int
  | Task_Save instant task_id "message list"
  | Task_Recover instant "task_id \<Rightarrow> instant" int
  | Task_Cleanup instant int

definition task_step :: "task_op \<Rightarrow> task_store \<Rightarrow> task_store" where
  "task_step a s = (case a of
       Task_Insert t \<Rightarrow> fst (task_insert t s)
     | Task_Append now i c \<Rightarrow> task_append_output now i c s
     | Task_Finish now i st e \<Rightarrow> fst (task_finish now i st e s)
     | Task_Pause now i c \<Rightarrow> fst (task_pause now i c s)
     | Task_Claim now i m \<Rightarrow> fst (claim_for_resume now i m s)
     | Task_Orphans t0 now n \<Rightarrow> fst (task_pause_orphans t0 now n s)
     | Task_Save now i ms \<Rightarrow> task_save_transcript now i ms s
     | Task_Recover t0 clock n \<Rightarrow> fst (task_recover_stuck t0 clock n s)
     | Task_Cleanup now n \<Rightarrow> fst (task_cleanup_old now n s))"

definition keyed_tasks :: "task_store \<Rightarrow> bool" where
  "keyed_tasks s \<longleftrightarrow> hm_wf (ts_tasks s) \<and> (\<forall>i t. map_of (ts_tasks s) i = Some t \<longrightarrow> tk_id t = i)"

lemma keyed_wf: "keyed_tasks s \<Longrightarrow> hm_wf (ts_tasks s)"
  by (simp add: keyed_tasks_def)

lemma task_ids [simp]:
  "tk_id (finish_task now st e t) = tk_id t" "tk_id (pause_task now c t) = tk_id t"
  "tk_id (resume_task now t) = tk_id t" "tk_id (fail_stuck now t) = tk_id t"
  by (simp_all add: finish_task_def pause_task_def resume_task_def fail_stuck_def)

lemma modify_task_get [simp]:
  "map_of (ts_tasks (modify_task i f s)) k
     = (if k = i then map_option f (map_of (ts_tasks s) i) else map_of (ts_tasks s) k)"
  by (simp add: modify_task_def hm_get_modify)

lemma modify_task_frame [simp]: "ts_transcripts (modify_task i f s) = ts_transcripts s"
  by (simp add: modify_task_def)

lemma fold_modify_tasks:
  "ts_tasks (fold (\<lambda>i. modify_task i (f i)) is s)
     = fold (\<lambda>i. hm_modify i (f i)) is (ts_tasks s)"
  "ts_transcripts (fold (\<lambda>i. modify_task i (f i)) is s) = ts_transcripts s"
  by (induction "is" arbitrary: s) (simp_all add: modify_task_def)

definition selected :: "(task \<Rightarrow> bool) \<Rightarrow> task_store \<Rightarrow> task_id list" where
  "selected P s = map tk_id (filter P (hm_values (ts_tasks s)))"

lemma selected_distinct: "keyed_tasks s \<Longrightarrow> distinct (selected P s)"
proof -
  assume k: "keyed_tasks s"
  then have "map tk_id (hm_values (ts_tasks s)) = map fst (ts_tasks s)"
    by (auto simp: hm_values_def keyed_tasks_def hm_get_in [symmetric])
  then have "distinct (map tk_id (hm_values (ts_tasks s)))"
    using keyed_wf [OF k] by (simp add: hm_wf_def)
  then show ?thesis unfolding selected_def by (rule distinct_map_filter)
qed

lemma selected_iff:
  "keyed_tasks s \<Longrightarrow> i \<in> set (selected P s) \<longleftrightarrow> is_some_and P (map_of (ts_tasks s) i)"
  by (auto simp: selected_def is_some_and_def keyed_tasks_def hm_values_in image_iff
      split: option.splits)

lemma fold_selected_get:
  assumes "keyed_tasks s"
  shows "map_of (ts_tasks (fold (\<lambda>i. modify_task i (f i)) (selected P s) s)) k
    = map_option (\<lambda>t. if P t then f k t else t) (map_of (ts_tasks s) k)"
  unfolding fold_modify_tasks hm.lookup_fold_modify [OF selected_distinct [OF assms]]
  by (auto simp: selected_iff [OF assms] is_some_and_def split: option.split)

text \<open>What one operation does to one task.\<close>

definition task_effect :: "task_op \<Rightarrow> task_id \<Rightarrow> task \<Rightarrow> task option" where
  "task_effect a i t = (case a of
       Task_Insert _ \<Rightarrow> Some t
     | Task_Append now k c \<Rightarrow>
         Some (if k = i then t\<lparr>tk_output := tk_output t @ c, tk_updated_at := now\<rparr> else t)
     | Task_Finish now k st e \<Rightarrow>
         Some (if k = i \<and> st \<noteq> Running \<and> st \<noteq> Paused then finish_task now st e t else t)
     | Task_Pause now k c \<Rightarrow>
         Some (if k = i \<and> tk_status t = Running then pause_task now c t else t)
     | Task_Claim now k m \<Rightarrow>
         Some (if k = i \<and> tk_status t = Paused then
                 (if tk_pause_cause t = Some Shutdown then resume_task now t
                  else if tk_resume_count t < m
                       then resume_task now (t\<lparr>tk_resume_count := tk_resume_count t + 1\<rparr>)
                       else t)
               else t)
     | Task_Orphans t0 now n \<Rightarrow>
         Some (if stale_running (t0 - seconds n) t then pause_task now Crash t else t)
     | Task_Save now k ms \<Rightarrow> Some (if k = i then t\<lparr>tk_updated_at := now\<rparr> else t)
     | Task_Recover t0 clock n \<Rightarrow>
         Some (if stale_running (t0 - seconds n) t then fail_stuck (clock i) t else t)
     | Task_Cleanup now n \<Rightarrow>
         if is_none_or (\<lambda>f. now - days n \<le> f) (tk_finished_at t) then Some t else None)"

lemma task_step_effect:
  assumes k: "keyed_tasks s" and t: "map_of (ts_tasks s) i = Some t"
  shows "map_of (ts_tasks (task_step a s)) i = task_effect a i t"
proof (cases a)
  case (Task_Insert t')
  with t show ?thesis
    by (auto simp: task_step_def task_insert_def task_effect_def hm_simps)
next
  case (Task_Pause now k c)
  with t show ?thesis
    by (auto simp: task_step_def task_pause_def task_effect_def split: option.split)
next
  case (Task_Claim now k m)
  with t show ?thesis
    by (auto simp: task_step_def claim_for_resume_def task_effect_def Let_def split: option.split)
next
  case (Task_Orphans t0 now n)
  with t show ?thesis
    using fold_selected_get [OF k, of "\<lambda>i. pause_task now Crash" "stale_running (t0 - seconds n)" i]
    by (simp add: task_step_def task_pause_orphans_def task_effect_def Let_def selected_def)
next
  case (Task_Recover t0 clock n)
  with t show ?thesis
    using fold_selected_get [OF k, of "\<lambda>i. fail_stuck (clock i)" "stale_running (t0 - seconds n)" i]
    by (simp add: task_step_def task_recover_stuck_def task_effect_def Let_def selected_def)
qed (use t in \<open>auto simp: task_step_def task_append_output_def task_finish_def task_effect_def
      task_save_transcript_def task_cleanup_old_def Let_def hm_contains_def
      hm_get_retain [OF keyed_wf [OF k]]\<close>)

lemma task_step_absent:
  assumes k: "keyed_tasks s" and t: "map_of (ts_tasks s) i = None"
  shows "map_of (ts_tasks (task_step a s)) i
    = (case a of Task_Insert t \<Rightarrow> if tk_id t = i then Some t else None | _ \<Rightarrow> None)"
proof (cases a)
  case (Task_Insert t')
  with t show ?thesis
    by (auto simp: task_step_def task_insert_def hm_simps)
next
  case (Task_Pause now k c)
  with t show ?thesis by (auto simp: task_step_def task_pause_def split: option.split)
next
  case (Task_Claim now k m)
  with t show ?thesis
    by (auto simp: task_step_def claim_for_resume_def Let_def split: option.split)
next
  case (Task_Orphans t0 now n)
  with t show ?thesis
    using fold_selected_get [OF k, of "\<lambda>i. pause_task now Crash" "stale_running (t0 - seconds n)" i]
    by (simp add: task_step_def task_pause_orphans_def Let_def selected_def)
next
  case (Task_Recover t0 clock n)
  with t show ?thesis
    using fold_selected_get [OF k, of "\<lambda>i. fail_stuck (clock i)" "stale_running (t0 - seconds n)" i]
    by (simp add: task_step_def task_recover_stuck_def Let_def selected_def)
qed (use t in \<open>auto simp: task_step_def task_append_output_def task_finish_def
      task_save_transcript_def task_cleanup_old_def Let_def hm_contains_def
      hm_get_retain [OF keyed_wf [OF k]]\<close>)

lemma task_effect_id: "task_effect a i t = Some t' \<Longrightarrow> tk_id t' = tk_id t"
  by (auto simp: task_effect_def split: task_op.splits if_splits)

lemma task_step_hm_wf: "keyed_tasks s \<Longrightarrow> hm_wf (ts_tasks (task_step a s))"
  by (cases a)
     (auto simp: task_step_def task_insert_def task_append_output_def task_finish_def
        task_pause_def claim_for_resume_def task_pause_orphans_def task_save_transcript_def
        task_recover_stuck_def task_cleanup_old_def Let_def modify_task_def fold_modify_tasks
        keyed_wf hm.wf_fold_modify split: option.split)

lemma task_step_keyed: "keyed_tasks s \<Longrightarrow> keyed_tasks (task_step a s)"
proof -
  assume k: "keyed_tasks s"
  have "tk_id t = i" if "map_of (ts_tasks (task_step a s)) i = Some t" for i t
    using that task_step_effect [OF k] task_step_absent [OF k, of i a] k
    by (cases "map_of (ts_tasks s) i")
       (auto simp: keyed_tasks_def dest: task_effect_id split: task_op.splits if_splits)
  then show ?thesis using task_step_hm_wf [OF k] by (simp add: keyed_tasks_def)
qed

section \<open>The record invariant\<close>

definition task_ok :: "task \<Rightarrow> bool" where
  "task_ok t \<longleftrightarrow>
     (tk_pause_cause t \<noteq> None \<longleftrightarrow> tk_status t = Paused) \<and>
     (tk_paused_at t \<noteq> None \<longleftrightarrow> tk_status t = Paused) \<and>
     (tk_finished_at t \<noteq> None \<longleftrightarrow> tk_status t = Done \<or> tk_status t = Failed)"

definition task_wf :: "task_store \<Rightarrow> bool" where
  "task_wf s \<longleftrightarrow> keyed_tasks s
     \<and> (\<forall>i t. map_of (ts_tasks s) i = Some t \<longrightarrow> task_ok t)
     \<and> (\<forall>i. map_of (ts_transcripts s) i \<noteq> None \<longrightarrow> map_of (ts_tasks s) i \<noteq> None)
     \<and> hm_wf (ts_transcripts s)"

definition inserts_ok :: "task_op \<Rightarrow> bool" where
  "inserts_ok a = (case a of Task_Insert t \<Rightarrow> task_ok t | _ \<Rightarrow> True)"

lemma task_wf_new: "task_wf task_store_new"
  by (simp add: task_wf_def task_store_new_def keyed_tasks_def)

lemma task_effect_ok: "task_ok t \<Longrightarrow> task_effect a i t = Some t' \<Longrightarrow> task_ok t'"
  by (cases a; cases "tk_status t")
     (auto simp: task_effect_def task_ok_def finish_task_def pause_task_def resume_task_def
        fail_stuck_def stale_running_def split: if_splits;
      metis task_status.exhaust)+

lemma task_step_transcripts:
  assumes "task_wf s" "map_of (ts_transcripts (task_step a s)) i \<noteq> None"
  shows "map_of (ts_tasks (task_step a s)) i \<noteq> None"
proof -
  have k: "keyed_tasks s" and tr: "map_of (ts_transcripts s) i \<noteq> None \<longrightarrow> map_of (ts_tasks s) i \<noteq> None"
    and wt: "hm_wf (ts_transcripts s)"
    using assms(1) by (auto simp: task_wf_def)
  show ?thesis
  proof (cases a)
    case (Task_Cleanup now n)
    with assms(2) show ?thesis
      by (auto simp: task_step_def task_cleanup_old_def Let_def hm_get_retain [OF wt] hm_contains_def
          split: option.splits if_splits)
  next
    case (Task_Save now k ms)
    with assms(2) tr show ?thesis
      by (auto simp: task_step_def task_save_transcript_def hm_simps split: if_splits)
  next
    case (Task_Orphans t0 now n)
    with assms(2) tr show ?thesis
      using fold_selected_get [OF k, of "\<lambda>i. pause_task now Crash" "stale_running (t0 - seconds n)" i]
      by (simp add: task_step_def task_pause_orphans_def Let_def selected_def fold_modify_tasks)
  next
    case (Task_Recover t0 clock n)
    with assms(2) tr show ?thesis
      using fold_selected_get [OF k, of "\<lambda>i. fail_stuck (clock i)" "stale_running (t0 - seconds n)" i]
      by (simp add: task_step_def task_recover_stuck_def Let_def selected_def fold_modify_tasks)
  qed (use assms(2) tr in \<open>auto simp: task_step_def task_insert_def task_append_output_def
        task_finish_def task_pause_def claim_for_resume_def Let_def hm_simps
        split: option.splits if_splits\<close>)
qed

lemma task_step_transcripts_wf:
  "hm_wf (ts_transcripts s) \<Longrightarrow> hm_wf (ts_transcripts (task_step a s))"
  by (cases a)
     (auto simp: task_step_def task_insert_def task_append_output_def task_finish_def
        task_pause_def claim_for_resume_def task_pause_orphans_def task_save_transcript_def
        task_recover_stuck_def task_cleanup_old_def Let_def fold_modify_tasks
        split: option.split)

lemma task_step_wf: "task_wf s \<Longrightarrow> inserts_ok a \<Longrightarrow> task_wf (task_step a s)"
proof -
  assume wf: "task_wf s" and a: "inserts_ok a"
  then have k: "keyed_tasks s" by (simp add: task_wf_def)
  have "task_ok t" if t: "map_of (ts_tasks (task_step a s)) i = Some t" for i t
  proof (cases "map_of (ts_tasks s) i")
    case None
    from t a show ?thesis
      unfolding task_step_absent [OF k None]
      by (simp add: inserts_ok_def split: task_op.splits if_splits)
  next
    case (Some t0)
    with wf have "task_ok t0" by (simp add: task_wf_def)
    from task_effect_ok [OF this] t show ?thesis unfolding task_step_effect [OF k Some] .
  qed
  then show ?thesis
    using task_step_keyed [OF k] task_step_transcripts [OF wf] task_step_transcripts_wf wf
    unfolding task_wf_def by blast
qed

text \<open>C37: the task invariant. Over any sequence of store operations that insert well-formed
  records, a pause cause and a pause time are set exactly while the task is paused, a finish time
  exactly once it is done or failed, and every transcript belongs to a stored task.\<close>

theorem task_invariant:
  assumes "task_wf s" "list_all inserts_ok ops"
  shows "task_wf (fold task_step ops s)"
  using assms by (induction ops arbitrary: s) (auto intro: task_step_wf)

section \<open>The lifecycle\<close>

inductive lifecycle :: "task_status \<Rightarrow> task_status \<Rightarrow> bool" where
  pause: "lifecycle Running Paused"
| resume: "lifecycle Paused Running"
| stay: "lifecycle st st"
| finish_done: "lifecycle st Done"
| finish_failed: "lifecycle st Failed"

inductive_cases lifecycle_Done: "lifecycle Done st"
inductive_cases lifecycle_Failed: "lifecycle Failed st"
inductive_simps lifecycle_to_Running: "lifecycle st Running"
inductive_simps lifecycle_to_Paused: "lifecycle st Paused"

lemma task_effect_lifecycle:
  "task_effect a i t = Some t' \<Longrightarrow> lifecycle (tk_status t) (tk_status t')"
  by (cases a; cases "tk_status t"; cases "tk_status t'")
     (auto simp: task_effect_def finish_task_def pause_task_def resume_task_def fail_stuck_def
        stale_running_def intro: lifecycle.intros split: if_splits)

fun stays_present :: "task_id \<Rightarrow> task_op list \<Rightarrow> task_store \<Rightarrow> bool" where
  "stays_present i [] s = (map_of (ts_tasks s) i \<noteq> None)"
| "stays_present i (a # as) s =
     (map_of (ts_tasks s) i \<noteq> None \<and> stays_present i as (task_step a s))"

text \<open>A finished task is never resurrected: whatever operations follow, as long as the record
  is not cleaned up, a task that is done or failed stays done or failed.\<close>

theorem finished_tasks_stay_finished:
  assumes "keyed_tasks s" "stays_present i ops s"
    and "map_option tk_status (map_of (ts_tasks s) i) \<in> {Some Done, Some Failed}"
  shows "map_option tk_status (map_of (ts_tasks (fold task_step ops s)) i) \<in> {Some Done, Some Failed}"
  using assms
proof (induction ops arbitrary: s)
  case (Cons a ops)
  from Cons.prems obtain t where t: "map_of (ts_tasks s) i = Some t"
    "tk_status t = Done \<or> tk_status t = Failed" by auto
  have "map_of (ts_tasks (task_step a s)) i \<noteq> None"
    using Cons.prems(2) by (cases ops) simp_all
  then obtain t' where t': "task_effect a i t = Some t'"
    using task_step_effect [OF Cons.prems(1) t(1)] by auto
  from task_effect_lifecycle [OF t'] t(2) have "tk_status t' = Done \<or> tk_status t' = Failed"
    by (auto elim: lifecycle_Done lifecycle_Failed)
  then have "map_option tk_status (map_of (ts_tasks (task_step a s)) i) \<in> {Some Done, Some Failed}"
    using t' task_step_effect [OF Cons.prems(1) t(1)] by auto
  with Cons.IH [OF task_step_keyed [OF Cons.prems(1)]] Cons.prems(2) show ?case by simp
qed simp

section \<open>The resume cap\<close>

text \<open>A claim that counts toward the cap: granted, and not of a clean shutdown pause.\<close>

definition counted_claim :: "task_op \<Rightarrow> task_id \<Rightarrow> task_store \<Rightarrow> bool" where
  "counted_claim a i s = (case a of
       Task_Claim now k m \<Rightarrow> k = i \<and> snd (claim_for_resume now i m s)
         \<and> Option.bind (map_of (ts_tasks s) i) tk_pause_cause \<noteq> Some Shutdown
     | _ \<Rightarrow> False)"

fun counted_claims :: "task_id \<Rightarrow> task_op list \<Rightarrow> task_store \<Rightarrow> nat" where
  "counted_claims i [] s = 0"
| "counted_claims i (a # as) s =
     (if counted_claim a i s then 1 else 0) + counted_claims i as (task_step a s)"

definition claims_capped :: "task_id \<Rightarrow> 32 word \<Rightarrow> task_op \<Rightarrow> bool" where
  "claims_capped i m a = (case a of Task_Claim _ k m' \<Rightarrow> k \<noteq> i \<or> m' \<le> m | _ \<Rightarrow> True)"

lemma word_less_incr: "c < m \<Longrightarrow> unat (c + 1) = unat c + 1" for c m :: "32 word"
proof -
  assume "c < m"
  then have "unat c < unat m" by (simp add: word_less_nat_alt)
  moreover have "unat m < 2 ^ 32" using unsigned_less [of m] by simp
  ultimately show ?thesis by (simp add: unat_add_lem unsigned_1 unat_word_ariths)
qed

lemma effect_resume_count:
  assumes "map_of (ts_tasks s) i = Some t" "task_effect a i t = Some t'"
  shows "unat (tk_resume_count t') = unat (tk_resume_count t) + (if counted_claim a i s then 1 else 0)
    \<and> (claims_capped i m a \<and> counted_claim a i s \<longrightarrow> unat (tk_resume_count t') \<le> unat m)"
proof (cases a)
  case (Task_Claim now k m')
  show ?thesis
  proof (cases "counted_claim a i s")
    case True
    then have *: "k = i" "tk_status t = Paused" "tk_pause_cause t \<noteq> Some Shutdown"
      "tk_resume_count t < m'"
      using assms(1) by (auto simp: counted_claim_def Task_Claim claim_for_resume_def Let_def
          split: if_splits)
    then have t': "t' = resume_task now (t\<lparr>tk_resume_count := tk_resume_count t + 1\<rparr>)"
      using assms(2) by (simp add: task_effect_def Task_Claim)
    have "unat (tk_resume_count t + 1) = unat (tk_resume_count t) + 1"
      by (rule word_less_incr [OF *(4)])
    moreover have "unat (tk_resume_count t) < unat m'" using *(4) by (simp add: word_less_nat_alt)
    ultimately show ?thesis
      using True by (auto simp: t' resume_task_def claims_capped_def Task_Claim *(1) word_le_nat_alt)
  next
    case False
    then have "tk_resume_count t' = tk_resume_count t"
      using assms
      by (cases "tk_pause_cause t = Some Shutdown"; cases "tk_resume_count t < m'";
          cases "k = i"; cases "tk_status t = Paused")
        (simp_all add: counted_claim_def Task_Claim claim_for_resume_def task_effect_def not_less,
          auto simp: resume_task_def not_le split: if_splits)
    with False show ?thesis by simp
  qed
qed (use assms in \<open>auto simp: counted_claim_def task_effect_def finish_task_def pause_task_def
      fail_stuck_def split: if_splits\<close>)

text \<open>A poison task cannot crash-loop the host. While its record exists, the counter grows by
  exactly one for each granted claim of a forced or crash pause, never wraps at 32 bits, and with
  claims capped at \<open>m\<close> the number of such claims is bounded by \<open>m\<close>.\<close>

theorem resume_cap:
  assumes "keyed_tasks s" "stays_present i ops s" "list_all (claims_capped i m) ops"
    and "map_of (ts_tasks s) i = Some t" "map_of (ts_tasks (fold task_step ops s)) i = Some t'"
  shows "unat (tk_resume_count t') = unat (tk_resume_count t) + counted_claims i ops s
    \<and> counted_claims i ops s \<le> unat m"
proof -
  have "unat (tk_resume_count t') = unat (tk_resume_count t) + counted_claims i ops s
    \<and> (counted_claims i ops s = 0 \<or> unat (tk_resume_count t') \<le> unat m)"
    using assms
  proof (induction ops arbitrary: s t)
    case (Cons a ops)
    have "map_of (ts_tasks (task_step a s)) i \<noteq> None"
      using Cons.prems(2) by (cases ops) simp_all
    then obtain t1 where t1: "task_effect a i t = Some t1" "map_of (ts_tasks (task_step a s)) i = Some t1"
      using task_step_effect [OF Cons.prems(1,4)] by auto
    have IH: "unat (tk_resume_count t') = unat (tk_resume_count t1) + counted_claims i ops (task_step a s)
        \<and> (counted_claims i ops (task_step a s) = 0 \<or> unat (tk_resume_count t') \<le> unat m)"
      using Cons.prems(2,3,5) by (intro Cons.IH task_step_keyed [OF Cons.prems(1)] t1(2)) simp_all
    from effect_resume_count [OF Cons.prems(4) t1(1), of m] IH Cons.prems(3) show ?case
      by auto
  qed simp
  then show ?thesis by auto
qed

section \<open>Resume claims as a lease\<close>

definition task_granted :: "task_op \<Rightarrow> task_store \<Rightarrow> task_id list" where
  "task_granted a s = (case a of
       Task_Claim now i m \<Rightarrow> if snd (claim_for_resume now i m s) then [i] else [] | _ \<Rightarrow> [])"

definition task_held :: "task_store \<Rightarrow> task_id \<Rightarrow> bool" where
  "task_held s i = is_some_and (\<lambda>t. tk_status t \<noteq> Paused) (map_of (ts_tasks s) i)"

text \<open>A claimed task becomes claimable again only through a pause, the orphan scan, or removal.\<close>

definition task_releases :: "task_op \<Rightarrow> task_store \<Rightarrow> task_id \<Rightarrow> bool" where
  "task_releases a s i = (case a of
       Task_Pause now k c \<Rightarrow> k = i
     | Task_Orphans t0 now n \<Rightarrow> is_some_and (stale_running (t0 - seconds n)) (map_of (ts_tasks s) i)
     | Task_Cleanup now n \<Rightarrow>
         is_some_and (\<lambda>t. is_some_and (\<lambda>f. f < now - days n) (tk_finished_at t)) (map_of (ts_tasks s) i)
     | _ \<Rightarrow> False)"

interpretation resume: lease keyed_tasks task_held task_step task_granted task_releases
proof
  fix s :: task_store and a i
  assume k: "keyed_tasks s"
  show "keyed_tasks (task_step a s)" by (rule task_step_keyed [OF k])
  show "distinct (task_granted a s)" by (simp add: task_granted_def split: task_op.split)
  {
    assume "i \<in> set (task_granted a s)"
    then obtain now m where a: "a = Task_Claim now i m" "snd (claim_for_resume now i m s)"
      by (auto simp: task_granted_def split: task_op.splits if_splits)
    then show "\<not> task_held s i" "task_held (task_step a s) i"
      by (auto simp: task_held_def claim_for_resume_def task_step_def Let_def resume_task_def
          split: option.splits if_splits)
  }
  assume held: "task_held s i" and nr: "\<not> task_releases a s i"
  then obtain t where t: "map_of (ts_tasks s) i = Some t" "tk_status t \<noteq> Paused"
    by (auto simp: task_held_def is_some_and_def split: option.splits)
  have "task_effect a i t \<noteq> None"
    using nr t by (auto simp: task_effect_def task_releases_def is_none_or_def is_some_and_def
        split: task_op.splits option.splits)
  moreover have "tk_status t' \<noteq> Paused" if "task_effect a i t = Some t'" for t'
    using that nr t by (auto simp: task_effect_def task_releases_def finish_task_def
        resume_task_def fail_stuck_def split: task_op.splits if_splits)
  ultimately show "task_held (task_step a s) i"
    using task_step_effect [OF k t(1)] by (auto simp: task_held_def)
qed

text \<open>C36: a paused task is resumed at most once: over any sequence of operations, no two claims of
  the task are granted unless it was paused again (or removed) in between.\<close>

theorem no_double_resume:
  assumes "keyed_tasks s" "never_released task_step task_releases i ops s"
  shows "count_list (grants task_step task_granted ops s) i \<le> 1"
  using assms by (rule resume.granted_at_most_once)

section \<open>Witnesses\<close>

definition sample_task :: task where
  "sample_task = \<lparr>tk_id = ''t'', tk_owner = ''u'', tk_name = None, tk_prompt = [],
     tk_status = Running, tk_output = [], tk_error = None, tk_created_at = 0, tk_updated_at = 0,
     tk_finished_at = None, tk_parent_session_id = None, tk_parent_task_id = None,
     tk_context_mode = None, tk_reasoning_effort_override = None, tk_resume_spec = None,
     tk_resume_count = 0, tk_pause_cause = None, tk_paused_at = None\<rparr>"

definition sample_tasks :: task_store where
  "sample_tasks = \<lparr>ts_tasks = [(''t'', sample_task)], ts_transcripts = []\<rparr>"

lemma sample_tasks_keyed: "keyed_tasks sample_tasks"
  by (simp add: keyed_tasks_def sample_tasks_def sample_task_def hm_wf_def)

lemma task_invariant_witness:
  "task_wf (fold task_step [Task_Insert sample_task, Task_Pause 1 ''t'' Crash] task_store_new)"
  by (rule task_invariant [OF task_wf_new]) (simp add: inserts_ok_def task_ok_def sample_task_def)

lemma finished_tasks_stay_finished_witness:
  "map_option tk_status (map_of (ts_tasks (fold task_step [Task_Pause 1 ''t'' Forced]
     (sample_tasks\<lparr>ts_tasks := [(''t'', sample_task\<lparr>tk_status := Done\<rparr>)]\<rparr>))) ''t'')
   \<in> {Some Done, Some Failed}"
  by (rule finished_tasks_stay_finished)
     (simp_all add: keyed_tasks_def sample_tasks_def sample_task_def hm_wf_def task_step_def
        task_pause_def)

lemma resume_cap_witness:
  "counted_claims ''t'' [Task_Pause 1 ''t'' Crash, Task_Claim 2 ''t'' 3] sample_tasks \<le> 3"
proof -
  let ?ops = "[Task_Pause 1 ''t'' Crash, Task_Claim 2 ''t'' 3]"
  have present: "stays_present ''t'' ?ops sample_tasks"
    by (simp add: task_step_def task_pause_def claim_for_resume_def sample_tasks_def
        sample_task_def pause_task_def modify_task_def hm_get_modify Let_def)
  then obtain t' where "map_of (ts_tasks (fold task_step ?ops sample_tasks)) ''t'' = Some t'"
    by auto
  moreover have "map_of (ts_tasks sample_tasks) ''t'' = Some sample_task"
    by (simp add: sample_tasks_def)
  ultimately show ?thesis
    using resume_cap [OF sample_tasks_keyed present, of 3 sample_task t']
    by (simp add: claims_capped_def)
qed

lemma no_double_resume_witness:
  "count_list (grants task_step task_granted [Task_Claim 2 ''t'' 3, Task_Claim 3 ''t'' 3]
     sample_tasks) ''t'' \<le> 1"
  by (rule no_double_resume [OF sample_tasks_keyed]) (simp add: task_releases_def)

end
