(* ===== verification/Goal_Store.thy ===== *)
theory Goal_Store
  imports Store_Base
begin

text \<open>
  Thread goals: the records (\<open>crabgent-store/src/records/goal.rs\<close>) and the in-memory store
  (\<open>crabgent-store/src/memory/goal.rs\<close>). A session has at most one goal, token and time usage
  saturate at the \<open>i64\<close> bounds, and an active goal whose positive budget is spent becomes
  \<open>BudgetLimited\<close>. Seen through \<open>get_for_session\<close> the store refines a partial map from sessions to
  goals.
\<close>

section \<open>Records\<close>

type_synonym goal_id = string

datatype goal_status =
  GS_Active | GS_Paused | GS_Suspended | GS_Blocked | GS_UsageLimited | GS_BudgetLimited | GS_Complete

definition goal_status_as_str :: "goal_status \<Rightarrow> string" where
  "goal_status_as_str s = (case s of
       GS_Active \<Rightarrow> ''active'' | GS_Paused \<Rightarrow> ''paused'' | GS_Suspended \<Rightarrow> ''suspended''
     | GS_Blocked \<Rightarrow> ''blocked'' | GS_UsageLimited \<Rightarrow> ''usage_limited''
     | GS_BudgetLimited \<Rightarrow> ''budget_limited'' | GS_Complete \<Rightarrow> ''complete'')"

definition goal_status_from_str :: "string \<Rightarrow> string + goal_status" where
  "goal_status_from_str s =
     (if s = ''active'' then Inr GS_Active else if s = ''paused'' then Inr GS_Paused
      else if s = ''suspended'' then Inr GS_Suspended else if s = ''blocked'' then Inr GS_Blocked
      else if s = ''usage_limited'' then Inr GS_UsageLimited
      else if s = ''budget_limited'' then Inr GS_BudgetLimited
      else if s = ''complete'' then Inr GS_Complete else Inl s)"

lemma goal_status_round_trip [simp]: "goal_status_from_str (goal_status_as_str s) = Inr s"
  by (cases s) (simp_all add: goal_status_from_str_def goal_status_as_str_def)

definition goal_is_active :: "goal_status \<Rightarrow> bool" where
  "goal_is_active s \<longleftrightarrow> s = GS_Active"

definition goal_is_terminal :: "goal_status \<Rightarrow> bool" where
  "goal_is_terminal s \<longleftrightarrow> s = GS_Complete \<or> s = GS_BudgetLimited"

record thread_goal =
  gl_id :: goal_id
  gl_owner :: owner
  gl_session :: session_id
  gl_objective :: string
  gl_status :: goal_status
  gl_token_budget :: "int option"
  gl_tokens_used :: int
  gl_time_used_seconds :: int
  gl_created_at :: instant
  gl_updated_at :: instant

definition thread_goal_new ::
  "goal_id \<Rightarrow> instant \<Rightarrow> owner \<Rightarrow> session_id \<Rightarrow> string \<Rightarrow> int option \<Rightarrow> thread_goal" where
  "thread_goal_new fresh now ow session objective budget =
     \<lparr>gl_id = fresh, gl_owner = ow, gl_session = session, gl_objective = objective,
      gl_status = GS_Active, gl_token_budget = budget, gl_tokens_used = 0,
      gl_time_used_seconds = 0, gl_created_at = now, gl_updated_at = now\<rparr>"

definition remaining_tokens :: "thread_goal \<Rightarrow> int option" where
  "remaining_tokens g = map_option (\<lambda>b. max (b - gl_tokens_used g) 0) (gl_token_budget g)"

record goal_update =
  gu_objective :: "string option"
  gu_status :: "goal_status option"

definition goal_apply :: "goal_update \<Rightarrow> instant \<Rightarrow> thread_goal \<Rightarrow> thread_goal" where
  "goal_apply u now g = g\<lparr>gl_objective := unwrap_or (gl_objective g) (gu_objective u),
     gl_status := unwrap_or (gl_status g) (gu_status u), gl_updated_at := now\<rparr>"

definition max_goal_objective_chars :: nat where
  "max_goal_objective_chars = 4000"

definition validate_goal_objective :: "string \<Rightarrow> string + string" where
  "validate_goal_objective objective =
     (let trimmed = trim objective in
      if trimmed = [] then Inl ''goal objective must not be empty''
      else if max_goal_objective_chars < char_count trimmed then
        Inl (''goal objective must be at most '' @ show_nat max_goal_objective_chars @ '' characters'')
      else Inr trimmed)"

definition validate_goal_budget :: "int option \<Rightarrow> string + unit" where
  "validate_goal_budget b =
     (if is_some_and (\<lambda>budget. budget \<le> 0) b
      then Inl ''goal token_budget must be positive when provided'' else Inr ())"

section \<open>Operations\<close>

type_synonym goal_store = "(goal_id, thread_goal) hmap"

definition apply_budget_limit :: "thread_goal \<Rightarrow> thread_goal" where
  "apply_budget_limit g =
     (if gl_status g = GS_Active
         \<and> is_some_and (\<lambda>budget. 0 < budget \<and> budget \<le> gl_tokens_used g) (gl_token_budget g)
      then g\<lparr>gl_status := GS_BudgetLimited\<rparr> else g)"

definition goal_create :: "thread_goal \<Rightarrow> goal_store \<Rightarrow> goal_store \<times> (store_error + unit)" where
  "goal_create g goals =
     (if hm_contains (gl_id g) goals
      then (goals, Inl (SE_Conflict (''goal already exists: '' @ gl_id g)))
      else if list_ex (\<lambda>x. gl_session x = gl_session g) (hm_values goals)
      then (goals, Inl (SE_Conflict (''session already has a goal: '' @ gl_session g)))
      else (AList.update (gl_id g) g goals, Inr ()))"

definition goal_get :: "goal_id \<Rightarrow> goal_store \<Rightarrow> thread_goal option" where
  "goal_get i goals = map_of goals i"

definition get_for_session :: "session_id \<Rightarrow> goal_store \<Rightarrow> thread_goal option" where
  "get_for_session sid goals = find (\<lambda>g. gl_session g = sid) (hm_values goals)"

definition goal_update_op ::
  "instant \<Rightarrow> goal_id \<Rightarrow> goal_update \<Rightarrow> goal_store \<Rightarrow> goal_store \<times> bool" where
  "goal_update_op now i u goals =
     (if hm_contains i goals then (hm_modify i (goal_apply u now) goals, True) else (goals, False))"

definition account_goal :: "int \<Rightarrow> int \<Rightarrow> instant \<Rightarrow> thread_goal \<Rightarrow> thread_goal" where
  "account_goal token_delta time_delta now g =
     apply_budget_limit (g\<lparr>
       gl_tokens_used := saturating_add_i64 (gl_tokens_used g) (max token_delta 0),
       gl_time_used_seconds := saturating_add_i64 (gl_time_used_seconds g) (max time_delta 0),
       gl_updated_at := now\<rparr>)"

definition account_usage ::
  "goal_id \<Rightarrow> int \<Rightarrow> int \<Rightarrow> instant \<Rightarrow> goal_store \<Rightarrow> goal_store \<times> thread_goal option" where
  "account_usage i token_delta time_delta now goals = (case map_of goals i of
       None \<Rightarrow> (goals, None)
     | Some g \<Rightarrow> (hm_modify i (account_goal token_delta time_delta now) goals,
                  Some (account_goal token_delta time_delta now g)))"

definition goal_delete :: "goal_id \<Rightarrow> goal_store \<Rightarrow> goal_store \<times> bool" where
  "goal_delete i goals = (AList.delete i goals, hm_contains i goals)"

text \<open>\<open>Reverse\<close> sorts the latest update first; the sort is stable.\<close>

definition goal_list_by_status :: "goal_status \<Rightarrow> page \<Rightarrow> goal_store \<Rightarrow> thread_goal list" where
  "goal_list_by_status st p goals =
     list_page (\<lambda>g. gl_status g = st) (\<lambda>g. - gl_updated_at g) p goals"

fun resume_suspended :: "instant \<Rightarrow> goal_store \<Rightarrow> goal_store \<times> thread_goal list" where
  "resume_suspended now [] = ([], [])"
| "resume_suspended now ((k, g) # goals) =
     (let (goals', resumed) = resume_suspended now goals in
      if gl_status g = GS_Suspended then
        (let g' = g\<lparr>gl_status := GS_Active, gl_updated_at := now\<rparr> in ((k, g') # goals', g' # resumed))
      else ((k, g) # goals', resumed))"

section \<open>One goal per session\<close>

definition goal_wf :: "goal_store \<Rightarrow> bool" where
  "goal_wf goals \<longleftrightarrow> hm_wf goals \<and> (\<forall>i g. map_of goals i = Some g \<longrightarrow> gl_id g = i)
     \<and> distinct (map gl_session (hm_values goals))"

datatype goal_op =
    Goal_Create thread_goal
  | Goal_Update instant goal_id goal_update
  | Goal_Account goal_id int int instant
  | Goal_Delete goal_id
  | Goal_Resume instant

definition goal_step :: "goal_op \<Rightarrow> goal_store \<Rightarrow> goal_store" where
  "goal_step a s = (case a of
       Goal_Create g \<Rightarrow> fst (goal_create g s)
     | Goal_Update now i u \<Rightarrow> fst (goal_update_op now i u s)
     | Goal_Account i td sd now \<Rightarrow> fst (account_usage i td sd now s)
     | Goal_Delete i \<Rightarrow> fst (goal_delete i s)
     | Goal_Resume now \<Rightarrow> fst (resume_suspended now s))"

lemma goal_kept [simp]:
  "gl_id (goal_apply u now g) = gl_id g" "gl_session (goal_apply u now g) = gl_session g"
  "gl_id (account_goal td sd now g) = gl_id g" "gl_session (account_goal td sd now g) = gl_session g"
  by (simp_all add: goal_apply_def account_goal_def apply_budget_limit_def)

definition resume_goal :: "instant \<Rightarrow> thread_goal \<Rightarrow> thread_goal" where
  "resume_goal now g =
     (if gl_status g = GS_Suspended then g\<lparr>gl_status := GS_Active, gl_updated_at := now\<rparr> else g)"

lemma resume_suspended_alt:
  "resume_suspended now goals =
     (map (\<lambda>(k, g). (k, resume_goal now g)) goals,
      map (resume_goal now) (filter (\<lambda>g. gl_status g = GS_Suspended) (hm_values goals)))"
  by (induction now goals rule: resume_suspended.induct)
     (simp_all add: hm_values_def resume_goal_def Let_def)

lemma values_delete_distinct:
  "distinct (map h (hm_values m)) \<Longrightarrow> distinct (map h (hm_values (AList.delete k m)))"
  by (simp add: hm_values_def AList.delete_eq distinct_map_filter)

lemma goal_step_wf: "goal_wf s \<Longrightarrow> goal_wf (goal_step a s)"
proof (cases a)
  case (Goal_Create g)
  assume "goal_wf s"
  with Goal_Create show ?thesis
    by (auto simp: goal_step_def goal_create_def goal_wf_def values_update_new hm_get_update
        list_ex_iff split: if_splits)
next
  case (Goal_Update now i u)
  assume "goal_wf s"
  with Goal_Update show ?thesis
    by (auto simp: goal_step_def goal_update_op_def goal_wf_def values_modify hm_get_modify
        split: if_splits)
next
  case (Goal_Account i td sd now)
  assume "goal_wf s"
  with Goal_Account show ?thesis
    by (auto simp: goal_step_def account_usage_def goal_wf_def values_modify hm_get_modify
        split: if_splits option.splits)
next
  case (Goal_Delete i)
  assume "goal_wf s"
  with Goal_Delete show ?thesis
    by (auto simp: goal_step_def goal_delete_def goal_wf_def values_delete_distinct
        hm_get_delete split: if_splits)
next
  case (Goal_Resume now)
  assume wf: "goal_wf s"
  have keys: "map fst (map (\<lambda>(k, g). (k, resume_goal now g)) s) = map fst s"
    by (simp add: case_prod_beta)
  have sess: "map gl_session (hm_values (map (\<lambda>(k, g). (k, resume_goal now g)) s))
      = map gl_session (hm_values s)"
    by (simp add: hm_values_def case_prod_beta resume_goal_def)
  have "map_of (map (\<lambda>(k, g). (k, resume_goal now g)) s) i = map_option (resume_goal now) (map_of s i)"
    for i by (induction s) auto
  moreover have "gl_id (resume_goal now g) = gl_id g" for g by (simp add: resume_goal_def)
  ultimately show ?thesis
    using wf by (auto simp: Goal_Resume goal_step_def resume_suspended_alt goal_wf_def hm_wf_def
        keys sess simp del: map_map)
qed

lemma goal_run_wf: "goal_wf s \<Longrightarrow> goal_wf (fold goal_step ops s)"
  by (induction ops arbitrary: s) (auto intro: goal_step_wf)

lemma option_ext: "(\<And>h. x = Some h \<longleftrightarrow> y = Some h) \<Longrightarrow> x = y"
  by (cases x; cases y) auto

lemma session_lookup:
  assumes "goal_wf goals"
  shows "get_for_session sid goals = Some g \<longleftrightarrow> map_of goals (gl_id g) = Some g \<and> gl_session g = sid"
proof
  assume "get_for_session sid goals = Some g"
  then have "g \<in> set (hm_values goals)" "gl_session g = sid"
    by (auto simp: get_for_session_def dest: find_SomeD)
  with assms show "map_of goals (gl_id g) = Some g \<and> gl_session g = sid"
    by (auto simp: goal_wf_def hm_values_in)
next
  assume g: "map_of goals (gl_id g) = Some g \<and> gl_session g = sid"
  then have mem: "g \<in> set (hm_values goals)" using assms by (auto simp: goal_wf_def hm_values_in)
  have "g' = g" if "g' \<in> set (hm_values goals)" "gl_session g' = sid" for g'
    using assms that g mem by (auto simp: goal_wf_def distinct_map inj_on_def)
  then show "get_for_session sid goals = Some g"
    unfolding get_for_session_def using g by (intro find_unique [OF mem]) auto
qed

lemma session_lookup_None:
  "get_for_session sid goals = None \<longleftrightarrow> (\<forall>g\<in>set (hm_values goals). gl_session g \<noteq> sid)"
  by (auto simp: get_for_session_def find_None_iff)

text \<open>One goal per session. Starting from an empty store, over any sequence of operations no
  two stored goals share a session, so that \<open>get_for_session\<close> does not depend on the iteration
  order of the map: it finds a goal exactly when that goal is stored for the session.\<close>

theorem one_goal_per_session:
  "goal_wf (fold goal_step ops [])
   \<and> (get_for_session sid (fold goal_step ops []) = Some g)
      = (map_of (fold goal_step ops []) (gl_id g) = Some g \<and> gl_session g = sid)"
proof -
  have "goal_wf (fold goal_step ops [])"
    by (rule goal_run_wf) (simp add: goal_wf_def hm_values_def)
  then show ?thesis using session_lookup by blast
qed

section \<open>Refinement of a map from sessions to goals\<close>

definition goal_abs :: "goal_store \<Rightarrow> session_id \<Rightarrow> thread_goal option" where
  "goal_abs goals sid = get_for_session sid goals"

lemma goal_abs_modify:
  assumes wf: "goal_wf goals" and g: "map_of goals i = Some g"
    and keep: "\<And>g. gl_id (f g) = gl_id g" "\<And>g. gl_session (f g) = gl_session g"
    and wf': "goal_wf (hm_modify i f goals)"
  shows "goal_abs (hm_modify i f goals) = (goal_abs goals)(gl_session g \<mapsto> f g)"
proof
  fix sid
  have i: "gl_id g = i" using wf g by (simp add: goal_wf_def)
  show "goal_abs (hm_modify i f goals) sid = ((goal_abs goals)(gl_session g \<mapsto> f g)) sid"
  proof (cases "sid = gl_session g")
    case True
    have "get_for_session sid (hm_modify i f goals) = Some (f g)"
      unfolding session_lookup [OF wf'] using True g i keep by (simp add: hm_get_modify)
    with True show ?thesis by (simp add: goal_abs_def)
  next
    case False
    have "get_for_session sid (hm_modify i f goals) = get_for_session sid goals"
      unfolding session_lookup [OF wf'] session_lookup [OF wf]
      by (rule option_ext)
        (use False g i keep in \<open>auto simp: hm_get_modify session_lookup [OF wf'] session_lookup [OF wf]\<close>)
    with False show ?thesis by (simp add: goal_abs_def)
  qed
qed


text \<open>C38: accounting. Usage never decreases and never leaves the \<open>i64\<close> range; after accounting no
  active goal has spent its positive budget, and the only status change accounting makes is from
  active to budget-limited, exactly when the budget is spent.\<close>

theorem accounting_enforces_budget:
  assumes "in_i64 (gl_tokens_used g)" "in_i64 (gl_time_used_seconds g)"
  shows "let g' = account_goal td sd now g in
      gl_tokens_used g \<le> gl_tokens_used g' \<and> in_i64 (gl_tokens_used g')
    \<and> gl_time_used_seconds g \<le> gl_time_used_seconds g' \<and> in_i64 (gl_time_used_seconds g')
    \<and> gl_status g'
       = (if gl_status g = GS_Active
             \<and> is_some_and (\<lambda>b. 0 < b \<and> b \<le> gl_tokens_used g') (gl_token_budget g)
          then GS_BudgetLimited else gl_status g)
    \<and> gl_token_budget g' = gl_token_budget g"
  using assms
  by (simp add: account_goal_def apply_budget_limit_def Let_def saturating_add_i64_mono
      saturating_add_i64_in_range)

lemma accounting_enforces_budget_witness:
  "gl_status (account_goal 7 1 5 (thread_goal_new ''g'' 0 ''u'' ''s'' ''o'' (Some 5)))
     = GS_BudgetLimited"
proof -
  let ?g = "thread_goal_new ''g'' 0 ''u'' ''s'' ''o'' (Some 5)"
  have i: "in_i64 (gl_tokens_used ?g)" "in_i64 (gl_time_used_seconds ?g)"
    by (simp_all add: thread_goal_new_def in_i64_def i64_min_def i64_max_def)
  have "gl_tokens_used (account_goal 7 1 5 ?g) = 7"
    by (simp add: account_goal_def apply_budget_limit_def thread_goal_new_def
        saturating_add_i64_def i64_min_def i64_max_def)
  then show ?thesis
    using accounting_enforces_budget [OF i, of 7 1 5] by (simp add: Let_def thread_goal_new_def)
qed


text \<open>A goal objective accepted by validation is trimmed, not empty and at most 4000 characters
  long, and validating it again accepts it unchanged; the status labels parse back.\<close>

theorem goal_inputs_validated:
  "(case validate_goal_objective objective of
      Inr t \<Rightarrow> t = trim objective \<and> t \<noteq> [] \<and> char_count t \<le> 4000
        \<and> validate_goal_objective t = Inr t
    | Inl _ \<Rightarrow> trim objective = [] \<or> 4000 < char_count (trim objective))
   \<and> goal_status_from_str (goal_status_as_str st) = Inr st"
  by (simp add: validate_goal_objective_def max_goal_objective_chars_def Let_def trim_idem)

end
