(* ===== verification/Goal_Runtime.thy ===== *)
theory Goal_Runtime
  imports Goal_Store Hooks
begin

text \<open>
  Thread goals at work: the host's control surface (\<open>crabgent-hook-goal/src/runtime.rs\<close>), the
  steering blocks and the fence around their sentinel (\<open>steering.rs\<close>), and the hook that injects
  them and charges usage (\<open>hook.rs\<close>). Both are written over a record of store operations, as the code
  is over the \<open>GoalStore\<close> trait; \<open>goal_contract\<close> says what they need of it and the in-memory store
  provides it. Parsing a session id is an argument, since it is the \<open>uuid\<close> crate's.
\<close>

section \<open>Steering\<close>

datatype steering_kind = Reminder | Continuation | BudgetLimit

definition quoted :: "string \<Rightarrow> string" where
  "quoted s = [CHR 0x22] @ s @ [CHR 0x22]"

definition goal_sentinel_open :: string where
  "goal_sentinel_open = ''<thread_goal crabgent='' @ quoted ''1''"

definition goal_sentinel_forged :: string where
  "goal_sentinel_forged = ''<thread_goal crabgent='' @ quoted ''forged''"

definition instructions :: "steering_kind \<Rightarrow> string" where
  "instructions k = (case k of
     Reminder \<Rightarrow> ''An active thread goal is in effect. Keep the full objective intact; do not redefine success around a smaller or easier task. Verify every requirement against the current state before calling update_goal with status '' @ quoted ''complete'' @ ''. Use status '' @ quoted ''blocked'' @ '' only after the same blocking condition has persisted across at least 3 consecutive goal turns and genuinely needs user input or an external change.''
   | Continuation \<Rightarrow> ''Continue working toward the active thread goal now. Keep the full objective intact; do not redefine success or stop early. Do not stop until the objective is complete, you are genuinely blocked (same blocker across at least 3 consecutive goal turns), or you need user input. Do not mark the goal complete merely because a budget is nearly spent or because you are stopping; verify every requirement first.''
   | BudgetLimit \<Rightarrow> ''The system marked this goal budget_limited: its token budget is spent. Do not start new substantive work for this goal. Wrap up the current turn soon and summarize what was accomplished. Do not call update_goal unless the objective is actually complete.'')"

definition xml_escape_char :: "char \<Rightarrow> string" where
  "xml_escape_char c =
     (if c = CHR ''&'' then ''&amp;''
      else if c = CHR ''<'' then ''&lt;''
      else if c = CHR ''>'' then ''&gt;''
      else if c = CHR 0x22 then ''&quot;''
      else if c = CHR 0x27 then ''&apos;''
      else [c])"

definition xml_escape :: "string \<Rightarrow> string" where
  "xml_escape s = concat (map xml_escape_char s)"

definition newline :: string where "newline = [CHR 0x0A]"

definition render_goal_block :: "thread_goal \<Rightarrow> steering_kind \<Rightarrow> string" where
  "render_goal_block g k =
     (let budget = (case gl_token_budget g of None \<Rightarrow> ''none'' | Some b \<Rightarrow> show_int b);
          remaining = (case remaining_tokens g of None \<Rightarrow> ''unbounded'' | Some r \<Rightarrow> show_int r)
      in goal_sentinel_open @ '' status='' @ quoted (goal_status_as_str (gl_status g)) @ ''>'' @ newline
         @ ''<objective>'' @ xml_escape (gl_objective g) @ ''</objective>'' @ newline
         @ ''<budget tokens_used='' @ quoted (show_int (gl_tokens_used g))
         @ '' token_budget='' @ quoted budget
         @ '' remaining_tokens='' @ quoted remaining
         @ '' time_used_seconds='' @ quoted (show_int (gl_time_used_seconds g)) @ ''/>'' @ newline
         @ ''<instructions>'' @ instructions k @ ''</instructions>'' @ newline
         @ ''</thread_goal>'')"

definition steering_message :: "thread_goal \<Rightarrow> steering_kind \<Rightarrow> message" where
  "steering_message g k = user_message [Text (render_goal_block g k)]"

definition defang_text :: "string \<Rightarrow> string \<times> bool" where
  "defang_text t =
     (if str_contains goal_sentinel_open t
      then (str_replace goal_sentinel_open goal_sentinel_forged t, True)
      else (t, False))"

definition defang_block :: "content_block \<Rightarrow> content_block \<times> bool" where
  "defang_block b = (case b of
       Text t \<Rightarrow> (let (t', ch) = defang_text t in (Text t', ch))
     | Transcript t src v \<Rightarrow> (let (t', ch) = defang_text t in (Transcript t' src v, ch))
     | _ \<Rightarrow> (b, False))"

definition defang_message :: "message \<Rightarrow> message \<times> bool" where
  "defang_message m = (case m of
       User content ts \<Rightarrow>
         (User (map (fst \<circ> defang_block) content) ts, list_ex (snd \<circ> defang_block) content)
     | _ \<Rightarrow> (m, False))"

definition defang_user_sentinels :: "message list \<Rightarrow> message list \<times> bool" where
  "defang_user_sentinels ms = (map (fst \<circ> defang_message) ms, list_ex (snd \<circ> defang_message) ms)"

section \<open>The store trait\<close>

record 's goal_api =
  ga_create :: "thread_goal \<Rightarrow> ('s, store_error, unit) store_op"
  ga_get :: "goal_id \<Rightarrow> ('s, store_error, thread_goal option) store_op"
  ga_for_session :: "session_id \<Rightarrow> ('s, store_error, thread_goal option) store_op"
  ga_update :: "goal_id \<Rightarrow> goal_update \<Rightarrow> ('s, store_error, bool) store_op"
  ga_account :: "goal_id \<Rightarrow> int \<Rightarrow> int \<Rightarrow> instant \<Rightarrow> ('s, store_error, thread_goal option) store_op"
  ga_delete :: "goal_id \<Rightarrow> ('s, store_error, bool) store_op"
  ga_resume_suspended :: "instant \<Rightarrow> ('s, store_error, thread_goal list) store_op"
  ga_now :: "'s \<Rightarrow> 's \<times> instant"
  ga_new_id :: "'s \<Rightarrow> 's \<times> goal_id"

definition clock_op :: "'s goal_api \<Rightarrow> ('s, 'e, instant) store_op" where
  "clock_op api s = (case ga_now api s of (s', now) \<Rightarrow> (s', Inr now))"

definition new_id_op :: "'s goal_api \<Rightarrow> ('s, 'e, goal_id) store_op" where
  "new_id_op api s = (case ga_new_id api s of (s', i) \<Rightarrow> (s', Inr i))"

section \<open>The host's control surface\<close>

datatype goal_error = GE_Invalid string | GE_Store store_error

definition runtime_get :: "'s goal_api \<Rightarrow> session_id \<Rightarrow> ('s, store_error, thread_goal option) store_op" where
  "runtime_get api sid = ga_for_session api sid"

definition set_objective ::
  "'s goal_api \<Rightarrow> owner \<Rightarrow> session_id \<Rightarrow> string \<Rightarrow> int option \<Rightarrow> ('s, goal_error, thread_goal) store_op"
where
  "set_objective api ow sid objective0 budget =
     op_bind (op_lift (map_err GE_Invalid (validate_goal_objective objective0))) (\<lambda>objective.
     op_bind (op_lift (map_err GE_Invalid (validate_goal_budget budget))) (\<lambda>_.
     op_bind (op_map_err GE_Store (ga_for_session api sid)) (\<lambda>existing. case existing of
         Some g \<Rightarrow>
           op_bind (op_map_err GE_Store (ga_update api (gl_id g)
               \<lparr>gu_objective = Some objective, gu_status = Some GS_Active\<rparr>)) (\<lambda>_.
           op_bind (op_map_err GE_Store (ga_get api (gl_id g))) (\<lambda>found. case found of
               Some g' \<Rightarrow> op_return g'
             | None \<Rightarrow> op_fail (GE_Store SE_NotFound)))
       | None \<Rightarrow>
           op_bind (new_id_op api) (\<lambda>i.
           op_bind (clock_op api) (\<lambda>now.
           let g = thread_goal_new i now ow sid objective budget
           in op_bind (op_map_err GE_Store (ga_create api g)) (\<lambda>_. op_return g))))))"

definition runtime_set_status ::
  "'s goal_api \<Rightarrow> session_id \<Rightarrow> goal_status \<Rightarrow> ('s, store_error, bool) store_op" where
  "runtime_set_status api sid status =
     op_bind (ga_for_session api sid) (\<lambda>found. case found of
         None \<Rightarrow> op_return False
       | Some g \<Rightarrow> ga_update api (gl_id g) \<lparr>gu_objective = None, gu_status = Some status\<rparr>)"

definition runtime_pause :: "'s goal_api \<Rightarrow> session_id \<Rightarrow> ('s, store_error, bool) store_op" where
  "runtime_pause api sid = runtime_set_status api sid GS_Paused"

definition runtime_resume :: "'s goal_api \<Rightarrow> session_id \<Rightarrow> ('s, store_error, bool) store_op" where
  "runtime_resume api sid = runtime_set_status api sid GS_Active"

definition runtime_resume_suspended :: "'s goal_api \<Rightarrow> ('s, store_error, thread_goal list) store_op" where
  "runtime_resume_suspended api = op_bind (clock_op api) (\<lambda>now. ga_resume_suspended api now)"

definition runtime_clear :: "'s goal_api \<Rightarrow> session_id \<Rightarrow> ('s, store_error, bool) store_op" where
  "runtime_clear api sid =
     op_bind (ga_for_session api sid) (\<lambda>found. case found of
         None \<Rightarrow> op_return False
       | Some g \<Rightarrow> ga_delete api (gl_id g))"

definition continuation_input ::
  "'s goal_api \<Rightarrow> session_id \<Rightarrow> ('s, store_error, message list option) store_op" where
  "continuation_input api sid =
     op_bind (ga_for_session api sid) (\<lambda>found. op_return (case found of
         None \<Rightarrow> None
       | Some g \<Rightarrow>
           if goal_is_active (gl_status g) then Some [steering_message g Continuation] else None))"

section \<open>The hook\<close>

record turn_account =
  ta_goal_id :: goal_id
  ta_last_at :: instant

record 's goal_hook =
  gh_store :: "'s goal_api"
  gh_parse :: "string \<Rightarrow> session_id option"

record 's goal_state =
  gs_store :: 's
  gs_accounting :: "(string, turn_account) hmap"

definition num_seconds :: "int \<Rightarrow> int" where
  "num_seconds d = (if d < 0 then - ((- d) div 1000000000) else d div 1000000000)"

definition billable_tokens :: "usage \<Rightarrow> int" where
  "billable_tokens u =
     int (us_input u) - int (us_cache_read u) + int (us_output u)"

definition active_goal ::
  "'s goal_hook \<Rightarrow> run_ctx \<Rightarrow> 's goal_state \<Rightarrow> 's goal_state \<times> thread_goal option" where
  "active_goal h ctx w = (case Option.bind (cx_session_id ctx) (gh_parse h) of
       None \<Rightarrow> (w, None)
     | Some sid \<Rightarrow> (case ga_for_session (gh_store h) sid (gs_store w) of
           (st, Inr g) \<Rightarrow> (w\<lparr>gs_store := st\<rparr>, g)
         | (st, Inl _) \<Rightarrow> (w\<lparr>gs_store := st\<rparr>, None)))"

definition record_turn_start ::
  "string \<Rightarrow> goal_id \<Rightarrow> instant \<Rightarrow> 's goal_state \<Rightarrow> 's goal_state" where
  "record_turn_start run_id i now w =
     w\<lparr>gs_accounting := AList.update run_id \<lparr>ta_goal_id = i, ta_last_at = now\<rparr> (gs_accounting w)\<rparr>"

definition advance_account_point :: "string \<Rightarrow> instant \<Rightarrow> 's goal_state \<Rightarrow> 's goal_state" where
  "advance_account_point run_id at_time w =
     w\<lparr>gs_accounting := hm_modify run_id (\<lambda>a. a\<lparr>ta_last_at := at_time\<rparr>) (gs_accounting w)\<rparr>"

definition goal_prompt_submit ::
  "'s goal_hook \<Rightarrow> message list \<Rightarrow> run_ctx \<Rightarrow> ('s goal_state, message list decision) call" where
  "goal_prompt_submit h ms0 ctx w =
     (let (ms, changed) = defang_user_sentinels ms0;
          (w1, found) = active_goal h ctx w
      in case found of
        None \<Rightarrow> (w1, [], Some (if changed then Replace ms else Continue))
      | Some g \<Rightarrow>
          if gl_status g = GS_Active then
            (let (st, now) = ga_now (gh_store h) (gs_store w1)
             in (record_turn_start (cx_run_id ctx) (gl_id g) now (w1\<lparr>gs_store := st\<rparr>), [],
                 Some (Replace (ms @ [steering_message g Reminder]))))
          else if gl_status g = GS_BudgetLimited then
            (w1, [], Some (Replace (ms @ [steering_message g BudgetLimit])))
          else (w1, [], Some (if changed then Replace ms else Continue)))"

definition goal_after_llm ::
  "'s goal_hook \<Rightarrow> llm_request \<Rightarrow> llm_response \<Rightarrow> run_ctx \<Rightarrow> ('s goal_state, llm_response decision) call"
where
  "goal_after_llm h req resp ctx w = (case map_of (gs_accounting w) (cx_run_id ctx) of
       None \<Rightarrow> (w, [], Some Continue)
     | Some acct \<Rightarrow>
         (let (st, now) = ga_now (gh_store h) (gs_store w);
              time_delta = max (num_seconds (now - ta_last_at acct)) 0;
              st' = fst (ga_account (gh_store h) (ta_goal_id acct) (billable_tokens (rs_usage resp))
                           time_delta now st)
          in (advance_account_point (cx_run_id ctx) now (w\<lparr>gs_store := st'\<rparr>), [], Some Continue)))"

definition charge_trailing_wall_time :: "'s goal_api \<Rightarrow> turn_account \<Rightarrow> 's \<Rightarrow> 's" where
  "charge_trailing_wall_time api acct s =
     (let (s1, now) = ga_now api s;
          time_delta = max (num_seconds (now - ta_last_at acct)) 0
      in if time_delta = 0 then s1
         else fst (ga_account api (ta_goal_id acct) 0 time_delta now s1))"

definition pause_active_goal :: "'s goal_api \<Rightarrow> goal_id \<Rightarrow> goal_status \<Rightarrow> 's \<Rightarrow> 's" where
  "pause_active_goal api i target s = (case ga_get api i s of
       (s1, Inr (Some g)) \<Rightarrow>
         if gl_status g \<noteq> GS_Active then s1
         else fst (ga_update api i \<lparr>gu_objective = None, gu_status = Some target\<rparr> s1)
     | (s1, _) \<Rightarrow> s1)"

definition pause_target :: "outcome \<Rightarrow> cancel_reason option \<Rightarrow> goal_status option" where
  "pause_target oc reason = (case oc of
       Paused \<Rightarrow> Some GS_Suspended
     | Cancelled \<Rightarrow> Some (if reason = Some Shutdown then GS_Suspended else GS_Paused)
     | _ \<Rightarrow> None)"

definition goal_on_stop ::
  "'s goal_hook \<Rightarrow> outcome \<Rightarrow> run_ctx \<Rightarrow> ('s goal_state, unit) call" where
  "goal_on_stop h oc ctx w =
     (let w1 = w\<lparr>gs_accounting := AList.delete (cx_run_id ctx) (gs_accounting w)\<rparr>
      in (case (map_of (gs_accounting w) (cx_run_id ctx), pause_target oc (cx_cancel_reason ctx)) of
            (Some acct, Some target) \<Rightarrow>
              w1\<lparr>gs_store := pause_active_goal (gh_store h) (ta_goal_id acct) target
                   (charge_trailing_wall_time (gh_store h) acct (gs_store w1))\<rparr>
          | _ \<Rightarrow> w1, [], Some ()))"

definition goal_hook_of :: "'s goal_hook \<Rightarrow> 's goal_state hook" where
  "goal_hook_of h = default_hook\<lparr>
     hk_on_user_prompt_submit := goal_prompt_submit h,
     hk_after_llm := goal_after_llm h,
     hk_on_stop := goal_on_stop h\<rparr>"

section \<open>The fence\<close>

definition block_text :: "content_block \<Rightarrow> string option" where
  "block_text b = (case b of Text t \<Rightarrow> Some t | Transcript t _ _ \<Rightarrow> Some t | _ \<Rightarrow> None)"

definition sentinel_free :: "message \<Rightarrow> bool" where
  "sentinel_free m = (case m of
       User content _ \<Rightarrow>
         list_all (\<lambda>b. is_none_or (\<lambda>t. \<not> str_contains goal_sentinel_open t) (block_text b)) content
     | _ \<Rightarrow> True)"

lemma defanged_text: "\<not> str_contains goal_sentinel_open (fst (defang_text t))"
proof (cases "str_contains goal_sentinel_open t")
  case True
  define p where "p = tl goal_sentinel_open"
  define q where "q = tl goal_sentinel_forged"
  have "\<not> starts_with p (q @ x)" for x
    by (simp add: p_def q_def goal_sentinel_open_def goal_sentinel_forged_def quoted_def starts_with_def)
  moreover have "CHR ''<'' \<notin> set p" "CHR ''<'' \<notin> set q"
    by (simp_all add: p_def q_def goal_sentinel_open_def goal_sentinel_forged_def quoted_def)
  moreover have "goal_sentinel_open = CHR ''<'' # p" "goal_sentinel_forged = CHR ''<'' # q"
    by (simp_all add: p_def q_def goal_sentinel_open_def goal_sentinel_forged_def)
  ultimately show ?thesis
    using True replace_removes [of "CHR ''<''" p q t] by (simp add: defang_text_def)
qed (simp add: defang_text_def)

lemma defanged_block:
  "is_none_or (\<lambda>t. \<not> str_contains goal_sentinel_open t) (block_text (fst (defang_block b)))"
  using defanged_text by (cases b) (simp_all add: defang_block_def block_text_def case_prod_beta)

lemma defanged_message: "sentinel_free (fst (defang_message m))"
  using defanged_block by (auto simp: defang_message_def sentinel_free_def list_all_iff split: message.split)

lemma defang_unchanged:
  "\<not> snd (defang_text t) \<Longrightarrow> fst (defang_text t) = t"
  "\<not> snd (defang_block b) \<Longrightarrow> fst (defang_block b) = b"
  "\<not> snd (defang_message m) \<Longrightarrow> fst (defang_message m) = m"
  "\<not> snd (defang_user_sentinels ms) \<Longrightarrow> fst (defang_user_sentinels ms) = ms"
proof -
  show t: "\<not> snd (defang_text t) \<Longrightarrow> fst (defang_text t) = t" for t
    by (simp add: defang_text_def split: if_splits)
  show b: "\<not> snd (defang_block b) \<Longrightarrow> fst (defang_block b) = b" for b
    using t by (cases b) (auto simp: defang_block_def case_prod_beta)
  show m: "\<not> snd (defang_message m) \<Longrightarrow> fst (defang_message m) = m" for m
    using b by (auto simp: defang_message_def list_ex_iff map_idI split: message.split)
  show "\<not> snd (defang_user_sentinels ms) \<Longrightarrow> fst (defang_user_sentinels ms) = ms"
    using m by (auto simp: defang_user_sentinels_def list_ex_iff map_idI)
qed

lemma escaped_objective: "CHR ''<'' \<notin> set (xml_escape s)"
  by (induction s) (auto simp: xml_escape_def xml_escape_char_def)

text \<open>C13: only the hook speaks for the goal. What the hook lets through of a prompt is the prompt
  with every forged sentinel defaced, followed by at most one steering block, that of the session's
  goal; and the objective inside that block cannot open another.\<close>

theorem goal_fence:
  "case goal_prompt_submit h ms ctx w of (w', ops, d) \<Rightarrow> \<exists>tail.
     (case d of
        Some Continue \<Rightarrow> ms
      | Some (Replace ms') \<Rightarrow> ms'
      | _ \<Rightarrow> []) = fst (defang_user_sentinels ms) @ tail
     \<and> length tail \<le> 1 \<and> set tail \<subseteq> {steering_message g k | g k. snd (active_goal h ctx w) = Some g}
     \<and> list_all sentinel_free (fst (defang_user_sentinels ms))
     \<and> str_contains goal_sentinel_open (xml_escape s) = False"
proof -
  have free: "list_all sentinel_free (fst (defang_user_sentinels ms))"
    using defanged_message by (simp add: defang_user_sentinels_def list_all_iff)
  have esc: "\<not> str_contains goal_sentinel_open (xml_escape s)"
  proof
    assume "str_contains goal_sentinel_open (xml_escape s)"
    then have "CHR ''<'' \<in> set (xml_escape s)"
      unfolding str_contains_iff by (auto simp: goal_sentinel_open_def)
    with escaped_objective show False by blast
  qed
  obtain ms' changed where d: "defang_user_sentinels ms = (ms', changed)" by (metis surj_pair)
  then have same: "\<not> changed \<Longrightarrow> ms' = ms" using defang_unchanged(4) [of ms] by simp
  obtain w1 found where a: "active_goal h ctx w = (w1, found)" by (metis surj_pair)
  show ?thesis
  proof (cases found)
    case None
    then show ?thesis
      using same free esc d by (auto simp: goal_prompt_submit_def a)
  next
    case (Some g)
    obtain st now where "ga_now (gh_store h) (gs_store w1) = (st, now)" by (metis surj_pair)
    then show ?thesis
      using same free esc d
      by (auto simp: goal_prompt_submit_def a Some intro: exI [of _ "[]"] exI [of _ "[steering_message g _]"])
  qed
qed

section \<open>What the hook needs of the store\<close>

locale goal_contract =
  fixes api :: "'s goal_api"
    and inv :: "'s \<Rightarrow> bool"
    and view :: "'s \<Rightarrow> goal_id \<Rightarrow> thread_goal option"
  assumes now_keeps: "inv s \<Longrightarrow> inv (fst (ga_now api s)) \<and> view (fst (ga_now api s)) = view s"
    and get_reads: "inv s \<Longrightarrow> inv (fst (ga_get api i s)) \<and> view (fst (ga_get api i s)) = view s
      \<and> snd (ga_get api i s) = Inr (view s i)"
    and update_applies: "inv s \<Longrightarrow> inv (fst (ga_update api i u s))
      \<and> (\<exists>now. view (fst (ga_update api i u s))
           = (view s)(i := map_option (goal_apply u now) (view s i)))"
    and account_charges: "inv s \<Longrightarrow> inv (fst (ga_account api i td sd now s))
      \<and> view (fst (ga_account api i td sd now s))
        = (view s)(i := map_option (account_goal td sd now) (view s i))"
    and resume_scans: "inv s \<Longrightarrow> inv (fst (ga_resume_suspended api now s))
      \<and> view (fst (ga_resume_suspended api now s)) = map_option (resume_goal now) \<circ> view s"
begin

definition status_of :: "goal_id \<Rightarrow> 's \<Rightarrow> goal_status option" where
  "status_of i s = map_option gl_status (view s i)"

lemma charge_status:
  assumes "inv s" "view s (ta_goal_id acct) = Some g" "apply_budget_limit g = g" "in_i64 (gl_tokens_used g)"
  shows "inv (charge_trailing_wall_time api acct s)"
    "status_of i (charge_trailing_wall_time api acct s) = status_of i s"
    "\<exists>h. view (charge_trailing_wall_time api acct s) (ta_goal_id acct) = Some h"
proof -
  obtain s1 now where n: "ga_now api s = (s1, now)" by (metis surj_pair)
  with now_keeps [OF assms(1)] have s1: "inv s1" "view s1 = view s" by simp_all
  have "gl_status (account_goal 0 d now g) = gl_status g" for d
    using assms(3,4)
    by (auto simp: account_goal_def apply_budget_limit_def saturating_add_i64_def in_i64_def
        dest: arg_cong [where f = gl_status] split: if_splits)
  then have "status_of i (fst (ga_account api (ta_goal_id acct) 0 d now s1)) = status_of i s" for d
    using account_charges [OF s1(1)] s1(2) assms(2) by (auto simp: status_of_def)
  moreover have "inv (fst (ga_account api (ta_goal_id acct) 0 d now s1))" for d
    using account_charges [OF s1(1)] by blast
  moreover have "\<exists>h. view (fst (ga_account api (ta_goal_id acct) 0 d now s1)) (ta_goal_id acct) = Some h" for d
    using account_charges [OF s1(1)] s1(2) assms(2) by simp
  ultimately show "inv (charge_trailing_wall_time api acct s)"
    "status_of i (charge_trailing_wall_time api acct s) = status_of i s"
    "\<exists>h. view (charge_trailing_wall_time api acct s) (ta_goal_id acct) = Some h"
    using s1 assms(2) by (auto simp: charge_trailing_wall_time_def n Let_def status_of_def)
qed

lemma pause_status:
  assumes "inv s" "status_of i s = Some GS_Active"
  shows "inv (pause_active_goal api i t s)"
    "status_of j (pause_active_goal api i t s) = (if j = i then Some t else status_of j s)"
proof -
  obtain s1 r where g: "ga_get api i s = (s1, r)" by (metis surj_pair)
  from assms(2) obtain h where h: "view s i = Some h" "gl_status h = GS_Active"
    by (auto simp: status_of_def)
  from get_reads [OF assms(1), of i] g h have s1: "inv s1" "view s1 = view s" "r = Inr (Some h)"
    by simp_all
  from update_applies [OF s1(1), of i "\<lparr>gu_objective = None, gu_status = Some t\<rparr>"] obtain now where
    "inv (fst (ga_update api i \<lparr>gu_objective = None, gu_status = Some t\<rparr> s1))"
    "view (fst (ga_update api i \<lparr>gu_objective = None, gu_status = Some t\<rparr> s1))
       = (view s1)(i := map_option (goal_apply \<lparr>gu_objective = None, gu_status = Some t\<rparr> now) (view s1 i))"
    by blast
  then show "inv (pause_active_goal api i t s)"
    "status_of j (pause_active_goal api i t s) = (if j = i then Some t else status_of j s)"
    using h s1 by (simp_all add: pause_active_goal_def g status_of_def goal_apply_def)
qed

lemma stop_status:
  assumes "inv (gs_store w)" "gh_store h = api"
    and "map_of (gs_accounting w) (cx_run_id ctx) = Some acct"
    and "view (gs_store w) (ta_goal_id acct) = Some g" "gl_status g = GS_Active"
    and "apply_budget_limit g = g" "in_i64 (gl_tokens_used g)"
    and "goal_on_stop h oc ctx w = (w1, ops, d)"
  shows "inv (gs_store w1)" "status_of j (gs_store w1) = (if j = ta_goal_id acct
      then Some (unwrap_or GS_Active (pause_target oc (cx_cancel_reason ctx)))
      else status_of j (gs_store w))"
proof -
  note charged = charge_status [OF assms(1,4,6,7)]
  have act: "status_of (ta_goal_id acct) (gs_store w) = Some GS_Active"
    by (simp add: status_of_def assms(4,5))
  note paused = pause_status [OF charged(1), of "ta_goal_id acct"]
  show "inv (gs_store w1)" "status_of j (gs_store w1) = (if j = ta_goal_id acct
      then Some (unwrap_or GS_Active (pause_target oc (cx_cancel_reason ctx)))
      else status_of j (gs_store w))"
    using assms(1,2,3,8) act charged paused
    by (auto simp: goal_on_stop_def Let_def split: option.splits)
qed

lemma resume_status:
  assumes "inv s"
  shows "status_of i (fst (runtime_resume_suspended api s))
    = map_option (\<lambda>st. if st = GS_Suspended then GS_Active else st) (status_of i s)"
proof -
  obtain s1 now where n: "ga_now api s = (s1, now)" by (metis surj_pair)
  with now_keeps [OF assms] have s1: "inv s1" "view s1 = view s" by simp_all
  show ?thesis
    using resume_scans [OF s1(1), of now] s1(2)
    by (cases "view s i") (simp_all add: runtime_resume_suspended_def clock_op_def n op_bind_def status_of_def resume_goal_def
        split: prod.split sum.split)
qed

end

section \<open>The in-memory store\<close>

type_synonym goal_world = "goal_store mem_world"

definition goal_mem_new_id :: "goal_world \<Rightarrow> goal_world \<times> goal_id" where
  "goal_mem_new_id w = (w\<lparr>mw_drawn := mw_drawn w + 1\<rparr>, mw_ids w (mw_drawn w))"

definition goal_mem_update ::
  "goal_id \<Rightarrow> goal_update \<Rightarrow> (goal_world, store_error, bool) store_op" where
  "goal_mem_update i u w =
     (if hm_contains i (mw_store w)
      then (let (w', now) = mem_now w;
                (st, ok) = goal_update_op now i u (mw_store w')
            in (w'\<lparr>mw_store := st\<rparr>, Inr ok))
      else (w, Inr False))"

definition goal_mem_api :: "goal_world goal_api" where
  "goal_mem_api =
     \<lparr>ga_create = \<lambda>g w. (case goal_create g (mw_store w) of (st, r) \<Rightarrow> (w\<lparr>mw_store := st\<rparr>, r)),
      ga_get = \<lambda>i w. (w, Inr (goal_get i (mw_store w))),
      ga_for_session = \<lambda>sid w. (w, Inr (get_for_session sid (mw_store w))),
      ga_update = goal_mem_update,
      ga_account = \<lambda>i td sd now w.
        (case account_usage i td sd now (mw_store w) of (st, g) \<Rightarrow> (w\<lparr>mw_store := st\<rparr>, Inr g)),
      ga_delete = \<lambda>i w. (case goal_delete i (mw_store w) of (st, ok) \<Rightarrow> (w\<lparr>mw_store := st\<rparr>, Inr ok)),
      ga_resume_suspended = \<lambda>now w.
        (case resume_suspended now (mw_store w) of (st, gs) \<Rightarrow> (w\<lparr>mw_store := st\<rparr>, Inr gs)),
      ga_now = mem_now,
      ga_new_id = goal_mem_new_id\<rparr>"

lemma resumed_lookup:
  "map_of (fst (resume_suspended now goals)) i = map_option (resume_goal now) (map_of goals i)"
  unfolding resume_suspended_alt by (induction goals) auto

lemma goal_store_keeps_wf:
  "goal_wf s \<Longrightarrow> goal_wf (fst (goal_update_op now i u s))"
  "goal_wf s \<Longrightarrow> goal_wf (fst (account_usage i td sd now s))"
  "goal_wf s \<Longrightarrow> goal_wf (fst (resume_suspended now s))"
  using goal_step_wf [of s "Goal_Update now i u"] goal_step_wf [of s "Goal_Account i td sd now"]
    goal_step_wf [of s "Goal_Resume now"] by (simp_all add: goal_step_def)

interpretation goals: goal_contract goal_mem_api "\<lambda>w. goal_wf (mw_store w)" "\<lambda>w. map_of (mw_store w)"
proof unfold_locales
  fix s :: goal_world and i u
  assume wf: "goal_wf (mw_store s)"
  have "goal_wf (hm_modify i (goal_apply u now) (mw_store s))" if "hm_contains i (mw_store s)" for now
    using goal_store_keeps_wf(1) [OF wf, of now i u] that by (simp add: goal_update_op_def)
  with wf show "goal_wf (mw_store (fst (ga_update goal_mem_api i u s)))
    \<and> (\<exists>now. map_of (mw_store (fst (ga_update goal_mem_api i u s)))
      = (map_of (mw_store s))(i := map_option (goal_apply u now) (map_of (mw_store s) i)))"
    by (auto simp: goal_mem_api_def goal_mem_update_def mem_now_def case_prod_beta goal_update_op_def
        hm_get_modify hm_contains_def fun_eq_iff intro!: exI [of _ "mw_clock s (mw_ticks s)"])
next
  fix s :: goal_world and i td sd now
  assume "goal_wf (mw_store s)"
  then show "goal_wf (mw_store (fst (ga_account goal_mem_api i td sd now s)))
    \<and> map_of (mw_store (fst (ga_account goal_mem_api i td sd now s)))
      = (map_of (mw_store s))(i := map_option (account_goal td sd now) (map_of (mw_store s) i))"
    using goal_store_keeps_wf(2) [of "mw_store s" i td sd now]
    by (auto simp: goal_mem_api_def case_prod_beta account_usage_def hm_get_modify fun_eq_iff
        split: option.split)
next
  fix s :: goal_world and now
  assume "goal_wf (mw_store s)"
  then show "goal_wf (mw_store (fst (ga_resume_suspended goal_mem_api now s)))
    \<and> map_of (mw_store (fst (ga_resume_suspended goal_mem_api now s)))
      = map_option (resume_goal now) \<circ> map_of (mw_store s)"
    using goal_store_keeps_wf(3) [of "mw_store s" now]
    by (simp add: goal_mem_api_def case_prod_beta resumed_lookup fun_eq_iff)
qed (simp_all add: goal_mem_api_def mem_now_def goal_get_def)

section \<open>Who may wake a goal\<close>

text \<open>C12: a pause keeps its author. The goal a run was charging, still active and within its budget
  when the run stops, is afterwards active if the run completed, failed or ran out of turns; and after
  the boot scan it is active again unless the run was cancelled for a reason other than shutdown, in
  which case it stays paused, and the goals of other runs were not touched by the stop.\<close>

theorem pause_intent_respected:
  assumes "goal_wf (mw_store (gs_store w))" "gh_store h = goal_mem_api"
    and "map_of (gs_accounting w) (cx_run_id ctx) = Some acct"
    and "map_of (mw_store (gs_store w)) (ta_goal_id acct) = Some g" "gl_status g = GS_Active"
    and "apply_budget_limit g = g" "in_i64 (gl_tokens_used g)"
  shows "case goal_on_stop h oc ctx w of (w1, ops, d) \<Rightarrow>
     (case runtime_resume_suspended goal_mem_api (gs_store w1) of (w2, r) \<Rightarrow>
       map_option gl_status (map_of (mw_store w2) (ta_goal_id acct))
         = Some (if oc = Cancelled \<and> cx_cancel_reason ctx \<noteq> Some Shutdown then GS_Paused else GS_Active))
     \<and> (\<forall>j. j = ta_goal_id acct \<or> map_option gl_status (map_of (mw_store (gs_store w1)) j)
           = map_option gl_status (map_of (mw_store (gs_store w)) j))"
proof -
  obtain w1 ops d where s: "goal_on_stop h oc ctx w = (w1, ops, d)" by (metis surj_pair)
  note stop = goals.stop_status [OF assms s]
  have "pause_target oc (cx_cancel_reason ctx) = (if oc = Cancelled
      then Some (if cx_cancel_reason ctx = Some Shutdown then GS_Suspended else GS_Paused)
      else if oc = Paused then Some GS_Suspended else None)"
    by (simp add: pause_target_def split: outcome.split)
  with goals.resume_status [OF stop(1), of "ta_goal_id acct"] stop(2)
  show ?thesis by (auto simp: s goals.status_of_def case_prod_beta)
qed

definition paused_goal_state :: "goal_world goal_state" where
  "paused_goal_state =
     \<lparr>gs_store = \<lparr>mw_store = [(''g'', thread_goal_new ''g'' 0 ''u'' ''s'' ''o'' (Some 5))],
        mw_ids = (\<lambda>n. ''x''), mw_drawn = 0, mw_clock = int, mw_ticks = 0\<rparr>,
      gs_accounting = [(''r1'', \<lparr>ta_goal_id = ''g'', ta_last_at = 0\<rparr>)]\<rparr>"

lemma pause_intent_respected_witness:
  "let h = \<lparr>gh_store = goal_mem_api, gh_parse = Some\<rparr>;
       ctx = (run_ctx_new ''r1'' \<lparr>sub_id = ''bob'', sub_attrs = []\<rparr>)\<lparr>cx_cancel_reason := Some StopPattern\<rparr>;
       w1 = fst (goal_on_stop h Cancelled ctx paused_goal_state)
   in map_option gl_status (map_of (mw_store (fst (runtime_resume_suspended goal_mem_api (gs_store w1)))) ''g'')
     = Some GS_Paused"
proof -
  let ?h = "\<lparr>gh_store = goal_mem_api, gh_parse = Some\<rparr>"
  let ?ctx = "(run_ctx_new ''r1'' \<lparr>sub_id = ''bob'', sub_attrs = []\<rparr>)\<lparr>cx_cancel_reason := Some StopPattern\<rparr>"
  let ?g = "thread_goal_new ''g'' 0 ''u'' ''s'' ''o'' (Some 5)"
  have "goal_wf (mw_store (gs_store paused_goal_state))" "gh_store ?h = goal_mem_api"
    "map_of (gs_accounting paused_goal_state) (cx_run_id ?ctx)
       = Some \<lparr>ta_goal_id = ''g'', ta_last_at = 0\<rparr>"
    "map_of (mw_store (gs_store paused_goal_state)) (ta_goal_id \<lparr>ta_goal_id = ''g'', ta_last_at = 0\<rparr>) = Some ?g"
    "gl_status ?g = GS_Active" "apply_budget_limit ?g = ?g" "in_i64 (gl_tokens_used ?g)"
    by (simp_all add: paused_goal_state_def goal_wf_def hm_wf_def hm_values_def thread_goal_new_def
        run_ctx_new_def apply_budget_limit_def in_i64_def i64_min_def i64_max_def)
  from pause_intent_respected [OF this, of Cancelled] show ?thesis
    by (simp add: case_prod_beta Let_def run_ctx_new_def)
qed

lemma resume_reactivates_terminal_goal:
  assumes "goal_is_terminal (gl_status g)" "get_for_session sid (mw_store w) = Some g" "goal_wf (mw_store w)"
  shows "map_option gl_status (map_of (mw_store (fst (runtime_resume goal_mem_api sid w))) (gl_id g))
    = Some GS_Active"
proof -
  from session_lookup [OF assms(3)] assms(2) have "map_of (mw_store w) (gl_id g) = Some g" by blast
  then show ?thesis
    using assms(2)
    by (simp add: runtime_resume_def runtime_set_status_def goal_mem_api_def op_bind_def goal_mem_update_def
        mem_now_def goal_update_op_def hm_contains_def hm_get_modify goal_apply_def)
qed

end
