(* ===== verification/Search_Query.thy ===== *)
theory Search_Query
  imports Scope_Query "HOL-Library.Word"
begin

text \<open>
  Search requests (\<open>crabgent-core/src/memory/query.rs\<close>) and the backend-neutral plan made from one
  (\<open>crabgent-store/src/memory_search.rs\<close>): lifecycle filters, time bounds, pagination, and the
  widening of the owner predicate to the rows an agent shares. A 32 bit float is its bit pattern;
  limits and offsets are the naturals of an unsigned 32 bit field. The clock is an argument.
\<close>

type_synonym f32 = "32 word"

datatype owner_match = Exact | IncludingShared

record search_query =
  sq_query :: string
  sq_scope :: memory_scope
  sq_class :: "string option"
  sq_embedding :: "f32 list option"
  sq_since :: "instant option"
  sq_until :: "instant option"
  sq_include_expired :: bool
  sq_include_archived :: bool
  sq_owner_match :: owner_match
  sq_limit :: nat
  sq_offset :: nat

definition default_search_limit :: nat where "default_search_limit = 10"
definition max_search_limit :: nat where "max_search_limit = 100"

definition search_query_new :: "string \<Rightarrow> search_query" where
  "search_query_new q =
     \<lparr>sq_query = q, sq_scope = global_scope, sq_class = None, sq_embedding = None,
      sq_since = None, sq_until = None, sq_include_expired = False, sq_include_archived = False,
      sq_owner_match = Exact, sq_limit = default_search_limit, sq_offset = 0\<rparr>"

definition query_limit :: "nat \<Rightarrow> search_query \<Rightarrow> search_query" where
  "query_limit n q = q\<lparr>sq_limit := if max_search_limit < n then max_search_limit else n\<rparr>"

definition include_shared :: "bool \<Rightarrow> search_query \<Rightarrow> search_query" where
  "include_shared shared q = q\<lparr>sq_owner_match := if shared then IncludingShared else Exact\<rparr>"

section \<open>The plan\<close>

datatype ranking_intent =
    ImportanceThenCreatedAt
  | TextRelevanceThenImportanceThenCreatedAt
  | HybridScoreThenImportanceThenCreatedAt

record memory_search_plan =
  mp_text :: "string option"
  mp_embedding :: "f32 list option"
  mp_scope :: scope_query
  mp_class :: "string option"
  mp_expires_after :: "instant option"
  mp_filter_archived :: bool
  mp_since :: "instant option"
  mp_until :: "instant option"
  mp_limit :: nat
  mp_offset :: nat
  mp_vector_k :: "nat option"
  mp_ranking :: ranking_intent

definition shared_scope :: "search_query \<Rightarrow> scope_query" where
  "shared_scope q =
     (let scope = query_filter (sq_scope q) in
      if sq_owner_match q \<noteq> IncludingShared then scope
      else case sc_owner (sq_scope q) of
        None \<Rightarrow> scope
      | Some _ \<Rightarrow> (case sc_agent (sq_scope q) of
          None \<Rightarrow> scope
        | Some agent \<Rightarrow> widen_owner_to_shared agent scope))"

definition clamp :: "nat \<Rightarrow> nat \<Rightarrow> nat \<Rightarrow> nat" where
  "clamp lo hi n = (if n < lo then lo else if hi < n then hi else n)"

definition memory_search_plan_new :: "instant \<Rightarrow> search_query \<Rightarrow> memory_search_plan" where
  "memory_search_plan_new now q =
     (let text = (if sq_query q = [] then None else Some (sq_query q))
      in \<lparr>mp_text = text,
          mp_embedding = sq_embedding q,
          mp_scope = shared_scope q,
          mp_class = sq_class q,
          mp_expires_after = (if sq_include_expired q then None else Some now),
          mp_filter_archived = (\<not> sq_include_archived q),
          mp_since = sq_since q,
          mp_until = sq_until q,
          mp_limit = sq_limit q,
          mp_offset = sq_offset q,
          mp_vector_k = map_option (\<lambda>_. clamp 1 4096 (sq_limit q + sq_offset q)) (sq_embedding q),
          mp_ranking = (case (text, sq_embedding q) of
              (_, Some _) \<Rightarrow> HybridScoreThenImportanceThenCreatedAt
            | (Some _, None) \<Rightarrow> TextRelevanceThenImportanceThenCreatedAt
            | (None, None) \<Rightarrow> ImportanceThenCreatedAt)\<rparr>)"

section \<open>What a query's scope lets through\<close>

text \<open>Widening touches the owner predicate only, and only if it is an equality.\<close>

lemma widen_matches:
  assumes "sc_owner scope = Some ow"
  shows "query_matches (widen_owner_to_shared agent (query_filter scope)) row
     \<longleftrightarrow> sc_owner row \<in> {Some ow, Some agent}
         \<and> is_none_or (\<lambda>v. sc_channel row = Some v) (sc_channel scope)
         \<and> is_none_or (\<lambda>v. sc_conv row = Some v) (sc_conv scope)
         \<and> is_none_or (\<lambda>v. sc_agent row = Some v) (sc_agent scope)
         \<and> is_none_or (\<lambda>v. sc_kind row = Some v) (sc_kind scope)"
  using assms
  by (cases "sc_channel scope"; cases "sc_conv scope"; cases "sc_agent scope"; cases "sc_kind scope")
    (auto simp: query_filter_def scope_filters_def all_scope_predicates_def field_predicate_def
      scope_field_value_def query_matches_def predicate_matches_scope_def)

lemma filter_matches:
  "query_matches (query_filter scope) row
     \<longleftrightarrow> is_none_or (\<lambda>v. sc_owner row = Some v) (sc_owner scope)
         \<and> is_none_or (\<lambda>v. sc_channel row = Some v) (sc_channel scope)
         \<and> is_none_or (\<lambda>v. sc_conv row = Some v) (sc_conv scope)
         \<and> is_none_or (\<lambda>v. sc_agent row = Some v) (sc_agent scope)
         \<and> is_none_or (\<lambda>v. sc_kind row = Some v) (sc_kind scope)"
  by (cases "sc_owner scope"; cases "sc_channel scope"; cases "sc_conv scope"; cases "sc_agent scope";
      cases "sc_kind scope")
    (simp_all add: query_filter_def scope_filters_def all_scope_predicates_def field_predicate_def
      scope_field_value_def query_matches_def predicate_matches_scope_def)

lemma query_filter_scope: "query_matches (query_filter s) x = scope_matches s x"
  by (simp add: query_matches_def query_filter_def scope_filters_def all_scope_predicates_def
      field_predicate_def predicate_matches_scope_def scope_matches_def opt_eq_def
      scope_field_value_def Let_def split: option.split)

text \<open>A search never leaves the rows of its owner and, when asked for shared rows, of its agent.\<close>

lemma shared_scope_owner:
  assumes "query_matches (shared_scope q) row" "sc_owner (sq_scope q) = Some ow"
  shows "sc_owner row = Some ow
    \<or> sq_owner_match q = IncludingShared \<and> sc_owner row = sc_agent (sq_scope q) \<and> sc_agent (sq_scope q) \<noteq> None"
  using assms
  by (auto simp: shared_scope_def widen_matches filter_matches Let_def split: if_splits option.splits)

lemma plan_limit_bound: "mp_limit (memory_search_plan_new now (query_limit n q)) \<le> max_search_limit"
  by (simp add: memory_search_plan_new_def query_limit_def Let_def)

end
