(* ===== verification/Session_Store.thy ===== *)
theory Session_Store
  imports Search_Query
begin

text \<open>
  Conversation sessions: the record (\<open>crabgent-store/src/records.rs\<close>), the helpers all backends
  share (\<open>session_support.rs\<close>) and the in-memory store (\<open>memory/session.rs\<close>), with the default
  methods of the trait. A fresh session id is an argument of the operation that draws one, as is
  the clock. \<open>str::to_lowercase\<close> is a Unicode table: the search takes it as an argument.

  The theorems: a lookup finds the session of exactly its identity (owner, thread and every scope
  field) or creates it, identities stay unique over all operations that do not write whole rows, and
  saving messages touches two columns.
\<close>

section \<open>Records\<close>

record session =
  se_id :: session_id
  se_owner :: owner
  se_scope :: memory_scope
  se_thread :: "thread_id option"
  se_title :: "string option"
  se_summary :: "string option"
  se_compaction_summary :: "string option"
  se_model_override :: "string option"
  se_effort_override :: "reasoning_effort option"
  se_messages :: "message list"
  se_created_at :: instant
  se_updated_at :: instant

record session_archive_entry =
  ar_id :: string
  ar_session_id :: session_id
  ar_messages :: "message list"
  ar_created_at :: instant

record session_info =
  si_id :: session_id
  si_owner :: owner
  si_thread :: "thread_id option"
  si_title :: "string option"
  si_message_count :: nat
  si_has_summary :: bool
  si_created_at :: instant
  si_updated_at :: instant

definition session_info_from :: "session \<Rightarrow> session_info" where
  "session_info_from s =
     \<lparr>si_id = se_id s, si_owner = se_owner s, si_thread = se_thread s, si_title = se_title s,
      si_message_count = length (se_messages s), si_has_summary = (se_summary s \<noteq> None),
      si_created_at = se_created_at s, si_updated_at = se_updated_at s\<rparr>"

definition session_scope :: "owner \<Rightarrow> thread_id option \<Rightarrow> memory_scope" where
  "session_scope ow th = (case th of
       None \<Rightarrow> for_owner ow
     | Some t \<Rightarrow> (for_owner ow)\<lparr>sc_conv := Some t\<rparr>)"

definition new_empty_session ::
  "session_id \<Rightarrow> owner \<Rightarrow> thread_id option \<Rightarrow> instant \<Rightarrow> session" where
  "new_empty_session i ow th now =
     \<lparr>se_id = i, se_owner = ow, se_scope = session_scope ow th, se_thread = th, se_title = None,
      se_summary = None, se_compaction_summary = None, se_model_override = None,
      se_effort_override = None, se_messages = [], se_created_at = now, se_updated_at = now\<rparr>"

definition normalized_session_scope :: "session \<Rightarrow> memory_scope" where
  "normalized_session_scope s = (se_scope s)\<lparr>sc_owner := Some (se_owner s)\<rparr>"

definition session_identity_scope :: "owner \<Rightarrow> memory_scope \<Rightarrow> memory_scope" where
  "session_identity_scope ow scope = scope\<lparr>sc_owner := Some ow\<rparr>"

definition date_range_contains :: "instant option \<Rightarrow> instant option \<Rightarrow> instant \<Rightarrow> bool" where
  "date_range_contains since until at_time \<longleftrightarrow>
     is_none_or (\<lambda>s. s \<le> at_time) since \<and> is_none_or (\<lambda>u. at_time \<le> u) until"

definition append_chunk :: "string \<Rightarrow> string \<Rightarrow> string" where
  "append_chunk buf chunk = (if buf = [] then chunk else buf @ '' '' @ chunk)"

definition search_chunks :: "message \<Rightarrow> string list" where
  "search_chunks m = (case m of
       System content \<Rightarrow> [content]
     | User content _ \<Rightarrow> concat (map (\<lambda>b. case b of Text t \<Rightarrow> [t] | _ \<Rightarrow> []) content)
     | Assistant t _ \<Rightarrow> [t]
     | _ \<Rightarrow> [])"

definition session_search_text :: "session \<Rightarrow> string" where
  "session_search_text s =
     fold (\<lambda>m buf. fold (\<lambda>c b. append_chunk b c) (search_chunks m) buf) (se_messages s) []"

section \<open>The store\<close>

record session_store =
  ss_sessions :: "(session_id, session) hmap"
  ss_archives :: "(session_id, session_archive_entry list) hmap"

definition session_store_new :: session_store where
  "session_store_new = \<lparr>ss_sessions = [], ss_archives = []\<rparr>"

definition is_identity :: "owner \<Rightarrow> thread_id option \<Rightarrow> memory_scope \<Rightarrow> session \<Rightarrow> bool" where
  "is_identity ow th scope s \<longleftrightarrow> se_thread s = th
     \<and> query_matches (query_identity (session_identity_scope ow scope)) (normalized_session_scope s)"

definition find_or_create ::
  "session_id \<Rightarrow> instant \<Rightarrow> owner \<Rightarrow> thread_id option \<Rightarrow> memory_scope \<Rightarrow> session_store
   \<Rightarrow> session_store \<times> session" where
  "find_or_create new_id now ow th scope st =
     (case max_by_key se_updated_at (filter (is_identity ow th scope) (hm_values (ss_sessions st))) of
        Some s \<Rightarrow> (st, s)
      | None \<Rightarrow>
          let s = (new_empty_session new_id ow th now)\<lparr>se_scope := scope\<lparr>sc_owner := Some ow\<rparr>\<rparr>
          in (st\<lparr>ss_sessions := AList.update (se_id s) s (ss_sessions st)\<rparr>, s))"

definition session_load :: "session_id \<Rightarrow> session_store \<Rightarrow> session option" where
  "session_load i st = map_of (ss_sessions st) i"

definition session_save :: "session \<Rightarrow> session_store \<Rightarrow> session_store" where
  "session_save s0 st =
     (let s = s0\<lparr>se_scope := (se_scope s0)\<lparr>sc_owner := Some (se_owner s0)\<rparr>\<rparr>
      in st\<lparr>ss_sessions := AList.update (se_id s) s (ss_sessions st)\<rparr>)"

definition put_messages :: "message list \<Rightarrow> instant \<Rightarrow> session \<Rightarrow> session" where
  "put_messages ms at_time s = s\<lparr>se_messages := ms, se_updated_at := at_time\<rparr>"

definition save_messages ::
  "session_id \<Rightarrow> message list \<Rightarrow> instant \<Rightarrow> session_store \<Rightarrow> session_store \<times> (store_error + unit)"
where
  "save_messages i ms at_time st =
     (if hm_contains i (ss_sessions st)
      then (st\<lparr>ss_sessions := hm_modify i (put_messages ms at_time) (ss_sessions st)\<rparr>, Inr ())
      else (st, Inl SE_NotFound))"

definition get_compaction_summary :: "session_id \<Rightarrow> session_store \<Rightarrow> string option" where
  "get_compaction_summary i st = Option.bind (session_load i st) se_compaction_summary"

definition set_compaction_summary ::
  "instant \<Rightarrow> session_id \<Rightarrow> string \<Rightarrow> session_store \<Rightarrow> session_store \<times> (store_error + unit)" where
  "set_compaction_summary now i summary st = (case session_load i st of
       None \<Rightarrow> (st, Inl SE_NotFound)
     | Some s \<Rightarrow>
         (session_save (s\<lparr>se_compaction_summary := Some summary, se_updated_at := now\<rparr>) st, Inr ()))"

definition archive_messages ::
  "string \<Rightarrow> session_id \<Rightarrow> message list \<Rightarrow> instant \<Rightarrow> session_store
   \<Rightarrow> session_store \<times> (store_error + string)" where
  "archive_messages new_id sid ms created_at st =
     (if \<not> hm_contains sid (ss_sessions st) then (st, Inl SE_NotFound)
      else
        let entry = \<lparr>ar_id = new_id, ar_session_id = sid, ar_messages = ms, ar_created_at = created_at\<rparr>;
            entries = unwrap_or [] (map_of (ss_archives st) sid)
        in (st\<lparr>ss_archives := AList.update sid (entries @ [entry]) (ss_archives st)\<rparr>, Inr new_id))"

definition list_archives :: "session_id \<Rightarrow> page \<Rightarrow> session_store \<Rightarrow> session_archive_entry list" where
  "list_archives sid p st =
     paginate p (sort_key (\<lambda>e. - ar_created_at e) (unwrap_or [] (map_of (ss_archives st) sid)))"

definition cleanup_old_archives :: "instant \<Rightarrow> int \<Rightarrow> session_store \<Rightarrow> session_store \<times> nat" where
  "cleanup_old_archives now d st =
     (let cutoff = now - days d;
          kept_archives = map (\<lambda>(i, es). (i, filter (\<lambda>e. cutoff \<le> ar_created_at e) es)) (ss_archives st)
      in (st\<lparr>ss_archives := kept_archives\<rparr>,
          sum_list (map (\<lambda>(i, es). length es - length (filter (\<lambda>e. cutoff \<le> ar_created_at e) es))
            (ss_archives st))))"

definition session_list :: "owner \<Rightarrow> page \<Rightarrow> session_store \<Rightarrow> session_info list" where
  "session_list ow p st = map session_info_from
     (list_page (\<lambda>s. se_owner s = ow) (\<lambda>s. - se_updated_at s) p (ss_sessions st))"

definition session_cleanup_old :: "instant \<Rightarrow> int \<Rightarrow> session_store \<Rightarrow> session_store \<times> nat" where
  "session_cleanup_old now d st =
     (let cutoff = now - days d;
          remaining = hm_retain (\<lambda>_ s. cutoff \<le> se_updated_at s) (ss_sessions st)
      in (st\<lparr>ss_sessions := remaining\<rparr>, length (ss_sessions st) - length remaining))"

section \<open>Search\<close>

record session_search_hit =
  sh_session_id :: session_id
  sh_excerpt :: string
  sh_score :: "64 word"
  sh_occurred_at :: instant

definition snippet_before :: nat where "snippet_before = 80"
definition snippet_after :: nat where "snippet_after = 120"

definition snippet :: "(string \<Rightarrow> string) \<Rightarrow> string \<Rightarrow> string \<Rightarrow> string" where
  "snippet lower t q_lower =
     (if q_lower = [] then take_chars (snippet_before + snippet_after) t
      else case str_find q_lower (lower t) of
        None \<Rightarrow> take_chars (snippet_before + snippet_after) t
      | Some pos \<Rightarrow>
          unwrap_or t (str_get_range t (pos - snippet_before)
            (min (pos + length q_lower + snippet_after) (length t))))"

text \<open>The bits of 1.0, the score of every hit.\<close>

definition f64_one :: "64 word" where "f64_one = 0x3FF0000000000000"

definition build_hit :: "(string \<Rightarrow> string) \<Rightarrow> string \<Rightarrow> session \<Rightarrow> session_search_hit option" where
  "build_hit lower q_lower s =
     (let body = session_search_text s in
      if q_lower \<noteq> [] \<and> \<not> str_contains q_lower (lower body) then None
      else Some \<lparr>sh_session_id = se_id s, sh_excerpt = snippet lower body q_lower, sh_score = f64_one,
                 sh_occurred_at = se_updated_at s\<rparr>)"

definition scope_filter_matches :: "search_query \<Rightarrow> session \<Rightarrow> bool" where
  "scope_filter_matches q s \<longleftrightarrow> query_matches (query_filter (sq_scope q)) (normalized_session_scope s)"

definition session_search ::
  "(string \<Rightarrow> string) \<Rightarrow> search_query \<Rightarrow> session_store \<Rightarrow> session_search_hit list" where
  "session_search lower q st =
     (let q_lower = lower (sq_query q);
          hits = List.map_filter (build_hit lower q_lower)
            (filter (\<lambda>s. scope_filter_matches q s
                \<and> date_range_contains (sq_since q) (sq_until q) (se_updated_at s))
              (hm_values (ss_sessions st)))
      in skip_take (sq_offset q) (sq_limit q) (sort_key (\<lambda>h. - sh_occurred_at h) hits))"

section \<open>Identities\<close>

definition identity_of :: "session \<Rightarrow> thread_id option \<times> memory_scope" where
  "identity_of s = (se_thread s, normalized_session_scope s)"

lemma query_identity_eq: "query_matches (query_identity scope) row \<longleftrightarrow> row = scope"
  by (cases scope; cases row)
    (auto simp: query_matches_def query_identity_def all_scope_predicates_def
      predicate_matches_field scope_field_value_def split: option.splits)

lemma is_identity_iff:
  "is_identity ow th scope s \<longleftrightarrow> identity_of s = (th, session_identity_scope ow scope)"
  by (simp add: is_identity_def identity_of_def query_identity_eq)

lemma put_messages_simps [simp]:
  "identity_of (put_messages ms t s) = identity_of s"
  "se_id (put_messages ms t s) = se_id s" "se_scope (put_messages ms t s) = se_scope s"
  "se_owner (put_messages ms t s) = se_owner s" "se_messages (put_messages ms t s) = ms"
  "se_model_override (put_messages ms t s) = se_model_override s"
  by (simp_all add: identity_of_def normalized_session_scope_def put_messages_def)

definition session_wf :: "session_store \<Rightarrow> bool" where
  "session_wf st \<longleftrightarrow> hm_wf (ss_sessions st)
     \<and> (\<forall>i s. map_of (ss_sessions st) i = Some s \<longrightarrow>
          se_id s = i \<and> sc_owner (se_scope s) = Some (se_owner s))
     \<and> distinct (map identity_of (hm_values (ss_sessions st)))"

lemma session_wfD:
  assumes "session_wf st" "map_of (ss_sessions st) i = Some s"
  shows "se_id s = i" "sc_owner (se_scope s) = Some (se_owner s)" "s \<in> set (hm_values (ss_sessions st))"
  using assms by (auto simp: session_wf_def hm_values_in)

lemma normalized_stored:
  assumes "session_wf st" "map_of (ss_sessions st) i = Some s"
  shows "normalized_session_scope s = se_scope s"
  using session_wfD(2) [OF assms] by (simp add: normalized_session_scope_def)

text \<open>The values after an update at a fresh key, and after one that keeps every identity.\<close>

lemma values_update_same:
  assumes "hm_wf m" "map_of m k = Some v" "f w = f v"
  shows "map f (hm_values (AList.update k w m)) = map f (hm_values m)"
  using assms unfolding hm_values_def hm_wf_def
proof (induction m)
  case (Cons x m)
  then show ?case by (cases x) (auto simp: update_conv')
qed simp

lemma values_retain: "hm_values (hm_retain P m) = map snd (filter (\<lambda>(k, v). P k v) m)"
  by (simp add: hm_values_def hm_retain_def)

lemma distinct_map_retain:
  "distinct (map f (hm_values m)) \<Longrightarrow> distinct (map f (hm_values (hm_retain P m)))"
  unfolding hm_values_def hm_retain_def by (induction m) auto

section \<open>Sequences of operations\<close>

text \<open>Everything a run, a compaction or a cleanup does to the store. Writing a whole row from outside
  (\<open>save\<close>) is left out: it may give two rows one identity.\<close>

datatype session_op =
    SO_Find session_id instant owner "thread_id option" memory_scope
  | SO_Save_Messages session_id "message list" instant
  | SO_Summary instant session_id string
  | SO_Archive string session_id "message list" instant
  | SO_Cleanup_Archives instant int
  | SO_Cleanup instant int

fun session_step :: "session_op \<Rightarrow> session_store \<Rightarrow> session_store" where
  "session_step (SO_Find i now ow th scope) st = fst (find_or_create i now ow th scope st)"
| "session_step (SO_Save_Messages i ms t) st = fst (save_messages i ms t st)"
| "session_step (SO_Summary now i summary) st = fst (set_compaction_summary now i summary st)"
| "session_step (SO_Archive a i ms t) st = fst (archive_messages a i ms t st)"
| "session_step (SO_Cleanup_Archives now d) st = fst (cleanup_old_archives now d st)"
| "session_step (SO_Cleanup now d) st = fst (session_cleanup_old now d st)"

text \<open>The ids drawn for new sessions are fresh.\<close>

fun fresh_ids :: "session_op list \<Rightarrow> session_store \<Rightarrow> bool" where
  "fresh_ids [] st = True"
| "fresh_ids (op # ops) st =
     ((case op of SO_Find i now ow th scope \<Rightarrow> \<not> hm_contains i (ss_sessions st) | _ \<Rightarrow> True)
      \<and> fresh_ids ops (session_step op st))"

lemma find_or_create_wf:
  assumes "session_wf st" "\<not> hm_contains i (ss_sessions st)"
  shows "session_wf (fst (find_or_create i now ow th scope st))"
proof (cases "max_by_key se_updated_at (filter (is_identity ow th scope) (hm_values (ss_sessions st)))")
  case None
  define s where "s = (new_empty_session i ow th now)\<lparr>se_scope := scope\<lparr>sc_owner := Some ow\<rparr>\<rparr>"
  have s: "se_id s = i" "se_owner s = ow" "sc_owner (se_scope s) = Some ow"
    "identity_of s = (th, session_identity_scope ow scope)"
    by (simp_all add: s_def new_empty_session_def identity_of_def normalized_session_scope_def
        session_identity_scope_def)
  have "identity_of s \<notin> identity_of ` set (hm_values (ss_sessions st))"
    using None by (auto simp: s filter_empty_conv is_identity_iff)
  then show ?thesis
    using assms None s
    by (auto simp: session_wf_def find_or_create_def Let_def hm_get_update values_update_new
        hm_contains_def simp flip: s_def split: if_splits)
qed (simp add: find_or_create_def assms(1))

lemma session_wf_sessions:
  "ss_sessions st = ss_sessions st' \<Longrightarrow> session_wf st = session_wf st'"
  by (simp add: session_wf_def)

lemma session_step_wf:
  assumes wf: "session_wf st" and fresh: "fresh_ids [op] st"
  shows "session_wf (session_step op st)"
proof (cases op)
  case (SO_Find i now ow th scope)
  then show ?thesis using find_or_create_wf [OF wf] fresh by simp
next
  case (SO_Save_Messages i ms t)
  then show ?thesis using wf
    by (auto simp: save_messages_def session_wf_def hm_get_modify values_modify split: if_splits)
next
  case (SO_Summary now i summary)
  show ?thesis
  proof (cases "session_load i st")
    case (Some s)
    then have s: "map_of (ss_sessions st) i = Some s" by (simp add: session_load_def)
    define s' where "s' = s\<lparr>se_compaction_summary := Some summary, se_updated_at := now,
      se_scope := (se_scope s)\<lparr>sc_owner := Some (se_owner s)\<rparr>\<rparr>"
    have s': "se_id s' = i" "sc_owner (se_scope s') = Some (se_owner s')" "identity_of s' = identity_of s"
      using session_wfD [OF wf s]
      by (simp_all add: s'_def identity_of_def normalized_session_scope_def)
    have "session_step op st = st\<lparr>ss_sessions := AList.update i s' (ss_sessions st)\<rparr>"
      using Some session_wfD(1) [OF wf s]
      by (simp add: SO_Summary set_compaction_summary_def session_save_def s'_def)
    then show ?thesis
      using wf s s' values_update_same [OF _ s s'(3)]
      by (auto simp: session_wf_def hm_get_update split: if_splits)
  qed (simp add: SO_Summary set_compaction_summary_def wf)
next
  case (SO_Archive a i ms t)
  then show ?thesis
    using wf by (auto simp: archive_messages_def Let_def session_wf_def)
next
  case (SO_Cleanup_Archives now d)
  then show ?thesis
    using wf by (auto simp: cleanup_old_archives_def Let_def session_wf_def)
next
  case (SO_Cleanup now d)
  then show ?thesis
    using wf
    by (auto simp: session_cleanup_old_def Let_def session_wf_def hm_get_retain distinct_map_retain
        split: option.splits if_splits)
qed

lemma session_run_wf:
  "session_wf st \<Longrightarrow> fresh_ids ops st \<Longrightarrow> session_wf (fold session_step ops st)"
proof (induction ops arbitrary: st)
  case (Cons op ops)
  then have "session_wf (session_step op st)" by (intro session_step_wf) auto
  then show ?case using Cons by simp
qed simp

lemma session_store_new_wf: "session_wf session_store_new"
  by (simp add: session_wf_def session_store_new_def hm_values_def)

section \<open>Properties\<close>

lemma distinct_map_filter_unique:
  "distinct (map f xs) \<Longrightarrow> x \<in> set xs \<Longrightarrow> filter (\<lambda>y. f y = f x) xs = [x]"
proof (induction xs)
  case (Cons a xs)
  then show ?case
    by (cases "x = a") (force simp: filter_empty_conv image_iff)+
qed simp

lemma found_by_identity:
  assumes wf: "session_wf st" and s: "map_of (ss_sessions st) i = Some s"
    and key: "identity_of s = (th, session_identity_scope ow scope)"
  shows "find_or_create new_id now ow th scope st = (st, s)"
proof -
  have "filter (is_identity ow th scope) (hm_values (ss_sessions st))
      = filter (\<lambda>y. identity_of y = identity_of s) (hm_values (ss_sessions st))"
    by (intro filter_cong) (simp_all add: is_identity_iff key)
  also have "\<dots> = [s]"
    using wf session_wfD(3) [OF wf s] unfolding session_wf_def
    by (intro distinct_map_filter_unique) auto
  finally show ?thesis by (simp add: find_or_create_def)
qed

lemma stored_identity:
  assumes "session_wf st" "map_of (ss_sessions st) i = Some s"
  shows "identity_of s = (se_thread s, session_identity_scope (se_owner s) (se_scope s))"
  by (simp add: identity_of_def session_identity_scope_def normalized_session_scope_def)

text \<open>C8: a conversation is never forked. After any sequence of operations from the empty store
  (lookups, message and summary writes, archiving, cleanup), looking up the identity of a stored
  session returns that very session and creates nothing; a lookup that does create one stores it,
  empty, under the identity asked for, where the next lookup finds it.\<close>

theorem session_lookup_roundtrip:
  assumes "fresh_ids ops session_store_new"
    and "\<not> hm_contains new_id (ss_sessions (fold session_step ops session_store_new))"
  defines "st \<equiv> fold session_step ops session_store_new"
  shows "(session_load i st = Some s \<longrightarrow>
            find_or_create new_id now (se_owner s) (se_thread s) (se_scope s) st = (st, s))
     \<and> (case find_or_create new_id now ow th scope st of (st', t) \<Rightarrow>
          se_thread t = th \<and> normalized_session_scope t = session_identity_scope ow scope
          \<and> session_load (se_id t) st' = Some t
          \<and> (st' \<noteq> st \<longrightarrow> se_id t = new_id \<and> se_messages t = [])
          \<and> find_or_create other_id later ow th scope st' = (st', t))"
proof -
  have wf: "session_wf st"
    unfolding st_def using session_run_wf [OF session_store_new_wf assms(1)] .
  obtain st' t where f: "find_or_create new_id now ow th scope st = (st', t)" by (metis surj_pair)
  have wf': "session_wf st'"
    using find_or_create_wf [OF wf] assms(2) f by (metis fst_conv st_def)
  have t: "identity_of t = (th, session_identity_scope ow scope) \<and> session_load (se_id t) st' = Some t
      \<and> (st' \<noteq> st \<longrightarrow> se_id t = new_id \<and> se_messages t = [])"
  proof (cases "max_by_key se_updated_at (filter (is_identity ow th scope) (hm_values (ss_sessions st)))")
    case None
    then show ?thesis
      using f by (auto simp: find_or_create_def Let_def new_empty_session_def identity_of_def
          normalized_session_scope_def session_identity_scope_def session_load_def hm_get_update)
  next
    case (Some s)
    then have "s \<in> set (hm_values (ss_sessions st))" "is_identity ow th scope s"
      using max_by_key_Some by fastforce+
    moreover from this(1) obtain i where "map_of (ss_sessions st) i = Some s"
      using wf by (auto simp: session_wf_def hm_values_in)
    ultimately show ?thesis
      using Some f session_wfD(1) [OF wf] by (auto simp: find_or_create_def session_load_def is_identity_iff)
  qed
  then have st': "map_of (ss_sessions st') (se_id t) = Some t" by (simp add: session_load_def)
  have "find_or_create other_id later ow th scope st' = (st', t)"
    using found_by_identity [OF wf' st'] t by blast
  moreover have "find_or_create new_id now (se_owner s) (se_thread s) (se_scope s) st = (st, s)"
    if "session_load i st = Some s"
    using that wf stored_identity by (intro found_by_identity) (auto simp: session_load_def)
  ultimately show ?thesis using t f by (auto simp: identity_of_def)
qed

theorem session_lookup_roundtrip_witness:
  "\<exists>st s. find_or_create ''b'' 7 ''bob'' None global_scope st = (st, s) \<and> se_id s = ''a''"
proof -
  define ops where "ops = [SO_Find ''a'' 1 ''bob'' None global_scope]"
  have fresh: "fresh_ids ops session_store_new"
    "\<not> hm_contains ''b'' (ss_sessions (fold session_step ops session_store_new))"
    by (auto simp: ops_def session_store_new_def hm_contains_def find_or_create_def hm_values_def
        Let_def new_empty_session_def)
  have "find_or_create ''b'' 7 ''bob'' None global_scope (fold session_step ops session_store_new)
      = (fold session_step ops session_store_new,
         snd (find_or_create ''a'' 1 ''bob'' None global_scope session_store_new))"
    using session_lookup_roundtrip [OF fresh(1) fresh(2), of "''a''"
        "snd (find_or_create ''a'' 1 ''bob'' None global_scope session_store_new)" 7]
    by (simp add: ops_def session_store_new_def session_load_def find_or_create_def hm_values_def
        Let_def new_empty_session_def global_scope_def session_scope_def for_owner_def is_identity_iff
        identity_of_def normalized_session_scope_def session_identity_scope_def)
  then show ?thesis
    by (force simp: find_or_create_def session_store_new_def hm_values_def Let_def new_empty_session_def)
qed

text \<open>A search returns only sessions its scope and date range let through, newest first, and at most
  \<open>limit\<close> of them.\<close>

lemma search_hits:
  "h \<in> set (session_search lower q st) \<Longrightarrow>
     \<exists>s\<in>set (hm_values (ss_sessions st)). h = \<lparr>sh_session_id = se_id s,
         sh_excerpt = snippet lower (session_search_text s) (lower (sq_query q)), sh_score = f64_one,
         sh_occurred_at = se_updated_at s\<rparr>
       \<and> scope_matches (sq_scope q) (normalized_session_scope s)
       \<and> date_range_contains (sq_since q) (sq_until q) (se_updated_at s)"
  unfolding session_search_def Let_def
  by (drule set_skip_take [THEN subsetD])
    (auto simp: List.map_filter_def build_hit_def Let_def scope_filter_matches_def query_filter_scope
      split: if_splits)

lemma search_sorted:
  "sorted (map (\<lambda>h. - sh_occurred_at h) (session_search lower q st))
   \<and> length (session_search lower q st) \<le> sq_limit q"
  by (simp add: session_search_def Let_def sorted_skip_take length_skip_take)

text \<open>The excerpt is meant to be a window of some two hundred bytes around the match. When an end of
  the window falls inside a character the slice fails, and the excerpt is the whole text, however
  long: here 41 two-byte characters and a letter precede the match.\<close>

lemma snippet_may_be_whole_text:
  "snippet (\<lambda>s. s) (concat (replicate 41 [CHR 0xC3, CHR 0xA9]) @ ''bq'' @ rest) ''q''
     = concat (replicate 41 [CHR 0xC3, CHR 0xA9]) @ ''bq'' @ rest"
proof -
  define pre where "pre = concat (replicate 41 [CHR 0xC3, CHR 0xA9]) @ ''b''"
  have find: "str_find ''q'' (xs @ CHR ''q'' # ys) = Some (length xs)" if "CHR ''q'' \<notin> set xs" for xs ys
    using that by (induction xs) (auto simp: starts_with_def)
  have pre: "length pre = 83" "CHR ''q'' \<notin> set pre" "pre ! 3 = CHR 0xA9"
    by (simp_all add: pre_def numeral_eq_Suc)
  have "\<not> is_char_boundary (pre @ CHR ''q'' # rest) 3"
    using pre by (simp add: is_char_boundary_def nth_append is_continuation_def)
  then show ?thesis
    using find [OF pre(2), of rest] pre(1)
    by (simp add: snippet_def str_get_range_def snippet_before_def pre_def)
qed

end
