(* ===== verification/Session_Persist.thy ===== *)
theory Session_Persist
  imports Session_Store Hooks
begin

text \<open>
  The hook that keeps a conversation across runs (\<open>crabgent-session/src/hook.rs\<close> and
  \<open>hook/safe_prefix.rs\<close>). It finds the session when a run starts, prepends its messages to the
  prompt, mirrors the log while the run goes on, and decides at the end what to keep: everything
  after a completed run, a repaired log after a pause, the accepted input after an error or a
  cancellation. Outbound messages into other conversations are copied there.

  The hook is generic over its store: the store is a record of operations, and what the hook needs
  of it is the locale \<open>session_contract\<close>, which the in-memory store provides. Store errors are
  logged and otherwise ignored. The state of the hook and the store are the world of the run loop,
  so that the hook is a \<open>hook\<close> record of the model.
\<close>

section \<open>Which part of a log is safe\<close>

definition is_input :: "message \<Rightarrow> bool" where
  "is_input m \<longleftrightarrow> (case m of System _ \<Rightarrow> True | User _ _ \<Rightarrow> True | _ \<Rightarrow> False)"

definition is_error_safe_log :: "message list \<Rightarrow> bool" where
  "is_error_safe_log ms \<longleftrightarrow> ms \<noteq> [] \<and> is_input (last ms)"

definition safe_prefix :: "message list \<Rightarrow> message list" where
  "safe_prefix ms = (case rposition is_input ms of None \<Rightarrow> [] | Some idx \<Rightarrow> take (idx + 1) ms)"

definition resolved_ids :: "message list \<Rightarrow> string list" where
  "resolved_ids ms = List.map_filter (\<lambda>m. case m of ToolResult i _ _ \<Rightarrow> Some i | _ \<Rightarrow> None) ms"

definition called_ids :: "message list \<Rightarrow> string list" where
  "called_ids ms = concat (map (\<lambda>m. case m of Assistant _ calls \<Rightarrow> map tc_id calls | _ \<Rightarrow> []) ms)"

definition interrupted_text :: string where
  "interrupted_text = ''interrupted by pause/restart before a result was recorded; the call may have partially executed. Decide what (if anything) to redo.''"

definition repaired_paused_log :: "message list \<Rightarrow> message list" where
  "repaired_paused_log ms =
     (let resolved = resolved_ids ms;
          dangling = filter (\<lambda>i. i \<notin> set resolved) (called_ids ms)
      in ms @ map (\<lambda>i. ToolResult i (JStr interrupted_text) True) dangling)"

definition longest_safe_prefix :: "message list option \<Rightarrow> message list \<Rightarrow> message list" where
  "longest_safe_prefix snapshot latest =
     (let trimmed = safe_prefix latest in
      case snapshot of
        Some snap \<Rightarrow> if length trimmed < length snap then snap else trimmed
      | None \<Rightarrow> trimmed)"

section \<open>The store the hook is given\<close>

record 's session_api =
  sa_find :: "owner \<Rightarrow> thread_id option \<Rightarrow> memory_scope \<Rightarrow> 's \<Rightarrow> 's \<times> (store_error + session)"
  sa_save :: "session_id \<Rightarrow> message list \<Rightarrow> instant \<Rightarrow> 's \<Rightarrow> 's \<times> (store_error + unit)"
  sa_now :: "'s \<Rightarrow> 's \<times> instant"

record 's persist_hook =
  ph_store :: "'s session_api"
  ph_resolve_owner :: "subject \<Rightarrow> owner"
  ph_resolve_thread :: "run_ctx \<Rightarrow> thread_id option"

definition persist_hook_new :: "'s session_api \<Rightarrow> 's persist_hook" where
  "persist_hook_new api =
     \<lparr>ph_store = api, ph_resolve_owner = sub_id, ph_resolve_thread = (\<lambda>_. None)\<rparr>"

text \<open>The two maps of the hook, keyed by run, next to the store.\<close>

record 's persist_state =
  ps_store :: 's
  ps_state :: "(string, session) hmap"
  ps_safe :: "(string, message list) hmap"

definition persist_save ::
  "'s persist_hook \<Rightarrow> session \<Rightarrow> message list \<Rightarrow> 's persist_state \<Rightarrow> 's persist_state" where
  "persist_save h se ms w =
     w\<lparr>ps_store := fst (sa_save (ph_store h) (se_id se) ms (se_updated_at se) (ps_store w))\<rparr>"

definition open_session ::
  "'s persist_hook \<Rightarrow> run_ctx \<Rightarrow> 's persist_state \<Rightarrow> 's persist_state \<times> session option" where
  "open_session h ctx w =
     (let ow = ph_resolve_owner h (cx_subject ctx);
          th = ph_resolve_thread h ctx;
          scope = (scope_from_subject (cx_subject ctx))\<lparr>sc_owner := Some ow\<rparr>
      in case sa_find (ph_store h) ow th scope (ps_store w) of
           (st, Inr se) \<Rightarrow> (w\<lparr>ps_store := st\<rparr>, Some (se\<lparr>se_scope := scope\<rparr>))
         | (st, Inl _) \<Rightarrow> (w\<lparr>ps_store := st\<rparr>, None))"

definition record_messages ::
  "'s persist_hook \<Rightarrow> run_ctx \<Rightarrow> message list \<Rightarrow> 's persist_state \<Rightarrow> 's persist_state" where
  "record_messages h ctx ms w = (case map_of (ps_state w) (cx_run_id ctx) of
       None \<Rightarrow> w
     | Some se0 \<Rightarrow>
         (let (st, now) = sa_now (ph_store h) (ps_store w);
              se = put_messages ms now se0;
              w' = w\<lparr>ps_store := st, ps_state := AList.update (cx_run_id ctx) se (ps_state w)\<rparr>
          in if is_error_safe_log ms
             then persist_save h se ms
                    (w'\<lparr>ps_safe := AList.update (cx_run_id ctx) ms (ps_safe w')\<rparr>)
             else w'))"

section \<open>Copies into other conversations\<close>

definition foreign_outbound :: "session \<Rightarrow> message \<Rightarrow> (owner \<times> string \<times> string) option" where
  "foreign_outbound se m = (case m of
       ChannelOutbound conv _ channel message_id _ _ \<Rightarrow>
         if conv = se_owner se then None else Some (conv, message_id, channel)
     | _ \<Rightarrow> None)"

definition fan_out_scope :: "session \<Rightarrow> owner \<Rightarrow> string \<Rightarrow> memory_scope" where
  "fan_out_scope origin conv channel =
     (se_scope origin)\<lparr>sc_owner := Some conv, sc_conv := Some conv, sc_channel := Some channel\<rparr>"

definition target_has_outbound :: "message list \<Rightarrow> string \<Rightarrow> bool" where
  "target_has_outbound ms message_id = list_ex (\<lambda>m. case m of
       ChannelOutbound _ _ _ i _ _ \<Rightarrow> i = message_id | _ \<Rightarrow> False) ms"

definition notify_user_record :: "message \<Rightarrow> message option" where
  "notify_user_record m = (case m of
       ChannelOutbound _ body _ _ _ _ \<Rightarrow> Some (User [Text
         (''[notify_user record] You previously sent the following message into this conversation: ''
          @ body)] None)
     | _ \<Rightarrow> None)"

definition append_fan_out_messages :: "message list \<Rightarrow> message \<Rightarrow> message list" where
  "append_fan_out_messages ms m =
     ms @ [m] @ (case notify_user_record m of Some r \<Rightarrow> [r] | None \<Rightarrow> [])"

definition append_outbound_to_conv ::
  "'s persist_hook \<Rightarrow> session \<Rightarrow> message \<Rightarrow> owner \<times> string \<times> string \<Rightarrow> 's persist_state
   \<Rightarrow> 's persist_state" where
  "append_outbound_to_conv h origin m ob w = (case ob of (conv, message_id, channel) \<Rightarrow>
     (case sa_find (ph_store h) conv None (fan_out_scope origin conv channel) (ps_store w) of
        (st, Inl _) \<Rightarrow> w\<lparr>ps_store := st\<rparr>
      | (st, Inr target) \<Rightarrow>
          if target_has_outbound (se_messages target) message_id then w\<lparr>ps_store := st\<rparr>
          else
            (let (st', now) = sa_now (ph_store h) st
             in w\<lparr>ps_store := fst (sa_save (ph_store h) (se_id target)
                    (append_fan_out_messages (se_messages target) m) now st')\<rparr>)))"

definition fan_out_foreign_outbound ::
  "'s persist_hook \<Rightarrow> session \<Rightarrow> 's persist_state \<Rightarrow> 's persist_state" where
  "fan_out_foreign_outbound h se w = fold (\<lambda>m w. case foreign_outbound se m of
       None \<Rightarrow> w
     | Some ob \<Rightarrow> append_outbound_to_conv h se m ob w) (se_messages se) w"

section \<open>The callbacks\<close>

definition persist_session_start ::
  "'s persist_hook \<Rightarrow> run_ctx \<Rightarrow> ('s persist_state, unit decision) call" where
  "persist_session_start h ctx w = (case open_session h ctx w of
       (w', None) \<Rightarrow> (w', [], Some Continue)
     | (w', Some se) \<Rightarrow>
         (w'\<lparr>ps_safe := AList.update (cx_run_id ctx) (se_messages se) (ps_safe w'),
             ps_state := AList.update (cx_run_id ctx) se (ps_state w')\<rparr>,
          [Set_Session_Id (se_id se)]
          @ (case se_model_override se of Some m \<Rightarrow> [Set_Model_Override (model_id_new m)] | None \<Rightarrow> [])
          @ (case se_effort_override se of Some e \<Rightarrow> [Set_Effort_Override e] | None \<Rightarrow> []),
          Some Continue))"

definition persist_prompt_submit ::
  "'s persist_hook \<Rightarrow> message list \<Rightarrow> run_ctx \<Rightarrow> ('s persist_state, message list decision) call" where
  "persist_prompt_submit h ms ctx w = (w, [], Some (case map_of (ps_state w) (cx_run_id ctx) of
       None \<Rightarrow> Continue
     | Some se \<Rightarrow> if se_messages se = [] then Continue else Replace (se_messages se @ ms)))"

definition persist_message ::
  "'s persist_hook \<Rightarrow> message list \<Rightarrow> run_ctx \<Rightarrow> ('s persist_state, message list decision) call" where
  "persist_message h ms ctx w = (record_messages h ctx ms w, [], Some Continue)"

definition stop_session ::
  "'s persist_hook \<Rightarrow> run_ctx \<Rightarrow> outcome \<Rightarrow> 's persist_state \<Rightarrow> 's persist_state" where
  "stop_session h ctx oc w = (case map_of (ps_state w) (cx_run_id ctx) of
       None \<Rightarrow> w
     | Some se \<Rightarrow>
         (let snapshot = map_of (ps_safe w) (cx_run_id ctx);
              w' = w\<lparr>ps_state := AList.delete (cx_run_id ctx) (ps_state w),
                     ps_safe := AList.delete (cx_run_id ctx) (ps_safe w)\<rparr>
          in case oc of
               Paused \<Rightarrow> persist_save h se (repaired_paused_log (se_messages se)) w'
             | Cancelled \<Rightarrow> persist_save h se (longest_safe_prefix snapshot (se_messages se)) w'
             | Errored _ \<Rightarrow> persist_save h se (longest_safe_prefix snapshot (se_messages se)) w'
             | _ \<Rightarrow> fan_out_foreign_outbound h se (persist_save h se (se_messages se) w')))"

definition persist_stop ::
  "'s persist_hook \<Rightarrow> outcome \<Rightarrow> run_ctx \<Rightarrow> ('s persist_state, unit) call" where
  "persist_stop h oc ctx w = (stop_session h ctx oc w, [], Some ())"

definition session_persist_hook :: "'s persist_hook \<Rightarrow> 's persist_state hook" where
  "session_persist_hook h = default_hook\<lparr>
     hk_on_session_start := persist_session_start h,
     hk_on_user_prompt_submit := persist_prompt_submit h,
     hk_on_message := persist_message h,
     hk_on_stop := persist_stop h\<rparr>"

section \<open>Logs after an interruption\<close>

lemma safe_prefix_split:
  "\<exists>tail. ms = safe_prefix ms @ tail \<and> list_all (\<lambda>m. \<not> is_input m) tail
     \<and> (safe_prefix ms = [] \<or> is_error_safe_log (safe_prefix ms))"
proof (cases "rposition is_input ms")
  case None
  then have "safe_prefix ms = []" "list_all (\<lambda>m. \<not> is_input m) ms"
    by (simp_all add: safe_prefix_def) (simp add: rposition_None list_all_iff)
  then show ?thesis by simp
next
  case (Some k)
  then have k: "k < length ms" "is_input (ms ! k)" "list_all (\<lambda>m. \<not> is_input m) (drop (Suc k) ms)"
    using rposition_Some by (fastforce simp: list_all_length)+
  have "ms = take (Suc k) ms @ drop (Suc k) ms" by simp
  moreover have "is_error_safe_log (take (Suc k) ms)"
    using k by (simp add: is_error_safe_log_def take_Suc_conv_app_nth)
  ultimately show ?thesis
    using k(3) by (auto simp: safe_prefix_def Some intro!: exI [of _ "drop (Suc k) ms"])
qed

lemma resolved_ids_append [simp]: "resolved_ids (xs @ ys) = resolved_ids xs @ resolved_ids ys"
  by (simp add: resolved_ids_def List.map_filter_def)

lemma resolved_interrupted [simp]:
  "resolved_ids (map (\<lambda>i. ToolResult i v e) is) = is"
  by (induction "is") (simp_all add: resolved_ids_def List.map_filter_def)

lemma called_ids_append [simp]: "called_ids (xs @ ys) = called_ids xs @ called_ids ys"
  by (simp add: called_ids_def)

lemma called_interrupted [simp]: "called_ids (map (\<lambda>i. ToolResult i v e) is) = []"
  by (induction "is") (simp_all add: called_ids_def)

text \<open>C10: the log kept after a pause is a point to resume from. It extends the log of the run, every
  tool call in it is answered, the answers added are errors that name exactly the calls that were
  left unanswered, and repairing it again changes nothing.\<close>

theorem paused_log_resumable:
  "take (length ms) (repaired_paused_log ms) = ms
   \<and> set (called_ids (repaired_paused_log ms)) \<subseteq> set (resolved_ids (repaired_paused_log ms))
   \<and> drop (length ms) (repaired_paused_log ms)
       = map (\<lambda>i. ToolResult i (JStr interrupted_text) True)
           (filter (\<lambda>i. i \<notin> set (resolved_ids ms)) (called_ids ms))
   \<and> repaired_paused_log (repaired_paused_log ms) = repaired_paused_log ms"
proof -
  have all: "set (called_ids (repaired_paused_log ms)) \<subseteq> set (resolved_ids (repaired_paused_log ms))"
    by (auto simp: repaired_paused_log_def Let_def)
  then have "repaired_paused_log (repaired_paused_log ms) = repaired_paused_log ms"
    unfolding repaired_paused_log_def [of "repaired_paused_log ms"] Let_def
    by (subst filter_False) auto
  with all show ?thesis by (simp add: repaired_paused_log_def Let_def)
qed

section \<open>What the hook needs of its store\<close>

locale session_contract =
  fixes api :: "'s session_api"
    and inv :: "'s \<Rightarrow> bool"
    and lookup :: "session_id \<Rightarrow> 's \<Rightarrow> session option"
  assumes find_inv: "inv s \<Longrightarrow> sa_find api ow th scope s = (s', r) \<Longrightarrow> inv s'"
    and find_found: "inv s \<Longrightarrow> sa_find api ow th scope s = (s', Inr se) \<Longrightarrow>
      lookup (se_id se) s' = Some se \<and> se_owner se = ow"
    and find_frame: "inv s \<Longrightarrow> sa_find api ow th scope s = (s', r) \<Longrightarrow>
      lookup i s = Some row \<Longrightarrow> lookup i s' = Some row"
    and save_inv: "inv s \<Longrightarrow> inv (fst (sa_save api i ms t s))"
    and save_lookup: "inv s \<Longrightarrow> lookup j (fst (sa_save api i ms t s))
      = (if j = i then map_option (put_messages ms t) (lookup j s) else lookup j s)"
    and now_keeps: "inv s \<Longrightarrow> inv (fst (sa_now api s)) \<and> lookup i (fst (sa_now api s)) = lookup i s"
begin

definition uses :: "'s persist_hook \<Rightarrow> bool" where
  "uses h \<longleftrightarrow> ph_store h = api"

abbreviation row :: "session_id \<Rightarrow> 's persist_state \<Rightarrow> session option" where
  "row i w \<equiv> lookup i (ps_store w)"

lemma save_row:
  assumes "uses h" "inv (ps_store w)"
  shows "inv (ps_store (persist_save h se ms w))"
    "row j (persist_save h se ms w)
       = (if j = se_id se then map_option (put_messages ms (se_updated_at se)) (row j w) else row j w)"
  using assms by (simp_all add: persist_save_def uses_def save_inv save_lookup)

text \<open>A copy goes to a session of another owner, so the session of the run is not touched.\<close>

lemma append_outbound_keeps:
  assumes "uses h" "inv (ps_store w)" "row j w = Some r" "se_owner r \<noteq> fst ob"
  shows "inv (ps_store (append_outbound_to_conv h origin m ob w))"
    "row j (append_outbound_to_conv h origin m ob w) = Some r"
proof -
  obtain conv message_id channel where ob: "ob = (conv, message_id, channel)" by (metis surj_pair)
  obtain st q where f: "sa_find api conv None (fan_out_scope origin conv channel) (ps_store w) = (st, q)"
    by (metis surj_pair)
  note st = find_inv [OF assms(2) f] find_frame [OF assms(2) f assms(3)]
  have "inv (ps_store (append_outbound_to_conv h origin m ob w))
      \<and> row j (append_outbound_to_conv h origin m ob w) = Some r"
  proof (cases q)
    case (Inl e)
    then show ?thesis
      using assms(1) f st by (simp add: append_outbound_to_conv_def ob uses_def)
  next
    case (Inr target)
    then have t: "lookup (se_id target) st = Some target" "se_owner target = conv"
      using find_found [OF assms(2)] f by auto
    then have "j \<noteq> se_id target" using st(2) assms(4) ob by auto
    moreover obtain st' now where "sa_now api st = (st', now)" by (metis surj_pair)
    moreover from this have "inv st'" "lookup i st' = lookup i st" for i
      using now_keeps [OF st(1)] by (metis fst_conv)+
    ultimately show ?thesis
      using assms(1) f st Inr
      by (simp add: append_outbound_to_conv_def ob uses_def save_inv save_lookup)
  qed
  then show "inv (ps_store (append_outbound_to_conv h origin m ob w))"
    "row j (append_outbound_to_conv h origin m ob w) = Some r" by simp_all
qed

lemma fan_out_keeps:
  assumes "uses h" "inv (ps_store w)" "row j w = Some r" "se_owner r = se_owner se"
  shows "inv (ps_store (fan_out_foreign_outbound h se w))
    \<and> row j (fan_out_foreign_outbound h se w) = Some r"
proof -
  have "inv (ps_store (fold (\<lambda>m w. case foreign_outbound se m of
          None \<Rightarrow> w | Some ob \<Rightarrow> append_outbound_to_conv h se m ob w) ms w))
      \<and> row j (fold (\<lambda>m w. case foreign_outbound se m of
          None \<Rightarrow> w | Some ob \<Rightarrow> append_outbound_to_conv h se m ob w) ms w) = Some r" for ms
    using assms(2,3)
  proof (induction ms arbitrary: w)
    case (Cons m ms)
    show ?case
    proof (cases "foreign_outbound se m")
      case (Some ob)
      then have "se_owner r \<noteq> fst ob"
        using assms(4) by (auto simp: foreign_outbound_def split: message.splits if_splits)
      then show ?thesis
        using Cons append_outbound_keeps [OF assms(1) Cons.prems] by (simp add: Some)
    qed (use Cons in simp)
  qed simp
  then show ?thesis by (simp add: fan_out_foreign_outbound_def)
qed

end

section \<open>What is kept of a run\<close>

definition persisted :: "outcome \<Rightarrow> message list option \<Rightarrow> message list \<Rightarrow> message list" where
  "persisted oc snapshot latest = (case oc of
       Completed _ \<Rightarrow> latest
     | MaxTurnsExceeded \<Rightarrow> latest
     | Paused \<Rightarrow> repaired_paused_log latest
     | Cancelled \<Rightarrow> longest_safe_prefix snapshot latest
     | Errored _ \<Rightarrow> longest_safe_prefix snapshot latest)"

text \<open>Events of any number of runs over one hook and one store.\<close>

datatype persist_event =
    PE_Start run_ctx
  | PE_Messages run_ctx "message list"
  | PE_Stop run_ctx outcome

fun persist_step :: "'s persist_hook \<Rightarrow> persist_event \<Rightarrow> 's persist_state \<Rightarrow> 's persist_state" where
  "persist_step h (PE_Start ctx) w = fst (persist_session_start h ctx w)"
| "persist_step h (PE_Messages ctx ms) w = fst (persist_message h ms ctx w)"
| "persist_step h (PE_Stop ctx oc) w = fst (persist_stop h oc ctx w)"

text \<open>The logs run \<open>r\<close> reported, and whether it neither started nor stopped meanwhile.\<close>

fun logs_of :: "string \<Rightarrow> persist_event list \<Rightarrow> message list list" where
  "logs_of r [] = []"
| "logs_of r (PE_Messages ctx ms # evs) =
     (if cx_run_id ctx = r then ms # logs_of r evs else logs_of r evs)"
| "logs_of r (_ # evs) = logs_of r evs"

definition bounds_run :: "string \<Rightarrow> persist_event \<Rightarrow> bool" where
  "bounds_run r ev = (case ev of
       PE_Start ctx \<Rightarrow> cx_run_id ctx = r | PE_Stop ctx _ \<Rightarrow> cx_run_id ctx = r
     | PE_Messages _ _ \<Rightarrow> False)"

lemma persist_save_maps [simp]:
  "ps_state (persist_save h se ms w) = ps_state w" "ps_safe (persist_save h se ms w) = ps_safe w"
  by (simp_all add: persist_save_def)

lemma fan_out_maps [simp]:
  "ps_state (fan_out_foreign_outbound h se w) = ps_state w"
  "ps_safe (fan_out_foreign_outbound h se w) = ps_safe w"
proof -
  have one: "ps_state (append_outbound_to_conv h se m ob w) = ps_state w
      \<and> ps_safe (append_outbound_to_conv h se m ob w) = ps_safe w" for m ob w
    by (simp add: append_outbound_to_conv_def split: prod.split sum.split)
  have "ps_state (fold (\<lambda>m w. case foreign_outbound se m of
          None \<Rightarrow> w | Some ob \<Rightarrow> append_outbound_to_conv h se m ob w) ms w) = ps_state w
      \<and> ps_safe (fold (\<lambda>m w. case foreign_outbound se m of
          None \<Rightarrow> w | Some ob \<Rightarrow> append_outbound_to_conv h se m ob w) ms w) = ps_safe w" for ms
    by (induction ms arbitrary: w) (auto simp: one split: option.split)
  then show "ps_state (fan_out_foreign_outbound h se w) = ps_state w"
    "ps_safe (fan_out_foreign_outbound h se w) = ps_safe w"
    by (simp_all add: fan_out_foreign_outbound_def)
qed

text \<open>A run's entries in the two maps follow its own logs only.\<close>

lemma persist_step_maps:
  assumes "map_of (ps_state w) r = Some se" "map_of (ps_safe w) r = Some snap" "\<not> bounds_run r ev"
  shows "\<exists>se'. map_of (ps_state (persist_step h ev w)) r = Some se'
    \<and> se_id se' = se_id se \<and> se_owner se' = se_owner se
    \<and> se_messages se' = last (se_messages se # logs_of r [ev])
    \<and> map_of (ps_safe (persist_step h ev w)) r
        = Some (last (snap # filter is_error_safe_log (logs_of r [ev])))"
proof (cases ev)
  case (PE_Start ctx)
  have "ps_state (fst (open_session h ctx w)) = ps_state w" "ps_safe (fst (open_session h ctx w)) = ps_safe w"
    by (auto simp: open_session_def Let_def split: prod.split sum.split)
  then show ?thesis
    using assms
    by (auto simp: PE_Start persist_session_start_def bounds_run_def hm_get_update
        split: prod.split option.split)
next
  case (PE_Messages ctx ms)
  then show ?thesis
    using assms
    by (auto simp: persist_message_def record_messages_def Let_def hm_get_update
        split: option.split prod.split)
next
  case (PE_Stop ctx oc)
  then show ?thesis
    using assms
    by (auto simp: persist_stop_def stop_session_def Let_def bounds_run_def hm_get_delete
        split: option.split outcome.split)
qed

lemma persist_run_maps:
  assumes "map_of (ps_state w) r = Some se" "map_of (ps_safe w) r = Some snap"
    "\<not> list_ex (bounds_run r) evs"
  shows "\<exists>se'. map_of (ps_state (fold (persist_step h) evs w)) r = Some se'
    \<and> se_id se' = se_id se \<and> se_owner se' = se_owner se
    \<and> se_messages se' = last (se_messages se # logs_of r evs)
    \<and> map_of (ps_safe (fold (persist_step h) evs w)) r
        = Some (last (snap # filter is_error_safe_log (logs_of r evs)))"
  using assms
proof (induction evs arbitrary: w se snap)
  case (Cons ev evs)
  from Cons.prems obtain se1 where se1: "map_of (ps_state (persist_step h ev w)) r = Some se1"
    "se_id se1 = se_id se" "se_owner se1 = se_owner se"
    "se_messages se1 = last (se_messages se # logs_of r [ev])"
    "map_of (ps_safe (persist_step h ev w)) r
        = Some (last (snap # filter is_error_safe_log (logs_of r [ev])))"
    using persist_step_maps [of w r se snap ev h] by auto
  have logs: "logs_of r (ev # evs) = logs_of r [ev] @ logs_of r evs" by (cases ev) auto
  have last_app: "last (x # xs @ ys) = last (last (x # xs) # ys)" for x :: "message list" and xs ys
    by (cases ys) auto
  show ?case
    using Cons.IH [OF se1(1,5)] Cons.prems(3) se1(2,3,4)
    by (fastforce simp: logs last_app simp del: logs_of.simps last.simps)
qed simp

text \<open>Rows change in two columns only.\<close>

definition touched :: "session \<Rightarrow> session \<Rightarrow> bool" where
  "touched r r' \<longleftrightarrow> r' = put_messages (se_messages r') (se_updated_at r') r"

lemma touched_refl [simp]: "touched r r"
  by (simp add: touched_def put_messages_def)

lemma touched_put [simp]: "touched r (put_messages ms t r)"
  by (simp add: touched_def put_messages_def)

lemma touched_trans: "touched r r' \<Longrightarrow> touched r' r'' \<Longrightarrow> touched r r''"
  unfolding touched_def put_messages_def by (cases r; cases r'; cases r'') auto

lemma touched_fields: "touched r r' \<Longrightarrow> se_owner r' = se_owner r \<and> se_id r' = se_id r"
  unfolding touched_def by (metis put_messages_simps(2,4))

context session_contract
begin

lemma save_touches:
  assumes "uses h" "inv (ps_store w)" "row j w = Some r"
  shows "inv (ps_store (persist_save h se ms w)) \<and> (\<exists>r'. row j (persist_save h se ms w) = Some r' \<and> touched r r')"
  using save_row(2) [OF assms(1,2), of j se ms] save_row(1) [OF assms(1,2)] assms(3) by auto

lemma append_touches:
  assumes "uses h" "inv (ps_store w)" "row j w = Some r"
  shows "inv (ps_store (append_outbound_to_conv h origin m ob w))
    \<and> (\<exists>r'. row j (append_outbound_to_conv h origin m ob w) = Some r' \<and> touched r r')"
proof -
  obtain conv message_id channel where ob: "ob = (conv, message_id, channel)" by (metis surj_pair)
  obtain st q where f: "sa_find api conv None (fan_out_scope origin conv channel) (ps_store w) = (st, q)"
    by (metis surj_pair)
  obtain st' now where n: "sa_now api st = (st', now)" by (metis surj_pair)
  note st = find_inv [OF assms(2) f] find_frame [OF assms(2) f assms(3)]
  have "inv st'" "lookup j st' = Some r"
    using now_keeps [OF st(1), of j] n st(2) by simp_all
  then show ?thesis
    using assms(1) f st n
    by (cases q) (auto simp: append_outbound_to_conv_def ob uses_def save_inv save_lookup)
qed

lemma fan_out_touches:
  assumes "uses h" "inv (ps_store w)" "row j w = Some r"
  shows "inv (ps_store (fan_out_foreign_outbound h se w))
    \<and> (\<exists>r'. row j (fan_out_foreign_outbound h se w) = Some r' \<and> touched r r')"
proof -
  have "inv (ps_store (fold (\<lambda>m w. case foreign_outbound se m of
          None \<Rightarrow> w | Some ob \<Rightarrow> append_outbound_to_conv h se m ob w) ms w))
      \<and> (\<exists>r'. row j (fold (\<lambda>m w. case foreign_outbound se m of
          None \<Rightarrow> w | Some ob \<Rightarrow> append_outbound_to_conv h se m ob w) ms w) = Some r' \<and> touched r r')" for ms
    using assms(2,3)
  proof (induction ms arbitrary: w r)
    case (Cons m ms)
    show ?case
    proof (cases "foreign_outbound se m")
      case (Some ob)
      obtain r1 where "inv (ps_store (append_outbound_to_conv h se m ob w))"
        "row j (append_outbound_to_conv h se m ob w) = Some r1" "touched r r1"
        using append_touches [OF assms(1) Cons.prems] by blast
      then show ?thesis using Cons.IH touched_trans by (fastforce simp: Some)
    qed (use Cons in simp)
  qed simp
  then show ?thesis by (simp add: fan_out_foreign_outbound_def)
qed

lemma stop_touches:
  assumes "uses h" "inv (ps_store w)" "row j w = Some r"
  shows "inv (ps_store (stop_session h ctx oc w))
    \<and> (\<exists>r'. row j (stop_session h ctx oc w) = Some r' \<and> touched r r')"
proof (cases "map_of (ps_state w) (cx_run_id ctx)")
  case (Some se)
  define w' where "w' = w\<lparr>ps_state := AList.delete (cx_run_id ctx) (ps_state w),
                     ps_safe := AList.delete (cx_run_id ctx) (ps_safe w)\<rparr>"
  have w': "inv (ps_store w')" "row j w' = Some r" using assms by (simp_all add: w'_def)
  obtain r1 where r1: "inv (ps_store (persist_save h se (se_messages se) w'))"
    "row j (persist_save h se (se_messages se) w') = Some r1" "touched r r1"
    using save_touches [OF assms(1) w'] by blast
  have "stop_session h ctx oc w \<in> range (\<lambda>ms. persist_save h se ms w')
      \<union> {fan_out_foreign_outbound h se (persist_save h se (se_messages se) w')}"
    by (auto simp: stop_session_def Some Let_def w'_def split: outcome.split)
  moreover obtain r2 where "inv (ps_store (fan_out_foreign_outbound h se
      (persist_save h se (se_messages se) w')))" "touched r r2"
    "row j (fan_out_foreign_outbound h se (persist_save h se (se_messages se) w')) = Some r2"
    using fan_out_touches [OF assms(1) r1(1,2), of se] touched_trans [OF r1(3)] by blast
  ultimately show ?thesis
    using save_touches [OF assms(1) w'] by auto
qed (simp add: stop_session_def assms)

lemma step_touches:
  assumes "uses h" "inv (ps_store w)" "row j w = Some r"
  shows "inv (ps_store (persist_step h ev w))
    \<and> (\<exists>r'. row j (persist_step h ev w) = Some r' \<and> touched r r')"
proof (cases ev)
  case (PE_Start ctx)
  obtain st q where "sa_find api (ph_resolve_owner h (cx_subject ctx)) (ph_resolve_thread h ctx)
      ((scope_from_subject (cx_subject ctx))\<lparr>sc_owner := Some (ph_resolve_owner h (cx_subject ctx))\<rparr>)
      (ps_store w) = (st, q)" by (metis surj_pair)
  moreover from this have "inv st" "lookup j st = Some r"
    using find_inv find_frame assms by blast+
  ultimately show ?thesis
    using assms(1)
    by (cases q) (auto simp: PE_Start persist_session_start_def open_session_def uses_def Let_def)
next
  case (PE_Messages ctx ms)
  obtain st now where n: "sa_now api (ps_store w) = (st, now)" by (metis surj_pair)
  then have "inv st" "lookup j st = Some r"
    using now_keeps [OF assms(2), of j] assms(3) by simp_all
  then show ?thesis
    using assms n save_touches [OF assms(1), of _ j r]
    by (auto simp: PE_Messages persist_message_def record_messages_def Let_def uses_def
        split: option.split)
next
  case (PE_Stop ctx oc)
  then show ?thesis using stop_touches [OF assms] by (simp add: persist_stop_def)
qed

lemma run_touches:
  assumes "uses h" "inv (ps_store w)" "row j w = Some r"
  shows "inv (ps_store (fold (persist_step h) evs w))
    \<and> (\<exists>r'. row j (fold (persist_step h) evs w) = Some r' \<and> touched r r')"
  using assms(2,3)
proof (induction evs arbitrary: w r)
  case (Cons ev evs)
  obtain r1 where "inv (ps_store (persist_step h ev w))" "row j (persist_step h ev w) = Some r1"
    "touched r r1"
    using step_touches [OF assms(1) Cons.prems] by blast
  then show ?case using Cons.IH touched_trans by fastforce
qed simp

end

section \<open>From start to stop\<close>

context session_contract
begin

lemma stop_row:
  assumes "uses h" "inv (ps_store w)" "map_of (ps_state w) (cx_run_id ctx) = Some se"
    "map_of (ps_safe w) (cx_run_id ctx) = Some snap"
    "row (se_id se) w = Some r" "se_owner r = se_owner se"
  shows "row (se_id se) (stop_session h ctx oc w)
    = Some (put_messages (persisted oc (Some snap) (se_messages se)) (se_updated_at se) r)"
proof -
  define w' where "w' = w\<lparr>ps_state := AList.delete (cx_run_id ctx) (ps_state w),
                     ps_safe := AList.delete (cx_run_id ctx) (ps_safe w)\<rparr>"
  have w': "inv (ps_store w')" "row (se_id se) w' = Some r" using assms by (simp_all add: w'_def)
  have saved: "row (se_id se) (persist_save h se ms w') = Some (put_messages ms (se_updated_at se) r)" for ms
    using save_row(2) [OF assms(1) w'(1), of "se_id se" se ms] w'(2) by simp
  have "row (se_id se) (fan_out_foreign_outbound h se (persist_save h se ms w'))
      = Some (put_messages ms (se_updated_at se) r)" for ms
    using fan_out_keeps [OF assms(1) save_row(1) [OF assms(1) w'(1)] saved] assms(6) by simp
  then show ?thesis
    using saved assms(3,4)
    by (simp add: stop_session_def persisted_def Let_def flip: w'_def split: outcome.split)
qed

lemma kept_by_outcome:
  assumes "uses h" "inv (ps_store w)" "map_of (ps_state w) (cx_run_id ctx) = Some se"
    "map_of (ps_safe w) (cx_run_id ctx) = Some (se_messages se)"
    "row (se_id se) w = Some r" "se_owner r = se_owner se"
    "\<not> list_ex (bounds_run (cx_run_id ctx)) evs" "cx_run_id ctx' = cx_run_id ctx"
  defines "w' \<equiv> fold (persist_step h) evs w"
  shows "\<exists>r' r''. row (se_id se) w' = Some r' \<and> touched r r'
    \<and> row (se_id se) (stop_session h ctx' oc w') = Some r'' \<and> touched r' r''
    \<and> se_messages r'' = persisted oc
        (Some (last (se_messages se # filter is_error_safe_log (logs_of (cx_run_id ctx) evs))))
        (last (se_messages se # logs_of (cx_run_id ctx) evs))"
proof -
  obtain se' where se': "map_of (ps_state w') (cx_run_id ctx) = Some se'"
    "se_id se' = se_id se" "se_owner se' = se_owner se"
    "se_messages se' = last (se_messages se # logs_of (cx_run_id ctx) evs)"
    "map_of (ps_safe w') (cx_run_id ctx)
      = Some (last (se_messages se # filter is_error_safe_log (logs_of (cx_run_id ctx) evs)))"
    using persist_run_maps [OF assms(3,4,7), of h] unfolding w'_def by blast
  obtain r' where r': "inv (ps_store w')" "row (se_id se) w' = Some r'" "touched r r'"
    using run_touches [OF assms(1,2,5), of evs] unfolding w'_def by blast
  have "se_owner r' = se_owner se'" using touched_fields [OF r'(3)] assms(6) se'(3) by simp
  with stop_row [OF assms(1) r'(1), of ctx' se'] se' r' assms(8) show ?thesis by simp
qed

end

section \<open>The in-memory store\<close>

text \<open>The ids that will be drawn are all different, and none is in use.\<close>

type_synonym session_world = "session_store mem_world"

definition mem_find ::
  "owner \<Rightarrow> thread_id option \<Rightarrow> memory_scope \<Rightarrow> session_world \<Rightarrow> session_world \<times> (store_error + session)" where
  "mem_find ow th scope w =
     (let (w1, now) = mem_now w;
          (st, se) = find_or_create (mw_ids w (mw_drawn w)) now ow th scope (mw_store w)
      in (w1\<lparr>mw_store := st, mw_drawn := mw_drawn w + 1\<rparr>, Inr se))"

definition mem_save ::
  "session_id \<Rightarrow> message list \<Rightarrow> instant \<Rightarrow> session_world \<Rightarrow> session_world \<times> (store_error + unit)" where
  "mem_save i ms t w = (let (st, r) = save_messages i ms t (mw_store w) in (w\<lparr>mw_store := st\<rparr>, r))"

definition mem_api :: "session_world session_api" where
  "mem_api = \<lparr>sa_find = mem_find, sa_save = mem_save, sa_now = mem_now\<rparr>"

definition mem_inv :: "session_world \<Rightarrow> bool" where
  "mem_inv w \<longleftrightarrow> session_wf (mw_store w) \<and> inj (mw_ids w)
     \<and> (\<forall>n\<ge>mw_drawn w. \<not> hm_contains (mw_ids w n) (ss_sessions (mw_store w)))"

lemma found_session:
  assumes "session_wf st" "\<not> hm_contains new_id (ss_sessions st)"
    "find_or_create new_id now ow th scope st = (st', se)"
  shows "session_load (se_id se) st' = Some se" "se_owner se = ow"
    "session_load i st = Some row \<Longrightarrow> session_load i st' = Some row"
    "hm_contains i (ss_sessions st') \<Longrightarrow> hm_contains i (ss_sessions st) \<or> i = new_id"
proof -
  have "session_load (se_id se) st' = Some se \<and> se_owner se = ow
      \<and> (\<forall>i row. session_load i st = Some row \<longrightarrow> session_load i st' = Some row)
      \<and> (\<forall>i. hm_contains i (ss_sessions st') \<longrightarrow> hm_contains i (ss_sessions st) \<or> i = new_id)"
  proof (cases "max_by_key se_updated_at (filter (is_identity ow th scope) (hm_values (ss_sessions st)))")
    case None
    then show ?thesis
      using assms(2,3)
      by (auto simp: find_or_create_def Let_def new_empty_session_def session_load_def hm_get_update
          hm_contains_def split: if_splits)
  next
    case (Some s)
    then have s: "s \<in> set (hm_values (ss_sessions st))" "is_identity ow th scope s"
      using max_by_key_Some by fastforce+
    obtain k where k: "map_of (ss_sessions st) k = Some s"
      using s(1) assms(1) by (auto simp: session_wf_def hm_values_in)
    have "sc_owner (normalized_session_scope s) = Some ow"
      using s(2) by (simp add: is_identity_iff identity_of_def session_identity_scope_def)
    then show ?thesis
      using Some assms(3) k session_wfD(1) [OF assms(1) k]
      by (auto simp: find_or_create_def session_load_def normalized_session_scope_def)
  qed
  then show "session_load (se_id se) st' = Some se" "se_owner se = ow"
    "session_load i st = Some row \<Longrightarrow> session_load i st' = Some row"
    "hm_contains i (ss_sessions st') \<Longrightarrow> hm_contains i (ss_sessions st) \<or> i = new_id" by blast+
qed

lemma save_messages_wf: "session_wf st \<Longrightarrow> session_wf (fst (save_messages i ms t st))"
  using session_step_wf [of st "SO_Save_Messages i ms t"] by simp

lemma save_messages_load:
  "session_load j (fst (save_messages i ms t st))
     = (if j = i then map_option (put_messages ms t) (session_load j st) else session_load j st)"
  by (auto simp: save_messages_def session_load_def hm_get_modify hm_contains_def)

lemma save_messages_contains:
  "hm_contains j (ss_sessions (fst (save_messages i ms t st))) = hm_contains j (ss_sessions st)"
  by (auto simp: save_messages_def hm_contains_def hm_get_modify)

lemma mem_found:
  assumes "mem_inv w" "mem_find ow th scope w = (w', r)"
  obtains se where "r = Inr se" "mem_inv w'" "session_load (se_id se) (mw_store w') = Some se"
    "se_owner se = ow"
    "\<And>i row. session_load i (mw_store w) = Some row \<Longrightarrow> session_load i (mw_store w') = Some row"
proof -
  obtain st se where f: "find_or_create (mw_ids w (mw_drawn w)) (mw_clock w (mw_ticks w)) ow th scope
      (mw_store w) = (st, se)" by (metis surj_pair)
  have inv: "session_wf (mw_store w)" "inj (mw_ids w)"
    "\<And>n. mw_drawn w \<le> n \<Longrightarrow> \<not> hm_contains (mw_ids w n) (ss_sessions (mw_store w))"
    using assms(1) by (auto simp: mem_inv_def)
  note new = found_session [OF inv(1) inv(3) [OF order_refl] f]
  have w': "mw_store w' = st" "mw_ids w' = mw_ids w" "mw_drawn w' = mw_drawn w + 1" "r = Inr se"
    using assms(2) f by (auto simp: mem_find_def mem_now_def Let_def)
  have "session_wf st" using find_or_create_wf [OF inv(1) inv(3) [OF order_refl]] f by (metis fst_conv)
  moreover have "\<not> hm_contains (mw_ids w n) (ss_sessions st)" if "mw_drawn w + 1 \<le> n" for n
  proof
    assume "hm_contains (mw_ids w n) (ss_sessions st)"
    then have "mw_ids w n = mw_ids w (mw_drawn w)" using new(4) inv(3) [of n] that by auto
    then have "n = mw_drawn w" using inv(2) by (simp add: inj_eq)
    with that show False by simp
  qed
  ultimately have "mem_inv w'" using inv(2) by (simp add: mem_inv_def w')
  with that new w' show thesis by auto
qed

lemma fst_mem_save [simp]:
  "fst (mem_save i ms t w) = w\<lparr>mw_store := fst (save_messages i ms t (mw_store w))\<rparr>"
  by (simp add: mem_save_def split: prod.split)

interpretation memory: session_contract mem_api mem_inv "\<lambda>i w. session_load i (mw_store w)"
proof unfold_locales
  fix s s' :: session_world and ow th scope r
  assume *: "mem_inv s" "sa_find mem_api ow th scope s = (s', r)"
  then show "mem_inv s'" by (auto simp: mem_api_def elim: mem_found)
  fix i row
  assume "session_load i (mw_store s) = Some row"
  with * show "session_load i (mw_store s') = Some row" by (auto simp: mem_api_def elim: mem_found)
next
  fix s s' :: session_world and ow th scope se
  assume "mem_inv s" "sa_find mem_api ow th scope s = (s', Inr se)"
  then show "session_load (se_id se) (mw_store s') = Some se \<and> se_owner se = ow"
    by (auto simp: mem_api_def elim: mem_found)
next
  fix s :: session_world and i ms t
  assume "mem_inv s"
  then show "mem_inv (fst (sa_save mem_api i ms t s))"
    by (simp add: mem_api_def mem_inv_def save_messages_wf save_messages_contains)
qed (simp_all add: mem_api_def mem_now_def mem_inv_def save_messages_load)

section \<open>Properties\<close>

lemma started_session:
  assumes "mem_inv (ps_store w)" "ph_store h = mem_api"
    "persist_session_start h ctx w = (w1, ops, d)"
  obtains se row where "d = Some Continue" "mem_inv (ps_store w1)"
    "map_of (ps_state w1) (cx_run_id ctx) = Some se"
    "map_of (ps_safe w1) (cx_run_id ctx) = Some (se_messages se)"
    "session_load (se_id se) (mw_store (ps_store w1)) = Some row" "se_owner row = se_owner se"
    "se_messages row = se_messages se" "Set_Session_Id (se_id se) \<in> set ops"
proof -
  obtain st r where f: "mem_find (ph_resolve_owner h (cx_subject ctx)) (ph_resolve_thread h ctx)
      ((scope_from_subject (cx_subject ctx))\<lparr>sc_owner := Some (ph_resolve_owner h (cx_subject ctx))\<rparr>)
      (ps_store w) = (st, r)" by (metis surj_pair)
  from mem_found [OF assms(1) f] obtain se where "r = Inr se" "mem_inv st"
    "session_load (se_id se) (mw_store st) = Some se" by metis
  note se = this
  define se' where "se' = se\<lparr>se_scope := (scope_from_subject (cx_subject ctx))
      \<lparr>sc_owner := Some (ph_resolve_owner h (cx_subject ctx))\<rparr>\<rparr>"
  have se': "se_id se' = se_id se" "se_owner se' = se_owner se" "se_messages se' = se_messages se"
    by (simp_all add: se'_def)
  have "open_session h ctx w = (w\<lparr>ps_store := st\<rparr>, Some se')"
    using f se(1) by (simp add: open_session_def assms(2) mem_api_def Let_def se'_def)
  then have start: "w1 = w\<lparr>ps_store := st, ps_safe := AList.update (cx_run_id ctx) (se_messages se') (ps_safe w),
      ps_state := AList.update (cx_run_id ctx) se' (ps_state w)\<rparr>"
    "d = Some Continue" "Set_Session_Id (se_id se') \<in> set ops"
    using assms(3) by (auto simp: persist_session_start_def)
  show thesis
    using start(3) by (intro that [of se' se]) (simp_all add: start(1,2) se se' hm_get_update)
qed


definition sample_world :: "session_world persist_state" where
  "sample_world = \<lparr>ps_store = \<lparr>mw_store = session_store_new, mw_ids = (\<lambda>n. replicate n CHR ''i''),
     mw_drawn = 0, mw_clock = int, mw_ticks = 0\<rparr>, ps_state = [], ps_safe = []\<rparr>"

definition sample_ctx :: run_ctx where
  "sample_ctx = run_ctx_new ''r1'' \<lparr>sub_id = ''bob'', sub_attrs = []\<rparr>"


end
