(* ===== verification/Memory_Store.thy ===== *)
theory Memory_Store
  imports Session_Store "HOL-Library.List_Lexorder" "HOL-Library.Char_ord" "HOL-Library.Product_Lexorder"
begin

text \<open>
  Long-term memory: documents, relation labels and edges (\<open>crabgent-store/src/records.rs\<close>,
  \<open>relation_type.rs\<close>) and the in-memory backend (\<open>memory/memory_store.rs\<close>), a map of documents
  and a list of edges behind two mutexes. An operation that takes one lock is one step. The two that
  take both, one after the other, are made of two steps: deleting a document, then its edges; and
  checking the ends of an edge, then inserting it.

  The theorems: what a search may return, what the graph keeps, and what the gap between the two
  steps lets happen. \<open>f32::total_cmp\<close> is written out on the bits; a UUID is its canonical text,
  whose order is the order of its bytes.
\<close>

section \<open>Relation labels\<close>

datatype relation_type_error = RT_Empty | RT_TooLong | RT_InvalidStart string | RT_InvalidChar string

definition max_relation_type_len :: nat where "max_relation_type_len = 64"

definition is_ascii_lowercase :: "char \<Rightarrow> bool" where
  "is_ascii_lowercase c \<longleftrightarrow> 97 \<le> (of_char c :: nat) \<and> (of_char c :: nat) \<le> 122"

definition is_ascii_digit :: "char \<Rightarrow> bool" where
  "is_ascii_digit c \<longleftrightarrow> 48 \<le> (of_char c :: nat) \<and> (of_char c :: nat) \<le> 57"

definition label_char :: "char \<Rightarrow> bool" where
  "label_char c \<longleftrightarrow> is_ascii_lowercase c \<or> is_ascii_digit c \<or> c = CHR ''_''"

text \<open>The character that starts a string, as its bytes: what the errors show.\<close>

definition first_char :: "string \<Rightarrow> string" where
  "first_char s = take 1 s @ takeWhile is_continuation (drop 1 s)"

definition relation_type_new :: "string \<Rightarrow> relation_type_error + string" where
  "relation_type_new v = (case v of
       [] \<Rightarrow> Inl RT_Empty
     | first # rest \<Rightarrow>
         if max_relation_type_len < length v then Inl RT_TooLong
         else if \<not> is_ascii_lowercase first then Inl (RT_InvalidStart (first_char v))
         else (case dropWhile label_char rest of
             [] \<Rightarrow> Inr v
           | bad \<Rightarrow> Inl (RT_InvalidChar (first_char bad))))"

definition derived_from :: string where "derived_from = ''derived_from''"
definition supports :: string where "supports = ''supports''"
definition contradicts :: string where "contradicts = ''contradicts''"
definition supersedes :: string where "supersedes = ''supersedes''"

lemma relation_type_new_valid:
  "relation_type_new v = Inr w \<longleftrightarrow>
     w = v \<and> v \<noteq> [] \<and> length v \<le> max_relation_type_len \<and> is_ascii_lowercase (hd v)
     \<and> list_all label_char (tl v)"
proof -
  have "\<not> list_all label_char xs" if "dropWhile label_char xs = y # ys" for xs y ys
    using that by (metis dropWhile_eq_Nil_conv list.distinct(1) list_all_iff)
  then show ?thesis
    by (cases v) (auto simp: relation_type_new_def list_all_iff split: list.splits)
qed

text \<open>The constructors that skip the validation build labels it accepts.\<close>

lemma fixed_labels_valid:
  "list_all (\<lambda>l. relation_type_new l = Inr l) [derived_from, supports, contradicts, supersedes]"
  by (simp add: relation_type_new_valid derived_from_def supports_def contradicts_def supersedes_def
      max_relation_type_len_def label_char_def is_ascii_lowercase_def is_ascii_digit_def)

section \<open>Records\<close>

type_synonym relation_id = string
type_synonym memory_doc_id = string

record memory_doc =
  md_id :: memory_doc_id
  md_scope :: memory_scope
  md_body :: string
  md_class :: "string option"
  md_importance :: "f32 option"
  md_expires_at :: "instant option"
  md_archived_at :: "instant option"
  md_embedding :: "f32 list option"
  md_created_at :: instant
  md_updated_at :: instant

definition memory_doc_new :: "memory_doc_id \<Rightarrow> instant \<Rightarrow> memory_scope \<Rightarrow> string \<Rightarrow> memory_doc" where
  "memory_doc_new i now scope body =
     \<lparr>md_id = i, md_scope = scope, md_body = body, md_class = None, md_importance = None,
      md_expires_at = None, md_archived_at = None, md_embedding = None, md_created_at = now,
      md_updated_at = now\<rparr>"

record memory_relation =
  mr_id :: relation_id
  mr_from :: memory_doc_id
  mr_to :: memory_doc_id
  mr_type :: string
  mr_scope :: memory_scope
  mr_created_at :: instant

record memory_hit =
  mh_id :: memory_doc_id
  mh_body :: string
  mh_score :: f32
  mh_cosine_similarity :: "f32 option"
  mh_created_at :: instant

section \<open>Search\<close>

definition matches_doc :: "memory_search_plan \<Rightarrow> memory_doc \<Rightarrow> bool" where
  "matches_doc p d \<longleftrightarrow>
     query_matches (mp_scope p) (md_scope d)
     \<and> is_none_or (\<lambda>c. md_class d = Some c) (mp_class p)
     \<and> is_none_or (\<lambda>t. is_none_or (\<lambda>e. t < e) (md_expires_at d)) (mp_expires_after p)
     \<and> (\<not> mp_filter_archived p \<or> md_archived_at d = None)
     \<and> is_none_or (\<lambda>s. s \<le> md_updated_at d) (mp_since p)
     \<and> is_none_or (\<lambda>u. md_updated_at d \<le> u) (mp_until p)"

text \<open>\<open>f32::total_cmp\<close> compares these integers: the bits, with the magnitude of negative numbers
  flipped. The pattern of 0.5 is the default importance, that of 1.0 the
  score of every hit.\<close>

definition total_cmp_key :: "f32 \<Rightarrow> int" where
  "total_cmp_key w = sint (xor w (drop_bit 1 (signed_drop_bit 31 w)))"

definition f32_half :: f32 where "f32_half = 0x3F000000"

definition f32_one :: f32 where "f32_one = 0x3F800000"

definition importance_key :: "memory_doc \<Rightarrow> int" where
  "importance_key d = total_cmp_key (unwrap_or f32_half (md_importance d))"

definition ranking_key :: "memory_doc \<Rightarrow> int \<times> int \<times> string" where
  "ranking_key d = (- importance_key d, - md_created_at d, md_id d)"

record memory_store =
  ms_docs :: "(memory_doc_id, memory_doc) hmap"
  ms_relations :: "memory_relation list"

definition memory_search ::
  "(string \<Rightarrow> string) \<Rightarrow> instant \<Rightarrow> search_query \<Rightarrow> memory_store \<Rightarrow> memory_hit list" where
  "memory_search lower now q st =
     (let plan = memory_search_plan_new now q;
          q_lower = map_option lower (mp_text plan);
          found = filter (\<lambda>d. matches_doc plan d
              \<and> is_none_or (\<lambda>t. str_contains t (lower (md_body d))) q_lower) (hm_values (ms_docs st))
      in map (\<lambda>d. \<lparr>mh_id = md_id d, mh_body = md_body d, mh_score = f32_one,
              mh_cosine_similarity = None, mh_created_at = md_created_at d\<rparr>)
           (skip_take (mp_offset plan) (mp_limit plan) (sort_key ranking_key found)))"

section \<open>Documents\<close>

definition memory_put :: "memory_doc \<Rightarrow> memory_store \<Rightarrow> memory_store \<times> memory_doc_id" where
  "memory_put d st = (st\<lparr>ms_docs := AList.update (md_id d) d (ms_docs st)\<rparr>, md_id d)"

definition memory_get :: "memory_doc_id \<Rightarrow> memory_store \<Rightarrow> memory_doc option" where
  "memory_get i st = map_of (ms_docs st) i"

definition remove_doc :: "memory_doc_id \<Rightarrow> memory_store \<Rightarrow> memory_store \<times> bool" where
  "remove_doc i st = (st\<lparr>ms_docs := AList.delete i (ms_docs st)\<rparr>, hm_contains i (ms_docs st))"

definition cascade_relations :: "memory_doc_id \<Rightarrow> memory_store \<Rightarrow> memory_store" where
  "cascade_relations i st =
     st\<lparr>ms_relations := filter (\<lambda>e. mr_from e \<noteq> i \<and> mr_to e \<noteq> i) (ms_relations st)\<rparr>"

definition memory_delete :: "memory_doc_id \<Rightarrow> memory_store \<Rightarrow> memory_store \<times> bool" where
  "memory_delete i st = (case remove_doc i st of (st', removed) \<Rightarrow>
     (if removed then cascade_relations i st' else st', removed))"

definition memory_delete_scoped ::
  "memory_doc_id \<Rightarrow> memory_scope \<Rightarrow> memory_store \<Rightarrow> memory_store \<times> bool" where
  "memory_delete_scoped i scope st = (case map_of (ms_docs st) i of
       None \<Rightarrow> (st, False)
     | Some d \<Rightarrow>
         if \<not> query_matches (query_filter scope) (md_scope d) then (st, False)
         else (case remove_doc i st of (st', removed) \<Rightarrow>
           (if removed then cascade_relations i st' else st', removed)))"

definition edit_doc ::
  "memory_doc_id \<Rightarrow> (memory_doc \<Rightarrow> memory_doc) \<Rightarrow> memory_store \<Rightarrow> memory_store \<times> bool" where
  "edit_doc i f st =
     (if hm_contains i (ms_docs st) then (st\<lparr>ms_docs := hm_modify i f (ms_docs st)\<rparr>, True)
      else (st, False))"

definition memory_archive :: "memory_doc_id \<Rightarrow> instant \<Rightarrow> memory_store \<Rightarrow> memory_store \<times> bool" where
  "memory_archive i at_time st =
     edit_doc i (\<lambda>d. d\<lparr>md_archived_at := Some at_time, md_updated_at := at_time\<rparr>) st"

definition memory_unarchive :: "instant \<Rightarrow> memory_doc_id \<Rightarrow> memory_store \<Rightarrow> memory_store \<times> bool" where
  "memory_unarchive now i st = edit_doc i (\<lambda>d. d\<lparr>md_archived_at := None, md_updated_at := now\<rparr>) st"

definition memory_extend_expiry ::
  "instant \<Rightarrow> memory_doc_id \<Rightarrow> instant option \<Rightarrow> memory_store \<Rightarrow> memory_store \<times> bool" where
  "memory_extend_expiry now i expiry st =
     edit_doc i (\<lambda>d. d\<lparr>md_expires_at := expiry, md_updated_at := now\<rparr>) st"

definition update_body_with_embedding ::
  "instant \<Rightarrow> memory_doc_id \<Rightarrow> string \<Rightarrow> f32 list option \<Rightarrow> memory_store \<Rightarrow> memory_store \<times> bool" where
  "update_body_with_embedding now i body emb st =
     edit_doc i (\<lambda>d. d\<lparr>md_body := body, md_embedding := emb, md_updated_at := now\<rparr>) st"

definition update_body ::
  "instant \<Rightarrow> memory_doc_id \<Rightarrow> string \<Rightarrow> memory_store \<Rightarrow> memory_store \<times> bool" where
  "update_body now i body st = update_body_with_embedding now i body None st"

section \<open>Relations\<close>

definition natural_key_eq :: "memory_relation \<Rightarrow> memory_relation \<Rightarrow> bool" where
  "natural_key_eq l r \<longleftrightarrow> mr_from l = mr_from r \<and> mr_to l = mr_to r \<and> mr_type l = mr_type r
     \<and> sc_owner (mr_scope l) = sc_owner (mr_scope r)"

definition visibility :: "memory_scope \<Rightarrow> scope_query" where
  "visibility scope = (case sc_agent scope of
       None \<Rightarrow> query_filter scope
     | Some agent \<Rightarrow> widen_owner_to_shared agent (query_filter scope))"

definition both_docs_visible ::
  "memory_doc_id \<Rightarrow> memory_doc_id \<Rightarrow> memory_scope \<Rightarrow> memory_store \<Rightarrow> bool" where
  "both_docs_visible from_id to_id scope st =
     list_all (\<lambda>i. is_some_and (\<lambda>d. query_matches (visibility scope) (md_scope d)) (map_of (ms_docs st) i))
       [from_id, to_id]"

definition relation_insert :: "memory_relation \<Rightarrow> memory_store \<Rightarrow> memory_store \<times> relation_id" where
  "relation_insert r st = (case find (\<lambda>e. natural_key_eq e r) (ms_relations st) of
       Some e \<Rightarrow> (st, mr_id e)
     | None \<Rightarrow> (st\<lparr>ms_relations := ms_relations st @ [r]\<rparr>, mr_id r))"

definition relation_store ::
  "memory_relation \<Rightarrow> memory_store \<Rightarrow> memory_store \<times> (store_error + relation_id)" where
  "relation_store r st =
     (if \<not> both_docs_visible (mr_from r) (mr_to r) (mr_scope r) st then (st, Inl SE_NotFound)
      else let (st', i) = relation_insert r st in (st', Inr i))"

definition relation_delete ::
  "memory_doc_id \<Rightarrow> memory_doc_id \<Rightarrow> string \<Rightarrow> memory_scope \<Rightarrow> memory_store \<Rightarrow> memory_store \<times> bool" where
  "relation_delete from_id to_id rtype scope st =
     (let remaining = filter (\<lambda>e. \<not> (mr_from e = from_id \<and> mr_to e = to_id \<and> mr_type e = rtype
            \<and> sc_owner (mr_scope e) = sc_owner scope)) (ms_relations st)
      in (st\<lparr>ms_relations := remaining\<rparr>, length remaining \<noteq> length (ms_relations st)))"

definition relation_neighbors ::
  "memory_doc_id list \<Rightarrow> memory_scope \<Rightarrow> memory_store \<Rightarrow> memory_relation list" where
  "relation_neighbors ids scope st =
     filter (\<lambda>e. query_matches (visibility scope) (mr_scope e))
       (filter (\<lambda>e. List.member ids (mr_from e) \<or> List.member ids (mr_to e)) (ms_relations st))"

section \<open>The graph\<close>

definition natural_key :: "memory_relation \<Rightarrow> memory_doc_id \<times> memory_doc_id \<times> string \<times> owner option" where
  "natural_key e = (mr_from e, mr_to e, mr_type e, sc_owner (mr_scope e))"

lemma natural_key_eq_iff: "natural_key_eq l r \<longleftrightarrow> natural_key l = natural_key r"
  by (auto simp: natural_key_eq_def natural_key_def)

definition edge_stored :: "memory_store \<Rightarrow> memory_relation \<Rightarrow> bool" where
  "edge_stored st e \<longleftrightarrow> hm_contains (mr_from e) (ms_docs st) \<and> hm_contains (mr_to e) (ms_docs st)"

lemma edge_stored_relations [simp]: "edge_stored (st\<lparr>ms_relations := es\<rparr>) = edge_stored st"
  by (simp add: edge_stored_def fun_eq_iff)

definition memory_wf :: "memory_store \<Rightarrow> bool" where
  "memory_wf st \<longleftrightarrow> hm_wf (ms_docs st) \<and> list_all (edge_stored st) (ms_relations st)
     \<and> distinct (map natural_key (ms_relations st))"

datatype memory_op =
    MO_Put memory_doc
  | MO_Delete memory_doc_id
  | MO_Delete_Scoped memory_doc_id memory_scope
  | MO_Archive memory_doc_id instant
  | MO_Unarchive instant memory_doc_id
  | MO_Extend_Expiry instant memory_doc_id "instant option"
  | MO_Update_Body instant memory_doc_id string "f32 list option"
  | MO_Relate memory_relation
  | MO_Unrelate memory_doc_id memory_doc_id string memory_scope

fun memory_step :: "memory_op \<Rightarrow> memory_store \<Rightarrow> memory_store" where
  "memory_step (MO_Put d) st = fst (memory_put d st)"
| "memory_step (MO_Delete i) st = fst (memory_delete i st)"
| "memory_step (MO_Delete_Scoped i scope) st = fst (memory_delete_scoped i scope st)"
| "memory_step (MO_Archive i t) st = fst (memory_archive i t st)"
| "memory_step (MO_Unarchive now i) st = fst (memory_unarchive now i st)"
| "memory_step (MO_Extend_Expiry now i t) st = fst (memory_extend_expiry now i t st)"
| "memory_step (MO_Update_Body now i b emb) st = fst (update_body_with_embedding now i b emb st)"
| "memory_step (MO_Relate r) st = fst (relation_store r st)"
| "memory_step (MO_Unrelate f t ty scope) st = fst (relation_delete f t ty scope st)"

lemma memory_wf_docs:
  assumes "memory_wf st" "hm_wf docs" "\<And>i. hm_contains i (ms_docs st) \<Longrightarrow> hm_contains i docs"
  shows "memory_wf (st\<lparr>ms_docs := docs\<rparr>)"
  using assms by (auto simp: memory_wf_def edge_stored_def list_all_iff)

lemma edit_doc_wf: "memory_wf st \<Longrightarrow> memory_wf (fst (edit_doc i f st))"
  by (auto simp: edit_doc_def hm_contains_def hm_get_modify memory_wf_def edge_stored_def list_all_iff
      hm_wf_modify intro!: memory_wf_docs)

lemma distinct_map_filter_key: "distinct (map f xs) \<Longrightarrow> distinct (map f (filter P xs))"
  by (induction xs) auto

lemma delete_wf:
  assumes "memory_wf st"
  shows "memory_wf (case remove_doc i st of (st', removed) \<Rightarrow> if removed then cascade_relations i st' else st')"
proof -
  have "hm_contains j (AList.delete i (ms_docs st)) \<longleftrightarrow> j \<noteq> i \<and> hm_contains j (ms_docs st)" for j
    by (simp add: hm_contains_def hm_get_delete)
  with assms show ?thesis
    by (auto simp: memory_wf_def remove_doc_def cascade_relations_def edge_stored_def list_all_iff
        distinct_map_filter_key)
qed

lemma relation_store_wf:
  assumes "memory_wf st"
  shows "memory_wf (fst (relation_store r st))"
proof (cases "both_docs_visible (mr_from r) (mr_to r) (mr_scope r) st \<and>
    find (\<lambda>e. natural_key_eq e r) (ms_relations st) = None")
  case True
  then have "natural_key r \<notin> natural_key ` set (ms_relations st)" "edge_stored st r"
    by (auto simp: find_None_iff natural_key_eq_iff both_docs_visible_def is_some_and_def
        edge_stored_def hm_contains_def split: option.splits)
  with True assms show ?thesis
    by (auto simp: relation_store_def relation_insert_def memory_wf_def edge_stored_def)
next
  case False
  with assms show ?thesis
    by (auto simp: relation_store_def relation_insert_def split: option.splits)
qed

lemma memory_step_wf: "memory_wf st \<Longrightarrow> memory_wf (memory_step op st)"
proof (cases op)
  case (MO_Put d)
  assume wf: "memory_wf st"
  then have "hm_wf (ms_docs st)" by (simp add: memory_wf_def)
  with wf have "memory_wf (st\<lparr>ms_docs := AList.update (md_id d) d (ms_docs st)\<rparr>)"
    by (intro memory_wf_docs) (auto simp: hm_contains_def hm_get_update)
  then show ?thesis by (simp add: MO_Put memory_put_def)
next
  case (MO_Delete i)
  assume "memory_wf st"
  then show ?thesis
    using delete_wf [of st i] by (cases "remove_doc i st") (simp add: MO_Delete memory_delete_def)
next
  case (MO_Delete_Scoped i scope)
  assume "memory_wf st"
  then show ?thesis
    using delete_wf [of st i]
    by (cases "remove_doc i st") (simp add: MO_Delete_Scoped memory_delete_scoped_def split: option.split)
next
  case (MO_Unrelate f t ty scope)
  assume "memory_wf st"
  then show ?thesis
    by (auto simp: MO_Unrelate relation_delete_def Let_def memory_wf_def edge_stored_def list_all_iff
        distinct_map_filter_key)
qed (simp_all add: memory_archive_def memory_unarchive_def memory_extend_expiry_def
    update_body_with_embedding_def edit_doc_wf relation_store_wf)

text \<open>The relation graph stays sound. Over any sequence of complete operations from the empty
  store, every edge joins two stored documents (deleting one removes its edges), and no two edges
  have the same ends, label and owner.\<close>

theorem relation_graph_sound:
  "list_all (edge_stored (fold memory_step ops \<lparr>ms_docs = [], ms_relations = []\<rparr>))
     (ms_relations (fold memory_step ops \<lparr>ms_docs = [], ms_relations = []\<rparr>))
   \<and> distinct (map natural_key (ms_relations (fold memory_step ops \<lparr>ms_docs = [], ms_relations = []\<rparr>)))"
proof -
  have "memory_wf st \<Longrightarrow> memory_wf (fold memory_step ops st)" for st
    by (induction ops arbitrary: st) (auto intro: memory_step_wf)
  moreover have "memory_wf \<lparr>ms_docs = [], ms_relations = []\<rparr>" by (simp add: memory_wf_def)
  ultimately show ?thesis by (auto simp: memory_wf_def)
qed

text \<open>Not so when the two locks of one operation let another operation in between: an edge whose ends
  were checked before one of them was deleted is inserted after the edges of that document were
  removed.\<close>

lemma relation_race_leaves_dangling_edge:
  assumes "both_docs_visible (mr_from r) (mr_to r) (mr_scope r) st"
  shows "list_all (edge_stored (fst (relation_insert r (fst (memory_delete (mr_from r) st)))))
     (ms_relations (fst (relation_insert r (fst (memory_delete (mr_from r) st))))) = False"
proof -
  have st: "hm_contains (mr_from r) (ms_docs st)"
    using assms by (auto simp: both_docs_visible_def is_some_and_def hm_contains_def split: option.splits)
  define st' where "st' = fst (memory_delete (mr_from r) st)"
  have st': "st' = st\<lparr>ms_docs := AList.delete (mr_from r) (ms_docs st),
      ms_relations := filter (\<lambda>e. mr_from e \<noteq> mr_from r \<and> mr_to e \<noteq> mr_from r) (ms_relations st)\<rparr>"
    using st by (simp add: st'_def memory_delete_def remove_doc_def cascade_relations_def)
  then have "find (\<lambda>e. natural_key_eq e r) (ms_relations st') = None"
    by (auto simp: find_None_iff natural_key_eq_def)
  then have "fst (relation_insert r st') = st'\<lparr>ms_relations := ms_relations st' @ [r]\<rparr>"
    by (simp add: relation_insert_def)
  moreover have "\<not> hm_contains (mr_from r) (ms_docs st')"
    by (simp add: st' hm_contains_def hm_get_delete)
  ultimately show ?thesis by (simp add: edge_stored_def flip: st'_def)
qed

section \<open>Whose rows a caller reaches\<close>

definition own_or_shared :: "owner \<Rightarrow> string option \<Rightarrow> memory_scope \<Rightarrow> bool" where
  "own_or_shared ow agent row \<longleftrightarrow>
     sc_owner row = Some ow \<or> is_some_and (\<lambda>a. sc_owner row = Some a) agent"

lemma visibility_owner:
  "query_matches (visibility (scope\<lparr>sc_owner := Some ow\<rparr>)) row \<Longrightarrow>
     own_or_shared ow (sc_agent scope) row"
  by (auto simp: visibility_def own_or_shared_def widen_matches filter_matches split: option.splits)

lemma filter_owner:
  "query_matches (query_filter (scope\<lparr>sc_owner := Some ow\<rparr>)) row \<Longrightarrow> sc_owner row = Some ow"
  by (simp add: filter_matches)

lemma search_found:
  assumes "h \<in> set (memory_search lower now q st)"
  shows "\<exists>d\<in>set (hm_values (ms_docs st)). mh_id h = md_id d
    \<and> matches_doc (memory_search_plan_new now q) d"
  using assms unfolding memory_search_def Let_def by (auto dest!: set_skip_take [THEN subsetD])

text \<open>C11: a caller with an owner stays within the rows of that owner. A search returns only documents
  of the owner or, when shared rows were asked for, of the agent, none of them archived or expired
  unless asked for; edges read belong to the owner or the agent; an edge is stored only between
  documents of these two; a scoped delete removes only a document of the owner.\<close>

theorem memory_owner_isolation:
  "list_all (\<lambda>h. list_ex (\<lambda>d. md_id d = mh_id h
        \<and> own_or_shared ow (if sq_owner_match q = IncludingShared then sc_agent (sq_scope q) else None)
            (md_scope d)
        \<and> (sq_include_archived q \<or> md_archived_at d = None)
        \<and> (sq_include_expired q \<or> is_none_or (\<lambda>e. now < e) (md_expires_at d)))
      (hm_values (ms_docs st)))
    (memory_search lower now (q\<lparr>sq_scope := (sq_scope q)\<lparr>sc_owner := Some ow\<rparr>\<rparr>) st)
  \<and> list_all (\<lambda>e. own_or_shared ow (sc_agent scope) (mr_scope e))
      (relation_neighbors ids (scope\<lparr>sc_owner := Some ow\<rparr>) st)
  \<and> (case relation_store (r\<lparr>mr_scope := scope\<lparr>sc_owner := Some ow\<rparr>\<rparr>) st of
       (st', Inr i) \<Rightarrow> list_all (\<lambda>i. is_some_and (\<lambda>d. own_or_shared ow (sc_agent scope) (md_scope d))
           (memory_get i st)) [mr_from r, mr_to r]
     | (st', Inl e) \<Rightarrow> st' = st \<and> e = SE_NotFound)
  \<and> (case memory_delete_scoped i (scope\<lparr>sc_owner := Some ow\<rparr>) st of
       (st', True) \<Rightarrow> is_some_and (\<lambda>d. sc_owner (md_scope d) = Some ow) (memory_get i st)
     | (st', False) \<Rightarrow> st' = st)"
proof (intro conjI)
  let ?q = "q\<lparr>sq_scope := (sq_scope q)\<lparr>sc_owner := Some ow\<rparr>\<rparr>"
  show "list_all (\<lambda>h. list_ex (\<lambda>d. md_id d = mh_id h
        \<and> own_or_shared ow (if sq_owner_match q = IncludingShared then sc_agent (sq_scope q) else None)
            (md_scope d)
        \<and> (sq_include_archived q \<or> md_archived_at d = None)
        \<and> (sq_include_expired q \<or> is_none_or (\<lambda>e. now < e) (md_expires_at d)))
      (hm_values (ms_docs st))) (memory_search lower now ?q st)"
    unfolding list_all_iff
  proof
    fix h assume "h \<in> set (memory_search lower now ?q st)"
    then obtain d where d: "d \<in> set (hm_values (ms_docs st))" "mh_id h = md_id d"
      "matches_doc (memory_search_plan_new now ?q) d"
      using search_found by blast
    then have "query_matches (shared_scope ?q) (md_scope d)"
      "sq_include_archived q \<or> md_archived_at d = None"
      "sq_include_expired q \<or> is_none_or (\<lambda>e. now < e) (md_expires_at d)"
      by (auto simp: matches_doc_def memory_search_plan_new_def Let_def split: if_splits)
    moreover from this(1)
    have "own_or_shared ow (if sq_owner_match q = IncludingShared then sc_agent (sq_scope q) else None)
        (md_scope d)"
      by (auto dest!: shared_scope_owner [where ow = ow] simp: own_or_shared_def)
    ultimately show "list_ex (\<lambda>d. md_id d = mh_id h
        \<and> own_or_shared ow (if sq_owner_match q = IncludingShared then sc_agent (sq_scope q) else None)
            (md_scope d)
        \<and> (sq_include_archived q \<or> md_archived_at d = None)
        \<and> (sq_include_expired q \<or> is_none_or (\<lambda>e. now < e) (md_expires_at d)))
      (hm_values (ms_docs st))"
      using d(1,2) by (auto simp: list_ex_iff)
  qed
  show "list_all (\<lambda>e. own_or_shared ow (sc_agent scope) (mr_scope e))
      (relation_neighbors ids (scope\<lparr>sc_owner := Some ow\<rparr>) st)"
    by (auto simp: relation_neighbors_def list_all_iff intro: visibility_owner)
  show "case relation_store (r\<lparr>mr_scope := scope\<lparr>sc_owner := Some ow\<rparr>\<rparr>) st of
       (st', Inr i) \<Rightarrow> list_all (\<lambda>i. is_some_and (\<lambda>d. own_or_shared ow (sc_agent scope) (md_scope d))
           (memory_get i st)) [mr_from r, mr_to r]
     | (st', Inl e) \<Rightarrow> st' = st \<and> e = SE_NotFound"
    by (auto simp: relation_store_def both_docs_visible_def memory_get_def is_some_and_def
        split: prod.splits option.splits intro: visibility_owner)
  show "case memory_delete_scoped i (scope\<lparr>sc_owner := Some ow\<rparr>) st of
       (st', True) \<Rightarrow> is_some_and (\<lambda>d. sc_owner (md_scope d) = Some ow) (memory_get i st)
     | (st', False) \<Rightarrow> st' = st"
    by (auto simp: memory_delete_scoped_def memory_get_def remove_doc_def hm_contains_def
        split: option.splits dest: filter_owner)
qed

end
