(* ===== verification/Activity.thy ===== *)
theory Activity
  imports Run_State
begin

text \<open>
  What observers of background work are told of the events of a run: the bounded summaries of
  \<open>crabgent-core/src/activity.rs\<close>. Texts meant for the user keep a preview; arguments and outputs of
  tools, reasoning, messages and hosted blocks are reduced to sizes and shapes.
\<close>

section \<open>Summaries\<close>

definition activity_text_preview_bytes :: nat where
  "activity_text_preview_bytes = 160"

record activity_text_summary =
  ats_bytes :: nat
  ats_preview :: "string option"
  ats_truncated :: bool

definition with_preview :: "string \<Rightarrow> activity_text_summary" where
  "with_preview t =
     \<lparr>ats_bytes = length t,
      ats_preview = Some (truncate_with_ellipsis t activity_text_preview_bytes ''...''),
      ats_truncated = activity_text_preview_bytes < length t\<rparr>"

definition redacted :: "string \<Rightarrow> activity_text_summary" where
  "redacted t = \<lparr>ats_bytes = length t, ats_preview = None, ats_truncated = False\<rparr>"

datatype json_value_kind = JK_Null | JK_Bool | JK_Number | JK_String | JK_Array | JK_Object

record json_shape_summary =
  jss_kind :: json_value_kind
  jss_bytes :: nat
  jss_array_len :: "nat option"
  jss_object_len :: "nat option"

definition json_kind :: "json \<Rightarrow> json_value_kind" where
  "json_kind v = (case v of
       JNull \<Rightarrow> JK_Null | JBool _ \<Rightarrow> JK_Bool | JNum _ \<Rightarrow> JK_Number | JStr _ \<Rightarrow> JK_String
     | JArr _ \<Rightarrow> JK_Array | JObj _ \<Rightarrow> JK_Object)"

fun json_approx_bytes :: "json \<Rightarrow> nat" where
  "json_approx_bytes JNull = 4"
| "json_approx_bytes (JBool b) = (if b then 4 else 5)"
| "json_approx_bytes (JNum n) = length n"
| "json_approx_bytes (JStr s) = length s"
| "json_approx_bytes (JArr vs) = 2 + (length vs - 1) + sum_list (map json_approx_bytes vs)"
| "json_approx_bytes (JObj kvs) =
     2 + (length kvs - 1) + sum_list (map (\<lambda>(k, v). length k + 1 + json_approx_bytes v) kvs)"

definition json_shape_from_value :: "json \<Rightarrow> json_shape_summary" where
  "json_shape_from_value v =
     \<lparr>jss_kind = json_kind v, jss_bytes = json_approx_bytes v,
      jss_array_len = (case v of JArr vs \<Rightarrow> Some (length vs) | _ \<Rightarrow> None),
      jss_object_len = (case v of JObj kvs \<Rightarrow> Some (length kvs) | _ \<Rightarrow> None)\<rparr>"

record tool_call_activity_summary =
  tcs_call_id :: string
  tcs_tool_name :: string
  tcs_args :: json_shape_summary
  tcs_has_thought_signature :: bool

definition tool_call_summary :: "tool_call \<Rightarrow> tool_call_activity_summary" where
  "tool_call_summary c =
     \<lparr>tcs_call_id = tc_id c, tcs_tool_name = tc_name c, tcs_args = json_shape_from_value (tc_args c),
      tcs_has_thought_signature = (tc_thought_signature c \<noteq> None)\<rparr>"

definition message_kind :: "message \<Rightarrow> string" where
  "message_kind m = (case m of
       System _ \<Rightarrow> ''system'' | User _ _ \<Rightarrow> ''user'' | Assistant _ _ \<Rightarrow> ''assistant''
     | ToolResult _ _ _ \<Rightarrow> ''tool_result'' | ChannelOutbound _ _ _ _ _ _ \<Rightarrow> ''channel_outbound''
     | ProviderBlock _ _ \<Rightarrow> ''provider_block'')"

definition run_message_kinds :: "message list \<Rightarrow> string list" where
  "run_message_kinds ms = map message_kind ms"

definition channel_outbound_count :: "message list \<Rightarrow> nat" where
  "channel_outbound_count ms =
     length (filter (\<lambda>m. case m of ChannelOutbound _ _ _ _ _ _ \<Rightarrow> True | _ \<Rightarrow> False) ms)"

record tool_call_result_activity_summary =
  trs_call_id :: string
  trs_tool_name :: string
  trs_is_error :: bool
  trs_output :: json_shape_summary
  trs_run_message_count :: nat
  trs_run_message_kinds :: "string list"
  trs_channel_outbound_count :: nat

definition from_call_result :: "tool_call \<Rightarrow> tool_result \<Rightarrow> tool_call_result_activity_summary" where
  "from_call_result c r =
     \<lparr>trs_call_id = tc_id c, trs_tool_name = tc_name c, trs_is_error = tr_is_error r,
      trs_output = json_shape_from_value (tr_output r),
      trs_run_message_count = length (tr_run_messages r),
      trs_run_message_kinds = run_message_kinds (tr_run_messages r),
      trs_channel_outbound_count = channel_outbound_count (tr_run_messages r)\<rparr>"

record notification_activity_summary =
  nts_kind :: string
  nts_level :: notification_level
  nts_message :: activity_text_summary

definition notification_summary :: "notification \<Rightarrow> notification_activity_summary" where
  "notification_summary n =
     \<lparr>nts_kind = nt_kind n, nts_level = nt_level n, nts_message = redacted (nt_message n)\<rparr>"

record server_tool_result_activity_summary =
  sts_provider :: string
  sts_name :: string
  sts_citation_count :: nat
  sts_raw :: json_shape_summary

record attempt_failed_activity_summary =
  afs_attempt_idx :: nat
  afs_total_attempts :: nat
  afs_provider :: string
  afs_model :: string
  afs_error_class :: attempt_error_class
  afs_message :: activity_text_summary
  afs_will_fallback :: bool

datatype activity_event_summary =
    AS_OutputDelta activity_text_summary
  | AS_ReasoningDelta activity_text_summary
  | AS_ToolCallStarted tool_call_activity_summary
  | AS_ToolCallCompleted tool_call_result_activity_summary
  | AS_Notification notification_activity_summary
  | AS_ServerToolResult server_tool_result_activity_summary
  | AS_AttemptFailed attempt_failed_activity_summary
  | AS_Final activity_text_summary

definition summary_from_event :: "event \<Rightarrow> activity_event_summary" where
  "summary_from_event e = (case e of
       Token t \<Rightarrow> AS_OutputDelta (with_preview t)
     | Reasoning t \<Rightarrow> AS_ReasoningDelta (redacted t)
     | ToolCallStarted c \<Rightarrow> AS_ToolCallStarted (tool_call_summary c)
     | ToolCallCompleted c r \<Rightarrow> AS_ToolCallCompleted (from_call_result c r)
     | Notification n \<Rightarrow> AS_Notification (notification_summary n)
     | ServerToolResult p name citations raw \<Rightarrow> AS_ServerToolResult
         \<lparr>sts_provider = p, sts_name = name, sts_citation_count = length citations,
          sts_raw = json_shape_from_value raw\<rparr>
     | AttemptFailed idx n p m cls msg fb \<Rightarrow> AS_AttemptFailed
         \<lparr>afs_attempt_idx = idx, afs_total_attempts = n, afs_provider = p, afs_model = m,
          afs_error_class = cls, afs_message = redacted msg, afs_will_fallback = fb\<rparr>
     | Final t \<Rightarrow> AS_Final (with_preview t))"

section \<open>What a summary cannot carry\<close>

text \<open>The event with every private text blanked: reasoning, arguments, outputs, messages and hosted
  blocks keep only their sizes, numbers and keys of objects included.\<close>

definition blank :: "string \<Rightarrow> string" where
  "blank s = replicate (length s) CHR ''*''"

fun blank_json :: "json \<Rightarrow> json" where
  "blank_json (JNum n) = JNum (blank n)"
| "blank_json (JStr s) = JStr (blank s)"
| "blank_json (JArr vs) = JArr (map blank_json vs)"
| "blank_json (JObj kvs) = JObj (map (\<lambda>(k, v). (blank k, blank_json v)) kvs)"
| "blank_json v = v"

definition blank_message :: "message \<Rightarrow> message" where
  "blank_message m = (case m of
       System _ \<Rightarrow> System [] | User _ _ \<Rightarrow> User [] None | Assistant _ _ \<Rightarrow> Assistant [] []
     | ToolResult _ _ _ \<Rightarrow> ToolResult [] JNull False
     | ChannelOutbound _ _ _ _ _ _ \<Rightarrow> ChannelOutbound [] [] [] [] None False
     | ProviderBlock _ _ \<Rightarrow> ProviderBlock [] JNull)"

definition blank_call :: "tool_call \<Rightarrow> tool_call" where
  "blank_call c = c\<lparr>tc_args := blank_json (tc_args c),
     tc_thought_signature := map_option (\<lambda>_. []) (tc_thought_signature c)\<rparr>"

definition blank_result :: "tool_result \<Rightarrow> tool_result" where
  "blank_result r = r\<lparr>tr_call_id := [], tr_output := blank_json (tr_output r),
     tr_run_messages := map blank_message (tr_run_messages r)\<rparr>"

definition no_citation :: citation where
  "no_citation = \<lparr>cit_url = [], cit_title = None, cit_cited_text = None, cit_provider = [],
     cit_raw = JNull\<rparr>"

definition blank_event :: "event \<Rightarrow> event" where
  "blank_event e = (case e of
       Reasoning t \<Rightarrow> Reasoning (blank t)
     | ToolCallStarted c \<Rightarrow> ToolCallStarted (blank_call c)
     | ToolCallCompleted c r \<Rightarrow> ToolCallCompleted (blank_call c) (blank_result r)
     | Notification n \<Rightarrow> Notification (n\<lparr>nt_message := blank (nt_message n)\<rparr>)
     | ServerToolResult p name citations raw \<Rightarrow>
         ServerToolResult p name (map (\<lambda>_. no_citation) citations) (blank_json raw)
     | AttemptFailed idx n p m cls msg fb \<Rightarrow> AttemptFailed idx n p m cls (blank msg) fb
     | _ \<Rightarrow> e)"

lemma length_blank [simp]: "length (blank s) = length s"
  by (simp add: blank_def)

lemma redacted_blank [simp]: "redacted (blank s) = redacted s"
  by (simp add: redacted_def)

lemma approx_bytes_blank [simp]: "json_approx_bytes (blank_json v) = json_approx_bytes v"
proof (induction v rule: blank_json.induct)
  case (3 vs)
  then have "map (json_approx_bytes \<circ> blank_json) vs = map json_approx_bytes vs" by simp
  then show ?case by (simp del: map_eq_conv)
next
  case (4 kvs)
  then have "map (\<lambda>(k, v). length k + 1 + json_approx_bytes v) (map (\<lambda>(k, v). (blank k, blank_json v)) kvs)
      = map (\<lambda>(k, v). length k + 1 + json_approx_bytes v) kvs" by auto
  then show ?case by (simp only: blank_json.simps json_approx_bytes.simps length_map)
qed simp_all

lemma shape_blank [simp]: "json_shape_from_value (blank_json v) = json_shape_from_value v"
proof -
  have "json_kind (blank_json v) = json_kind v"
    "(case blank_json v of JArr vs \<Rightarrow> Some (length vs) | _ \<Rightarrow> None)
       = (case v of JArr vs \<Rightarrow> Some (length vs) | _ \<Rightarrow> None)"
    "(case blank_json v of JObj kvs \<Rightarrow> Some (length kvs) | _ \<Rightarrow> None)
       = (case v of JObj kvs \<Rightarrow> Some (length kvs) | _ \<Rightarrow> None)"
    by (cases v; simp add: json_kind_def)+
  then show ?thesis by (simp add: json_shape_from_value_def)
qed

lemma call_summary_blank [simp]: "tool_call_summary (blank_call c) = tool_call_summary c"
  by (simp add: tool_call_summary_def blank_call_def)

lemma kind_blank [simp]:
  "message_kind (blank_message m) = message_kind m"
  "(case blank_message m of ChannelOutbound _ _ _ _ _ _ \<Rightarrow> True | _ \<Rightarrow> False)
     = (case m of ChannelOutbound _ _ _ _ _ _ \<Rightarrow> True | _ \<Rightarrow> False)"
  by (cases m; simp add: blank_message_def message_kind_def)+

lemma from_call_result_blank [simp]:
  "from_call_result (blank_call c) (blank_result r) = from_call_result c r"
  by (simp add: from_call_result_def blank_call_def blank_result_def run_message_kinds_def
      channel_outbound_count_def filter_map o_def)

text \<open>C18: observers of background work learn nothing but sizes of what is private. The summary of an
  event is that of the event with reasoning, tool arguments and outputs, run messages, notification
  and error texts, citations and hosted blocks blanked; and a preview of visible text never exceeds
  its 160 bytes.\<close>

theorem summary_carries_sizes_only:
  "summary_from_event (blank_event e) = summary_from_event e
   \<and> (case summary_from_event e of
        AS_OutputDelta s \<Rightarrow> is_some_and (\<lambda>p. length p \<le> 160) (ats_preview s)
      | AS_Final s \<Rightarrow> is_some_and (\<lambda>p. length p \<le> 160) (ats_preview s)
      | _ \<Rightarrow> True)"
proof
  show "summary_from_event (blank_event e) = summary_from_event e"
    by (cases e) (simp_all add: summary_from_event_def blank_event_def notification_summary_def)
  have "length (truncate_with_ellipsis t 160 ''...'') \<le> 160" for t
    using truncate_with_ellipsis_bound [of t 160 "''...''"] by simp
  then show "case summary_from_event e of
        AS_OutputDelta s \<Rightarrow> is_some_and (\<lambda>p. length p \<le> 160) (ats_preview s)
      | AS_Final s \<Rightarrow> is_some_and (\<lambda>p. length p \<le> 160) (ats_preview s)
      | _ \<Rightarrow> True"
    by (cases e) (simp_all add: summary_from_event_def with_preview_def is_some_and_def
        activity_text_preview_bytes_def)
qed

end
