(* ===== verification/Task_Drain.thy ===== *)
theory Task_Drain
  imports Activity Hooks Task_Store
begin

text \<open>
  Background tasks at work, first half: how a run is drained into its row (\<open>crabgent-task/src/drain.rs\<close>,
  \<open>executor/drain_timeout.rs\<close>), which verdict its end gets (\<open>executor/spawn.rs\<close>), and the hook that keeps
  its transcript (\<open>hook.rs\<close>). The store is a record of operations, as in the code; \<open>task_contract\<close> says
  what the lemmas need of it, and the in-memory store provides it.

  What other tasks, users and the kernel do while an operation awaits enters as functions on the
  world: each item of the stream of a run comes with the change of the world that precedes it, and
  observers are such functions. How a \<open>select!\<close> over time ends is an argument. Log output is left out.
\<close>

section \<open>The store trait\<close>

record 'w task_api =
  tx_insert :: "task \<Rightarrow> ('w, store_error, unit) store_op"
  tx_get :: "task_id \<Rightarrow> ('w, store_error, task option) store_op"
  tx_append :: "task_id \<Rightarrow> string \<Rightarrow> ('w, store_error, unit) store_op"
  tx_finish :: "task_id \<Rightarrow> task_status \<Rightarrow> string option \<Rightarrow> ('w, store_error, unit) store_op"
  tx_pause :: "task_id \<Rightarrow> pause_cause \<Rightarrow> ('w, store_error, bool) store_op"
  tx_claim :: "task_id \<Rightarrow> 32 word \<Rightarrow> ('w, store_error, bool) store_op"
  tx_list_paused :: "page \<Rightarrow> ('w, store_error, task list) store_op"
  tx_orphans :: "int \<Rightarrow> ('w, store_error, task_id list) store_op"
  tx_children :: "task_id \<Rightarrow> page \<Rightarrow> ('w, store_error, task list) store_op"
  tx_save :: "task_id \<Rightarrow> message list \<Rightarrow> ('w, store_error, unit) store_op"
  tx_load :: "task_id \<Rightarrow> ('w, store_error, message list option) store_op"
  tx_now :: "'w \<Rightarrow> 'w \<times> instant"
  tx_new_id :: "'w \<Rightarrow> 'w \<times> task_id"

section \<open>Draining a run into its row\<close>

record drain_outcome =
  dr_final :: "string option"
  dr_error :: "string option"
  dr_paused :: bool

record activity_meta =
  am_task_id :: task_id
  am_owner :: owner
  am_name :: "activity_text_summary option"
  am_prompt :: activity_text_summary
  am_status :: task_status
  am_run_id :: string
  am_created_at :: instant
  am_updated_at :: instant
  am_finished_at :: "instant option"
  am_duration :: "int option"
  am_parent_session_id :: "string option"
  am_parent_task_id :: "task_id option"
  am_context_mode :: "string option"
  am_prompt_bytes :: nat
  am_reasoning_effort :: "reasoning_effort option"

text \<open>\<open>Duration::to_std\<close> rejects negative spans.\<close>

definition std_duration :: "int \<Rightarrow> int option" where
  "std_duration d = (if d < 0 then None else Some d)"

definition task_duration :: "task \<Rightarrow> int option" where
  "task_duration t = Option.bind (tk_finished_at t) (\<lambda>f. std_duration (f - tk_created_at t))"

definition meta_from_task :: "task \<Rightarrow> string \<Rightarrow> activity_meta" where
  "meta_from_task t run_id =
     \<lparr>am_task_id = tk_id t, am_owner = tk_owner t, am_name = map_option with_preview (tk_name t),
      am_prompt = with_preview (tk_prompt t), am_status = tk_status t, am_run_id = run_id,
      am_created_at = tk_created_at t, am_updated_at = tk_updated_at t,
      am_finished_at = tk_finished_at t, am_duration = task_duration t,
      am_parent_session_id = tk_parent_session_id t, am_parent_task_id = tk_parent_task_id t,
      am_context_mode = tk_context_mode t, am_prompt_bytes = length (tk_prompt t),
      am_reasoning_effort = tk_reasoning_effort_override t\<rparr>"

definition meta_with_status :: "task_status \<Rightarrow> instant option \<Rightarrow> instant \<Rightarrow> activity_meta \<Rightarrow> activity_meta" where
  "meta_with_status st finished now m =
     m\<lparr>am_status := st, am_finished_at := finished,
       am_duration := Option.bind finished (\<lambda>f. std_duration (f - am_created_at m)),
       am_updated_at := unwrap_or now finished\<rparr>"

datatype task_activity_kind =
    TA_Started
  | TA_Kernel activity_event_summary
  | TA_Completed
  | TA_Failed activity_text_summary
  | TA_Cancelled
  | TA_TimedOut
  | TA_Paused pause_cause

record 'w drain_env =
  de_api :: "'w task_api"
  de_observers :: "(activity_meta \<Rightarrow> task_activity_kind \<Rightarrow> 'w \<Rightarrow> 'w) list"
  de_meta :: activity_meta
  de_bytes :: nat
  de_debounce :: int

definition notify_observers ::
  "(activity_meta \<Rightarrow> task_activity_kind \<Rightarrow> 'w \<Rightarrow> 'w) list \<Rightarrow> activity_meta \<Rightarrow> task_activity_kind
   \<Rightarrow> 'w \<Rightarrow> 'w" where
  "notify_observers obs meta kind w = fold (\<lambda>ob. ob meta kind) obs w"

definition observe_event :: "'w drain_env \<Rightarrow> event \<Rightarrow> 'w \<Rightarrow> 'w" where
  "observe_event env ev w =
     notify_observers (de_observers env) (de_meta env) (TA_Kernel (summary_from_event ev)) w"

definition should_flush :: "'w drain_env \<Rightarrow> string \<Rightarrow> instant \<Rightarrow> 'w \<Rightarrow> 'w \<times> bool" where
  "should_flush env buffer last_flush w =
     (if de_bytes env \<le> length buffer then (w, True)
      else (case tx_now (de_api env) w of (w', now) \<Rightarrow>
        (w', de_debounce env \<le> max 0 (now - last_flush))))"

definition flush_output ::
  "'w drain_env \<Rightarrow> task_id \<Rightarrow> string \<Rightarrow> instant \<Rightarrow> 'w \<Rightarrow> 'w \<times> string \<times> instant" where
  "flush_output env i buffer last_flush w =
     (if buffer = [] then (w, buffer, last_flush)
      else (case tx_append (de_api env) i buffer w of
          (w', Inl _) \<Rightarrow> (w', buffer, last_flush)
        | (w', Inr _) \<Rightarrow> (case tx_now (de_api env) w' of (w'', now) \<Rightarrow> (w'', [], now))))"

text \<open>The items of the stream up to the one that ends the loop. The outcome is missing while the
  stream may still yield.\<close>

fun drain_items ::
  "'w drain_env \<Rightarrow> task_id \<Rightarrow> (('w \<Rightarrow> 'w) \<times> stream_item) list \<Rightarrow> string \<Rightarrow> instant \<Rightarrow> 'w
   \<Rightarrow> 'w \<times> string \<times> instant \<times> drain_outcome option" where
  "drain_items env i [] buffer last_flush w = (w, buffer, last_flush, None)"
| "drain_items env i ((change, it) # items) buffer last_flush w =
     (let w1 = change w in
      case it of
        Inr (Token t) \<Rightarrow>
          (let w2 = observe_event env (Token t) w1;
               (w3, full) = should_flush env (buffer @ t) last_flush w2;
               (w4, buffer', last') =
                 (if full then flush_output env i (buffer @ t) last_flush w3
                  else (w3, buffer @ t, last_flush))
           in drain_items env i items buffer' last' w4)
      | Inr (Final t) \<Rightarrow>
          (observe_event env (Final t) w1, buffer, last_flush,
           Some \<lparr>dr_final = Some t, dr_error = None, dr_paused = False\<rparr>)
      | Inr ev \<Rightarrow>
          drain_items env i items buffer last_flush
            (observe_event env ev w1)
      | Inl KE_Paused \<Rightarrow>
          (w1, buffer, last_flush, Some \<lparr>dr_final = None, dr_error = None, dr_paused = True\<rparr>)
      | Inl e \<Rightarrow>
          (w1, buffer, last_flush,
           Some \<lparr>dr_final = None, dr_error = Some (show_kernel_error e), dr_paused = False\<rparr>))"

definition stream_closed :: drain_outcome where
  "stream_closed = \<lparr>dr_final = None, dr_error = None, dr_paused = False\<rparr>"

definition drain_rest ::
  "'w drain_env \<Rightarrow> task_id \<Rightarrow> (('w \<Rightarrow> 'w) \<times> stream_item) list \<Rightarrow> string \<Rightarrow> instant \<Rightarrow> 'w
   \<Rightarrow> 'w \<times> drain_outcome" where
  "drain_rest env i items buffer last_flush w =
     (case drain_items env i items buffer last_flush w of (w1, buffer', last', oc) \<Rightarrow>
        (fst (flush_output env i buffer' last' w1), unwrap_or stream_closed oc))"

definition drain_stream_inner ::
  "'w drain_env \<Rightarrow> task_id \<Rightarrow> (('w \<Rightarrow> 'w) \<times> stream_item) list \<Rightarrow> 'w \<Rightarrow> 'w \<times> drain_outcome" where
  "drain_stream_inner env i items w =
     (case tx_now (de_api env) w of (w0, now) \<Rightarrow> drain_rest env i items [] now w0)"

section \<open>Timeouts and cancellation\<close>

definition cancelled_message :: string where "cancelled_message = ''task cancelled''"
definition timeout_message :: string where "timeout_message = ''task timed out''"
definition resume_limit_message :: string where "resume_limit_message = ''resume limit exceeded''"
definition no_final_event_message :: string where
  "no_final_event_message = ''run ended without final event''"

definition cancelled_outcome :: drain_outcome where
  "cancelled_outcome = \<lparr>dr_final = None, dr_error = Some cancelled_message, dr_paused = False\<rparr>"

definition timeout_outcome :: drain_outcome where
  "timeout_outcome = \<lparr>dr_final = None, dr_error = Some timeout_message, dr_paused = False\<rparr>"

definition normalize_after_cancel :: "drain_outcome \<Rightarrow> drain_outcome" where
  "normalize_after_cancel oc =
     (if dr_paused oc \<or> (dr_error oc = None \<and> dr_final oc \<noteq> None) then oc else cancelled_outcome)"

definition finish_drain_after_run :: "bool \<Rightarrow> drain_outcome \<Rightarrow> drain_outcome" where
  "finish_drain_after_run cancelled oc = (if cancelled then normalize_after_cancel oc else oc)"

text \<open>How the biased \<open>select!\<close> ends: the drain completes (and the token has fired or not), the token
  is seen fired first, or the time is up after some items. In the last two the drain is awaited once
  more for the grace; a number says after how many further items it is dropped, losing its buffer.\<close>

datatype drain_end = Drained bool | Cancel_Seen "nat option" | Timed_Out nat "nat option"

definition run_drain_with_timeout ::
  "'w drain_env \<Rightarrow> task_id \<Rightarrow> ('w \<Rightarrow> 'w) \<Rightarrow> (('w \<Rightarrow> 'w) \<times> stream_item) list \<Rightarrow> drain_end \<Rightarrow> 'w
   \<Rightarrow> 'w \<times> drain_outcome" where
  "run_drain_with_timeout env i fire_cancel items ending w = (case ending of
       Drained cancelled \<Rightarrow>
         (case drain_stream_inner env i items w of (w', oc) \<Rightarrow>
            (w', finish_drain_after_run cancelled oc))
     | Cancel_Seen None \<Rightarrow>
         (case drain_stream_inner env i items w of (w', oc) \<Rightarrow> (w', normalize_after_cancel oc))
     | Cancel_Seen (Some k) \<Rightarrow>
         (case tx_now (de_api env) w of (w0, now) \<Rightarrow>
            (fst (drain_items env i (take k items) [] now w0), cancelled_outcome))
     | Timed_Out m grace \<Rightarrow>
         (case tx_now (de_api env) w of (w0, now) \<Rightarrow>
            (case drain_items env i (take m items) [] now w0 of (w1, buffer, last_flush, _) \<Rightarrow>
               (case grace of
                  None \<Rightarrow> fst (drain_rest env i (drop m items) buffer last_flush (fire_cancel w1))
                | Some k \<Rightarrow>
                    fst (drain_items env i (take k (drop m items)) buffer last_flush (fire_cancel w1)),
                timeout_outcome))))"

datatype task_final = TF_Done | TF_Failed string | TF_Paused pause_cause

definition classify_outcome :: "drain_outcome \<Rightarrow> bool \<Rightarrow> cancel_reason option \<Rightarrow> task_final" where
  "classify_outcome oc pause_requested reason =
     (if dr_paused oc then
        (if reason = Some StopPattern then TF_Failed cancelled_message
         else TF_Paused Task_Store.Shutdown)
      else (case dr_error oc of
          Some e \<Rightarrow>
            if e = timeout_message then TF_Failed e
            else if e = cancelled_message \<and> pause_requested \<and> reason \<noteq> Some StopPattern
            then TF_Paused Forced
            else TF_Failed e
        | None \<Rightarrow> if dr_final oc = None then TF_Failed no_final_event_message else TF_Done))"

section \<open>Keeping the transcript\<close>

text \<open>The hook that saves the transcript of task runs after each message. \<open>parse\<close> is \<open>TaskId::from_str\<close>,
  the \<open>uuid\<close> crate's.\<close>

definition task_id_attr :: string where "task_id_attr = ''parent_task_id''"

definition is_assistant :: "message \<Rightarrow> bool" where
  "is_assistant m \<longleftrightarrow> (case m of Assistant _ _ \<Rightarrow> True | _ \<Rightarrow> False)"

definition should_persist :: "message list \<Rightarrow> bool" where
  "should_persist ms \<longleftrightarrow> ms \<noteq> [] \<and>
     (case last ms of Assistant _ _ \<Rightarrow> True | ToolResult _ _ _ \<Rightarrow> True
      | _ \<Rightarrow> \<not> list_ex is_assistant ms)"

definition transcript_on_message ::
  "'w task_api \<Rightarrow> (string \<Rightarrow> task_id option) \<Rightarrow> message list \<Rightarrow> run_ctx
   \<Rightarrow> ('w, message list decision) call" where
  "transcript_on_message api parse ms ctx w =
     (case attr (cx_subject ctx) task_id_attr of
        None \<Rightarrow> w
      | Some raw \<Rightarrow>
          if \<not> should_persist ms then w
          else (case parse raw of None \<Rightarrow> w | Some i \<Rightarrow> fst (tx_save api i ms w)), [], Some Continue)"

definition task_transcript_hook ::
  "'w task_api \<Rightarrow> (string \<Rightarrow> task_id option) \<Rightarrow> 'w hook" where
  "task_transcript_hook api parse =
     default_hook\<lparr>hk_on_message := transcript_on_message api parse\<rparr>"

section \<open>What is needed of the store\<close>

locale task_contract =
  fixes api :: "'w task_api"
    and inv :: "'w \<Rightarrow> bool"
    and row :: "'w \<Rightarrow> task_id \<Rightarrow> task option"
    and transcript :: "'w \<Rightarrow> task_id \<Rightarrow> message list option"
  assumes now_keeps: "inv w \<Longrightarrow> inv (fst (tx_now api w)) \<and> row (fst (tx_now api w)) = row w
      \<and> transcript (fst (tx_now api w)) = transcript w"
    and get_reads: "inv w \<Longrightarrow> inv (fst (tx_get api i w)) \<and> row (fst (tx_get api i w)) = row w
      \<and> transcript (fst (tx_get api i w)) = transcript w \<and> snd (tx_get api i w) = Inr (row w i)"
    and append_writes: "inv w \<Longrightarrow> inv (fst (tx_append api i c w)) \<and> snd (tx_append api i c w) = Inr ()
      \<and> (\<exists>now. row (fst (tx_append api i c w)) = (row w)(i := map_option
           (\<lambda>t. t\<lparr>tk_output := tk_output t @ c, tk_updated_at := now\<rparr>) (row w i)))"
    and finish_writes: "inv w \<Longrightarrow> st \<noteq> Running \<Longrightarrow> st \<noteq> Task_Store.Paused \<Longrightarrow>
      inv (fst (tx_finish api i st err w)) \<and> (\<exists>now. row (fst (tx_finish api i st err w))
        = (row w)(i := map_option (finish_task now st err) (row w i)))"
    and pause_writes: "inv w \<Longrightarrow> inv (fst (tx_pause api i cause w))
      \<and> (\<exists>now. row (fst (tx_pause api i cause w)) = (row w)(i := map_option
           (\<lambda>t. if tk_status t = Running then pause_task now cause t else t) (row w i)))"
begin

text \<open>Changes of the world made by others are harmless to a row if they leave its column alone.\<close>

definition harmless :: "(task \<Rightarrow> 'c) \<Rightarrow> task_id \<Rightarrow> ('w \<Rightarrow> 'w) \<Rightarrow> bool" where
  "harmless column i f \<longleftrightarrow>
     (\<forall>w. inv w \<longrightarrow> inv (f w) \<and> map_option column (row (f w) i) = map_option column (row w i))"

lemma harmlessD:
  "harmless column i f \<Longrightarrow> inv w \<Longrightarrow> inv (f w)"
  "harmless column i f \<Longrightarrow> inv w \<Longrightarrow> map_option column (row (f w) i) = map_option column (row w i)"
  by (simp_all add: harmless_def)

lemma harmless_fold:
  "list_all (\<lambda>x. harmless column i (g x)) xs \<Longrightarrow> inv w \<Longrightarrow>
     inv (fold g xs w) \<and> map_option column (row (fold g xs w) i) = map_option column (row w i)"
proof (induction xs arbitrary: w)
  case (Cons x xs)
  then show ?case using harmlessD [of column i "g x" w] by simp
qed simp

definition out_of :: "task_id \<Rightarrow> 'w \<Rightarrow> string option" where
  "out_of i w = map_option tk_output (row w i)"

definition drains :: "'w drain_env \<Rightarrow> task_id \<Rightarrow> bool" where
  "drains env i \<longleftrightarrow> de_api env = api
     \<and> (\<forall>meta kind. list_all (\<lambda>ob. harmless tk_output i (ob meta kind)) (de_observers env))"

lemma observe_output:
  assumes "drains env i" "inv w"
  shows "inv (observe_event env ev w)" "out_of i (observe_event env ev w) = out_of i w"
  using harmless_fold [of tk_output i "\<lambda>ob. ob (de_meta env) (TA_Kernel (summary_from_event ev))"
      "de_observers env" w] assms
  by (simp_all add: observe_event_def notify_observers_def drains_def out_of_def)

lemma flush_appends:
  assumes "drains env i" "inv w" "out_of i w = Some out"
    and "flush_output env i buffer t0 w = (w', buffer', t1)"
  shows "inv w'" "out_of i w' = Some (out @ buffer)" "buffer' = []"
proof -
  have api: "de_api env = api" using assms(1) by (simp add: drains_def)
  from append_writes [OF assms(2), of i buffer] obtain now where
    a: "inv (fst (tx_append api i buffer w))" "snd (tx_append api i buffer w) = Inr ()"
      "row (fst (tx_append api i buffer w)) = (row w)(i := map_option
           (\<lambda>t. t\<lparr>tk_output := tk_output t @ buffer, tk_updated_at := now\<rparr>) (row w i))" by blast
  from now_keeps [OF a(1)] a assms(3,4) show "inv w'" "out_of i w' = Some (out @ buffer)" "buffer' = []"
    using assms(2) by (auto simp: flush_output_def api out_of_def split: if_splits prod.splits sum.splits)
qed

lemma should_flush_output:
  assumes "drains env i" "inv w" "should_flush env buffer t0 w = (w', full)"
  shows "inv w'" "out_of i w' = out_of i w"
  using assms now_keeps [OF assms(2)]
  by (auto simp: should_flush_def drains_def out_of_def split: if_splits prod.splits)

end

text \<open>The text a stream hands over before it ends.\<close>

fun streamed_text :: "stream_item list \<Rightarrow> string" where
  "streamed_text [] = []"
| "streamed_text (Inr (Token t) # items) = t @ streamed_text items"
| "streamed_text (Inr (Final t) # items) = []"
| "streamed_text (Inr ev # items) = streamed_text items"
| "streamed_text (Inl e # items) = []"

fun stream_end :: "stream_item list \<Rightarrow> drain_outcome option" where
  "stream_end [] = None"
| "stream_end (Inr (Final t) # items) = Some \<lparr>dr_final = Some t, dr_error = None, dr_paused = False\<rparr>"
| "stream_end (Inr ev # items) = stream_end items"
| "stream_end (Inl KE_Paused # items) = Some \<lparr>dr_final = None, dr_error = None, dr_paused = True\<rparr>"
| "stream_end (Inl e # items) =
     Some \<lparr>dr_final = None, dr_error = Some (show_kernel_error e), dr_paused = False\<rparr>"

context task_contract
begin

lemma drain_items_output:
  assumes "drains env i" "inv w" "out_of i w = Some out"
    and "list_all (\<lambda>(change, it). harmless tk_output i change) items"
    and "drain_items env i items buffer t0 w = (w', buffer', t1, oc)"
  shows "inv w' \<and> oc = stream_end (map snd items)
    \<and> (\<exists>out'. out_of i w' = Some out' \<and> out' @ buffer' = out @ buffer @ streamed_text (map snd items))"
  using assms
proof (induction items arbitrary: buffer t0 w out)
  case (Cons x items)
  obtain change it where x: "x = (change, it)" by (metis surj_pair)
  have w1: "inv (change w)" "out_of i (change w) = Some out"
    using Cons.prems harmlessD [of tk_output i change w] by (simp_all add: x out_of_def)
  note obs = observe_output [OF Cons.prems(1) w1(1)]
  show ?case
  proof (cases it)
    case (Inl e)
    then show ?thesis using Cons.prems w1 by (cases e) (auto simp: x)
  next
    case (Inr ev)
    show ?thesis
    proof (cases "\<exists>t. ev = Token t")
      case True
      then obtain t where t: "ev = Token t" by blast
      define w2 where "w2 = observe_event env (Token t) (change w)"
      have w2: "inv w2" "out_of i w2 = Some out" using obs w1 by (simp_all add: w2_def)
      obtain w3 full where f: "should_flush env (buffer @ t) t0 w2 = (w3, full)" by (metis surj_pair)
      note w3 = should_flush_output [OF Cons.prems(1) w2(1) f]
      show ?thesis
      proof (cases full)
        case True
        obtain w4 b4 t4 where g: "flush_output env i (buffer @ t) t0 w3 = (w4, b4, t4)"
          by (metis surj_pair)
        note w4 = flush_appends [OF Cons.prems(1) w3(1) _ g, of out]
        have "drain_items env i items b4 t4 w4 = (w', buffer', t1, oc)"
          using Cons.prems(5) True by (simp add: x Inr t f g flip: w2_def)
        from Cons.IH [OF Cons.prems(1) w4(1) w4(2) _ this] w4(3) w3(2) w2(2) Cons.prems(4)
        show ?thesis by (simp add: x Inr t)
      next
        case False
        then have "drain_items env i items (buffer @ t) t0 w3 = (w', buffer', t1, oc)"
          using Cons.prems(5) by (simp add: x Inr t f flip: w2_def)
        from Cons.IH [OF Cons.prems(1) w3(1) _ _ this] w3(2) w2(2) Cons.prems(4)
        show ?thesis by (simp add: x Inr t)
      qed
    next
      case False
      then show ?thesis
        using Cons.prems Cons.IH [OF Cons.prems(1) obs(1) [of ev]] obs w1
        by (cases ev) (auto simp: x Inr)
    qed
  qed
qed (auto simp: out_of_def)

lemma drain_output:
  assumes "drains env i" "inv w" "out_of i w = Some out"
    and "list_all (\<lambda>(change, it). harmless tk_output i change) items"
    and "drain_stream_inner env i items w = (w', oc)"
  shows "inv w' \<and> out_of i w' = Some (out @ streamed_text (map snd items))
    \<and> oc = unwrap_or stream_closed (stream_end (map snd items))"
proof -
  have api: "de_api env = api" using assms(1) by (simp add: drains_def)
  obtain w0 now where n: "tx_now api w = (w0, now)" by (metis surj_pair)
  with now_keeps [OF assms(2)] assms(3) have w0: "inv w0" "out_of i w0 = Some out"
    by (simp_all add: out_of_def)
  obtain w1 b t oc1 where d: "drain_items env i items [] now w0 = (w1, b, t, oc1)" by (metis surj_pair)
  from drain_items_output [OF assms(1) w0 assms(4) d] obtain out' where
    w1: "inv w1" "oc1 = stream_end (map snd items)" "out_of i w1 = Some out'"
      "out' @ b = out @ streamed_text (map snd items)" by auto
  obtain w2 b2 t2 where g: "flush_output env i b t w1 = (w2, b2, t2)" by (metis surj_pair)
  from flush_appends [OF assms(1) w1(1,3) g] w1(2,4) assms(5) show ?thesis
    by (simp add: drain_stream_inner_def drain_rest_def api n d g)
qed

end

section \<open>The in-memory store\<close>

type_synonym task_world = "task_store mem_world"

definition on_tasks ::
  "(instant \<Rightarrow> task_store \<Rightarrow> task_store \<times> (store_error + 'a)) \<Rightarrow> (task_world, store_error, 'a) store_op" where
  "on_tasks op w = (case mem_now w of (w', now) \<Rightarrow>
     (case op now (mw_store w') of (st, r) \<Rightarrow> (w'\<lparr>mw_store := st\<rparr>, r)))"

definition ok :: "'s \<times> 'a \<Rightarrow> 's \<times> (store_error + 'a)" where
  "ok p = (case p of (s, x) \<Rightarrow> (s, Inr x))"

definition task_mem_new_id :: "task_world \<Rightarrow> task_world \<times> task_id" where
  "task_mem_new_id w = (w\<lparr>mw_drawn := mw_drawn w + 1\<rparr>, mw_ids w (mw_drawn w))"

definition task_mem_orphans :: "int \<Rightarrow> (task_world, store_error, task_id list) store_op" where
  "task_mem_orphans n w = (case mem_now w of (w', t0) \<Rightarrow>
     on_tasks (\<lambda>now s. ok (task_pause_orphans t0 now n s)) w')"

definition task_mem_api :: "task_world task_api" where
  "task_mem_api =
     \<lparr>tx_insert = \<lambda>t. on_tasks (\<lambda>now. task_insert t),
      tx_get = \<lambda>i w. (w, Inr (task_get i (mw_store w))),
      tx_append = \<lambda>i c. on_tasks (\<lambda>now s. (task_append_output now i c s, Inr ())),
      tx_finish = \<lambda>i st err. on_tasks (\<lambda>now. task_finish now i st err),
      tx_pause = \<lambda>i cause. on_tasks (\<lambda>now s. ok (task_pause now i cause s)),
      tx_claim = \<lambda>i cap. on_tasks (\<lambda>now s. ok (claim_for_resume now i cap s)),
      tx_list_paused = \<lambda>p w. (w, Inr (task_list_by_status Task_Store.Paused p (mw_store w))),
      tx_orphans = task_mem_orphans,
      tx_children = \<lambda>i p w. (w, Inr (task_list_children i p (mw_store w))),
      tx_save = \<lambda>i ms. on_tasks (\<lambda>now s. (task_save_transcript now i ms s, Inr ())),
      tx_load = \<lambda>i w. (w, Inr (task_load_transcript i (mw_store w))),
      tx_now = mem_now,
      tx_new_id = task_mem_new_id\<rparr>"

abbreviation task_mem_inv :: "task_world \<Rightarrow> bool" where
  "task_mem_inv w \<equiv> keyed_tasks (mw_store w)"

abbreviation task_mem_row :: "task_world \<Rightarrow> task_id \<Rightarrow> task option" where
  "task_mem_row w \<equiv> map_of (ts_tasks (mw_store w))"

abbreviation task_mem_transcript :: "task_world \<Rightarrow> task_id \<Rightarrow> message list option" where
  "task_mem_transcript w \<equiv> map_of (ts_transcripts (mw_store w))"

lemma mem_world_step:
  assumes "task_mem_inv w" "\<And>now s. fst (op now s) = task_step (a now) s"
  shows "task_mem_inv (fst (on_tasks op w))"
    "mw_store (fst (on_tasks op w)) = task_step (a (mw_clock w (mw_ticks w))) (mw_store w)"
  using assms task_step_keyed [OF assms(1)]
  by (simp_all add: on_tasks_def mem_now_def case_prod_beta)

interpretation mem_tasks: task_contract task_mem_api task_mem_inv task_mem_row task_mem_transcript
proof unfold_locales
  fix w :: task_world and i c
  assume w: "task_mem_inv w"
  have "fst (task_append_output now i c s, Inr ()) = task_step (Task_Append now i c) s" for now s
    by (simp add: task_step_def)
  note step = mem_world_step [OF w, where op = "\<lambda>now s. (task_append_output now i c s, Inr ())"
      and a = "\<lambda>now. Task_Append now i c", OF this]
  from step show "task_mem_inv (fst (tx_append task_mem_api i c w)) \<and> snd (tx_append task_mem_api i c w) = Inr ()
      \<and> (\<exists>now. task_mem_row (fst (tx_append task_mem_api i c w)) = (task_mem_row w)(i := map_option
           (\<lambda>t. t\<lparr>tk_output := tk_output t @ c, tk_updated_at := now\<rparr>) (task_mem_row w i)))"
    by (auto simp: task_mem_api_def task_step_def task_append_output_def fun_eq_iff on_tasks_def
        case_prod_beta intro: exI [of _ "mw_clock w (mw_ticks w)"])
next
  fix w :: task_world and i st err
  assume w: "task_mem_inv w" and st: "st \<noteq> Running" "st \<noteq> Task_Store.Paused"
  have "fst (task_finish now i st err s) = task_step (Task_Finish now i st err) s" for now s
    by (simp add: task_step_def)
  note step = mem_world_step [OF w, where op = "\<lambda>now. task_finish now i st err"
      and a = "\<lambda>now. Task_Finish now i st err", OF this]
  from step st show "task_mem_inv (fst (tx_finish task_mem_api i st err w))
      \<and> (\<exists>now. task_mem_row (fst (tx_finish task_mem_api i st err w))
        = (task_mem_row w)(i := map_option (finish_task now st err) (task_mem_row w i)))"
    by (auto simp: task_mem_api_def task_step_def task_finish_def fun_eq_iff
        intro: exI [of _ "mw_clock w (mw_ticks w)"])
next
  fix w :: task_world and i cause
  assume w: "task_mem_inv w"
  have "fst (ok (task_pause now i cause s)) = task_step (Task_Pause now i cause) s" for now s
    by (simp add: task_step_def ok_def case_prod_beta)
  note step = mem_world_step [OF w, where op = "\<lambda>now s. ok (task_pause now i cause s)"
      and a = "\<lambda>now. Task_Pause now i cause", OF this]
  from step show "task_mem_inv (fst (tx_pause task_mem_api i cause w))
      \<and> (\<exists>now. task_mem_row (fst (tx_pause task_mem_api i cause w)) = (task_mem_row w)(i := map_option
           (\<lambda>t. if tk_status t = Running then pause_task now cause t else t) (task_mem_row w i)))"
    by (auto simp: task_mem_api_def task_step_def task_pause_def fun_eq_iff split: option.split
        intro: exI [of _ "mw_clock w (mw_ticks w)"])
qed (simp_all add: task_mem_api_def mem_now_def task_get_def)

section \<open>What the row of a drained run holds\<close>

definition leaves_column :: "(task \<Rightarrow> 'c) \<Rightarrow> task_id \<Rightarrow> (task_world \<Rightarrow> task_world) \<Rightarrow> bool" where
  "leaves_column column i f \<longleftrightarrow> (\<forall>w. task_mem_inv w \<longrightarrow> task_mem_inv (f w)
     \<and> map_option column (task_mem_row (f w) i) = map_option column (task_mem_row w i))"

lemma leaves_column_harmless: "mem_tasks.harmless = leaves_column"
  by (intro ext) (simp add: leaves_column_def mem_tasks.harmless_def)

text \<open>C17: nothing a task says is lost or repeated. Whatever happens around the drain, as long as others
  leave the output column of the row alone, the row ends with exactly the text it had followed by all
  tokens of the stream up to its end, however they were cut into flushes, and the outcome is the one
  the stream ended with.\<close>

theorem drained_output_exact:
  assumes "de_api env = task_mem_api" "task_mem_inv w" "task_mem_row w i = Some t"
    and "list_all (\<lambda>(change, it). leaves_column tk_output i change) items"
    and "\<And>meta kind. list_all (\<lambda>ob. leaves_column tk_output i (ob meta kind)) (de_observers env)"
  shows "case drain_stream_inner env i items w of (w', oc) \<Rightarrow>
      map_option tk_output (task_mem_row w' i) = Some (tk_output t @ streamed_text (map snd items))
      \<and> oc = unwrap_or stream_closed (stream_end (map snd items))"
proof -
  obtain w' oc where d: "drain_stream_inner env i items w = (w', oc)" by (metis surj_pair)
  have "mem_tasks.drains env i" "mem_tasks.out_of i w = Some (tk_output t)"
    using assms by (simp_all add: mem_tasks.drains_def mem_tasks.out_of_def leaves_column_harmless)
  from mem_tasks.drain_output [OF this(1) assms(2) this(2) _ d] assms(4)
  show ?thesis by (simp add: d leaves_column_harmless mem_tasks.out_of_def)
qed

lemma drained_output_exact_witness:
  "let w = \<lparr>mw_store = \<lparr>ts_tasks = [(''t'', sample_task)], ts_transcripts = []\<rparr>,
            mw_ids = (\<lambda>n. ''x''), mw_drawn = 0, mw_clock = int, mw_ticks = 0\<rparr>;
       env = \<lparr>de_api = task_mem_api, de_observers = [], de_meta = meta_from_task sample_task ''r'',
              de_bytes = 3, de_debounce = 1000\<rparr>;
       items = map (Pair id) [Inr (Token ''he''), Inr (Token ''llo''), Inr (Token ''!''), Inr (Final ''x'')]
   in map_option tk_output (task_mem_row (fst (drain_stream_inner env ''t'' items w)) ''t'')
      = Some (tk_output sample_task @ ''hello!'')"
proof -
  let ?w = "\<lparr>mw_store = \<lparr>ts_tasks = [(''t'', sample_task)], ts_transcripts = []\<rparr>,
            mw_ids = (\<lambda>n. ''x''), mw_drawn = 0, mw_clock = int, mw_ticks = 0\<rparr>"
  let ?env = "\<lparr>de_api = task_mem_api, de_observers = [], de_meta = meta_from_task sample_task ''r'',
              de_bytes = 3, de_debounce = 1000\<rparr>"
  let ?items = "map (Pair id) [Inr (Token ''he''), Inr (Token ''llo''), Inr (Token ''!''), Inr (Final ''x'')]"
  have "task_mem_inv ?w" by (simp add: keyed_tasks_def hm_wf_def sample_task_def)
  moreover have "list_all (\<lambda>(change, it). leaves_column tk_output ''t'' change) ?items"
    by (simp add: leaves_column_def)
  ultimately show ?thesis
    using drained_output_exact [of ?env ?w "''t''" sample_task ?items] by (simp add: case_prod_beta)
qed

end
