(* ===== verification/Task_Executor.thy ===== *)
theory Task_Executor
  imports Task_Drain
begin

text \<open>
  Background tasks at work, second half: the executor (\<open>crabgent-task/src/executor\<close>, \<open>request.rs\<close>). A spawn
  inserts a row and launches a run; when the run ends its verdict is written and told; a restart
  adopts orphaned rows, claims the paused ones, children first, and launches them again from their
  transcripts; a shutdown pauses, then cancels.

  A launched run is a job of the world: the tokens and the reason cell a run shares with the handle
  map are a numbered cell, so that an entry of the map and the run it was made for stay together.
  Waiting for a permit for ever is the value \<open>None\<close>.
\<close>

section \<open>Requests\<close>

record task_request =
  tq_owner :: owner
  tq_subject :: subject
  tq_name :: "string option"
  tq_prompt :: string
  tq_model :: model_target
  tq_explicit_model :: "model_target option"
  tq_session_model_override :: "model_id option"
  tq_reasoning_effort :: "reasoning_effort option"
  tq_system_prompt :: "string option"
  tq_messages :: "message list"
  tq_parent_session_id :: "string option"
  tq_parent_task_id :: "task_id option"
  tq_context_mode :: "string option"
  tq_max_turns :: "nat option"
  tq_tool_access :: tool_access

text \<open>\<open>TaskRequest::new\<close> panics on an empty owner, which \<open>try_new\<close> rejects.\<close>

definition try_from_parts ::
  "owner \<Rightarrow> model_target \<Rightarrow> model_target option \<Rightarrow> string \<Rightarrow> unit + task_request" where
  "try_from_parts ow model explicit_model prompt = (case subject_try_new ow of
       Inl e \<Rightarrow> Inl e
     | Inr sub \<Rightarrow> Inr
         \<lparr>tq_owner = ow, tq_subject = sub, tq_name = None, tq_prompt = prompt, tq_model = model,
          tq_explicit_model = explicit_model, tq_session_model_override = None,
          tq_reasoning_effort = None, tq_system_prompt = None, tq_messages = [],
          tq_parent_session_id = None, tq_parent_task_id = None, tq_context_mode = None,
          tq_max_turns = None, tq_tool_access = Access_All\<rparr>)"

definition task_request_new :: "owner \<Rightarrow> model_target \<Rightarrow> string \<Rightarrow> unit + task_request" where
  "task_request_new ow model prompt = try_from_parts ow model (Some model) prompt"

definition task_request_new_default :: "owner \<Rightarrow> model_target \<Rightarrow> string \<Rightarrow> unit + task_request" where
  "task_request_new_default ow model prompt = try_from_parts ow model None prompt"

text \<open>The request to the kernel, without the tokens, which belong to the cell of the job.\<close>

record run_request =
  rr_run_id :: string
  rr_subject :: subject
  rr_model :: model_target
  rr_explicit_model :: "model_target option"
  rr_session_model_override :: "model_id option"
  rr_fallbacks :: "model_target list"
  rr_messages :: "message list"
  rr_system_prompt :: "string option"
  rr_max_turns :: "nat option"
  rr_temperature :: "rat option"
  rr_max_tokens :: "nat option"
  rr_reasoning_effort :: "reasoning_effort option"
  rr_web_search :: web_search_config

definition build_resume_spec :: "task_request \<Rightarrow> task_resume_spec" where
  "build_resume_spec q =
     \<lparr>rsp_subject_id = sub_id (tq_subject q), rsp_subject_attrs = sub_attrs (tq_subject q),
      rsp_model = dto_of_target (tq_model q),
      rsp_explicit_model = map_option dto_of_target (tq_explicit_model q),
      rsp_session_model_override = tq_session_model_override q,
      rsp_reasoning_effort = tq_reasoning_effort q, rsp_system_prompt = tq_system_prompt q,
      rsp_max_turns = tq_max_turns q, rsp_tool_access = tq_tool_access q\<rparr>"

definition build_task_record :: "task_id \<Rightarrow> instant \<Rightarrow> task_request \<Rightarrow> task" where
  "build_task_record i now q =
     \<lparr>tk_id = i, tk_owner = tq_owner q, tk_name = tq_name q, tk_prompt = tq_prompt q,
      tk_status = Running, tk_output = [], tk_error = None, tk_created_at = now, tk_updated_at = now,
      tk_finished_at = None, tk_parent_session_id = tq_parent_session_id q,
      tk_parent_task_id = tq_parent_task_id q, tk_context_mode = tq_context_mode q,
      tk_reasoning_effort_override = tq_reasoning_effort q,
      tk_resume_spec = Some (build_resume_spec q), tk_resume_count = 0, tk_pause_cause = None,
      tk_paused_at = None\<rparr>"

definition removed_tool_call_ids :: "message list \<Rightarrow> tool_access \<Rightarrow> string list" where
  "removed_tool_call_ids ms access =
     map tc_id (filter (\<lambda>c. \<not> tool_allows access (tc_name c))
       (concat (map (\<lambda>m. case m of Assistant _ calls \<Rightarrow> calls | _ \<Rightarrow> []) ms)))"

definition filter_message :: "tool_access \<Rightarrow> string list \<Rightarrow> message \<Rightarrow> message option" where
  "filter_message access removed m = (case m of
       Assistant t calls \<Rightarrow>
         (let calls' = filter (\<lambda>c. tool_allows access (tc_name c)) calls
          in if t = [] \<and> calls' = [] then None else Some (Assistant t calls'))
     | ToolResult i _ _ \<Rightarrow> if i \<in> set removed then None else Some m
     | _ \<Rightarrow> Some m)"

definition filter_messages_for_tool_access :: "message list \<Rightarrow> tool_access \<Rightarrow> message list" where
  "filter_messages_for_tool_access ms access =
     (if access = Access_All then ms
      else List.map_filter (filter_message access (removed_tool_call_ids ms access)) ms)"

definition build_run_request :: "string \<Rightarrow> task_request \<Rightarrow> task \<Rightarrow> run_request" where
  "build_run_request run_id q t =
     (let ms = filter_messages_for_tool_access (tq_messages q) (tq_tool_access q)
      in \<lparr>rr_run_id = run_id, rr_subject = with_attr task_id_attr (tk_id t) (tq_subject q),
          rr_model = tq_model q, rr_explicit_model = tq_explicit_model q,
          rr_session_model_override = tq_session_model_override q, rr_fallbacks = [],
          rr_messages = (if ms = [] then [User [Text (tq_prompt q)] None] else ms),
          rr_system_prompt = tq_system_prompt q, rr_max_turns = tq_max_turns q,
          rr_temperature = None, rr_max_tokens = None, rr_reasoning_effort = tq_reasoning_effort q,
          rr_web_search = web_search_default\<rparr>)"

section \<open>The world of the executor\<close>

record run_cell =
  rc_cancelled :: bool
  rc_reason :: "cancel_reason option"

type_synonym kernel_handle = nat

record task_job =
  tj_id :: task_id
  tj_cell :: nat
  tj_kernel :: kernel_handle
  tj_request :: run_request
  tj_meta :: activity_meta
  tj_waiter :: bool
  tj_access :: tool_access

record 's exec_world =
  xw_store :: 's
  xw_cancel :: bool
  xw_pause :: bool
  xw_permits :: nat
  xw_cells :: "run_cell list"
  xw_handles :: "(task_id, nat) hmap"
  xw_jobs :: "task_job list"
  xw_joinset :: "task_id list"
  xw_signalled :: "(nat \<times> task) list"

record 's exec_cfg =
  xc_api :: "'s exec_world task_api"
  xc_notifiers :: "(task \<Rightarrow> string \<Rightarrow> 's exec_world \<Rightarrow> 's exec_world) list"
  xc_observers :: "(activity_meta \<Rightarrow> task_activity_kind \<Rightarrow> 's exec_world \<Rightarrow> 's exec_world) list"
  xc_new_run_id :: "'s exec_world \<Rightarrow> 's exec_world \<times> string"
  xc_progress_debounce :: int
  xc_output_debounce_bytes :: nat
  xc_max_parallel :: nat
  xc_orphan_stale_secs :: int
  xc_max_resumes :: "32 word"

definition default_max_parallel :: nat where "default_max_parallel = 5"
definition default_max_resumes :: "32 word" where "default_max_resumes = 3"
definition default_orphan_stale_secs :: int where "default_orphan_stale_secs = 0"
definition default_output_debounce_bytes :: nat where "default_output_debounce_bytes = 256"
definition default_progress_debounce_ms :: int where "default_progress_debounce_ms = 500"

definition task_executor_new ::
  "'s exec_world task_api \<Rightarrow> ('s exec_world \<Rightarrow> 's exec_world \<times> string) \<Rightarrow> 's exec_cfg" where
  "task_executor_new api new_run_id =
     \<lparr>xc_api = api, xc_notifiers = [], xc_observers = [], xc_new_run_id = new_run_id,
      xc_progress_debounce = default_progress_debounce_ms * 1000000,
      xc_output_debounce_bytes = default_output_debounce_bytes,
      xc_max_parallel = default_max_parallel, xc_orphan_stale_secs = default_orphan_stale_secs,
      xc_max_resumes = default_max_resumes\<rparr>"

datatype task_error =
    TX_Store store_error
  | TX_Kernel kernel_error
  | TX_Timeout
  | TX_Notify string
  | TX_Executor string

type_synonym ('s, 'a) exec_op = "'s exec_world \<Rightarrow> ('s exec_world \<times> (task_error + 'a)) option"

definition xo_return :: "'a \<Rightarrow> ('s, 'a) exec_op" where
  "xo_return x w = Some (w, Inr x)"

definition xo_fail :: "task_error \<Rightarrow> ('s, 'a) exec_op" where
  "xo_fail e w = Some (w, Inl e)"

definition xo_bind :: "('s, 'a) exec_op \<Rightarrow> ('a \<Rightarrow> ('s, 'b) exec_op) \<Rightarrow> ('s, 'b) exec_op" where
  "xo_bind m f w = (case m w of
       None \<Rightarrow> None
     | Some (w', Inl e) \<Rightarrow> Some (w', Inl e)
     | Some (w', Inr x) \<Rightarrow> f x w')"

definition xo_store :: "('s exec_world, store_error, 'a) store_op \<Rightarrow> ('s, 'a) exec_op" where
  "xo_store op w = Some (op_map_err TX_Store op w)"

section \<open>Spawning\<close>

definition acquire_spawn_permit :: "'s exec_cfg \<Rightarrow> ('s, unit) exec_op" where
  "acquire_spawn_permit cfg w =
     (if xc_max_parallel cfg = 0
      then xo_fail (TX_Executor ''task executor max_parallel must be at least 1'') w
      else if xw_cancel w then xo_fail (TX_Executor ''task executor is shutting down'') w
      else if xw_pause w then xo_fail (TX_Executor ''task executor is pausing for shutdown'') w
      else if xw_permits w = 0 then None
      else xo_return () (w\<lparr>xw_permits := xw_permits w - 1\<rparr>))"

definition release_permit :: "'s exec_world \<Rightarrow> 's exec_world" where
  "release_permit w = w\<lparr>xw_permits := xw_permits w + 1\<rparr>"

text \<open>What follows owns the permit: unless it launches a run, the permit is dropped with it.\<close>

definition holding_permit :: "('a \<Rightarrow> bool) \<Rightarrow> ('s, 'a) exec_op \<Rightarrow> ('s, 'a) exec_op" where
  "holding_permit launched op w = (case op w of
       None \<Rightarrow> None
     | Some (w', Inl e) \<Rightarrow> Some (release_permit w', Inl e)
     | Some (w', Inr x) \<Rightarrow> Some (if launched x then w' else release_permit w', Inr x))"

definition live_ids :: "'s exec_world \<Rightarrow> task_id list" where
  "live_ids w = map tj_id (xw_jobs w)"

definition drain_finished :: "'s exec_world \<Rightarrow> 's exec_world" where
  "drain_finished w = w\<lparr>xw_joinset := filter (\<lambda>i. i \<in> set (live_ids w)) (xw_joinset w)\<rparr>"

definition launch_run ::
  "'s exec_cfg \<Rightarrow> kernel_handle \<Rightarrow> task_request \<Rightarrow> task \<Rightarrow> bool \<Rightarrow> ('s, task_id) exec_op" where
  "launch_run cfg kn q t waiter w =
     (let (w0, run_id) = xc_new_run_id cfg w;
          req = build_run_request run_id q t;
          cell = length (xw_cells w0);
          w1 = w0\<lparr>xw_cells := xw_cells w0 @ [\<lparr>rc_cancelled = xw_cancel w0, rc_reason = None\<rparr>],
                  xw_handles := AList.update (tk_id t) cell (xw_handles w0)\<rparr>;
          job = \<lparr>tj_id = tk_id t, tj_cell = cell, tj_kernel = kn, tj_request = req,
                 tj_meta = meta_from_task t run_id, tj_waiter = waiter,
                 tj_access = tq_tool_access q\<rparr>;
          w2 = drain_finished w1
      in xo_return (tk_id t)
           (w2\<lparr>xw_jobs := xw_jobs w2 @ [job], xw_joinset := xw_joinset w2 @ [tk_id t]\<rparr>))"

definition do_spawn_with_completion ::
  "'s exec_cfg \<Rightarrow> kernel_handle \<Rightarrow> task_request \<Rightarrow> bool \<Rightarrow> ('s, task_id) exec_op" where
  "do_spawn_with_completion cfg kn q waiter =
     xo_bind (acquire_spawn_permit cfg) (\<lambda>_.
     holding_permit (\<lambda>_. True) (\<lambda>w0.
       (let (w1, now) = tx_now (xc_api cfg) w0;
            (w2, i) = tx_new_id (xc_api cfg) w1;
            t = build_task_record i now q
        in xo_bind (xo_store (tx_insert (xc_api cfg) t)) (\<lambda>_. launch_run cfg kn q t waiter) w2)))"

definition do_spawn :: "'s exec_cfg \<Rightarrow> kernel_handle \<Rightarrow> task_request \<Rightarrow> ('s, task_id) exec_op" where
  "do_spawn cfg kn q = do_spawn_with_completion cfg kn q False"

section \<open>Driving a job\<close>

text \<open>What the kernel does with the request of a job: the items of its stream, each with the change of
  the world before it, and how the \<open>select!\<close> around the drain ends.\<close>

record 's run_script =
  rn_items :: "(('s exec_world \<Rightarrow> 's exec_world) \<times> stream_item) list"
  rn_end :: drain_end

definition set_cell :: "nat \<Rightarrow> (run_cell \<Rightarrow> run_cell) \<Rightarrow> 's exec_world \<Rightarrow> 's exec_world" where
  "set_cell c f w = w\<lparr>xw_cells := (xw_cells w)[c := f (xw_cells w ! c)]\<rparr>"

definition fire_cancel :: "nat \<Rightarrow> 's exec_world \<Rightarrow> 's exec_world" where
  "fire_cancel c = set_cell c (\<lambda>r. r\<lparr>rc_cancelled := True\<rparr>)"

definition stamp_reason :: "cancel_reason \<Rightarrow> nat \<Rightarrow> 's exec_world \<Rightarrow> 's exec_world" where
  "stamp_reason v c = set_cell c (\<lambda>r. r\<lparr>rc_reason := fst (once_set v (rc_reason r))\<rparr>)"

definition job_drain_env :: "'s exec_cfg \<Rightarrow> task_job \<Rightarrow> 's exec_world drain_env" where
  "job_drain_env cfg j =
     \<lparr>de_api = xc_api cfg, de_observers = xc_observers cfg, de_meta = tj_meta j,
      de_bytes = xc_output_debounce_bytes cfg, de_debounce = xc_progress_debounce cfg\<rparr>"

definition run_with_timeout ::
  "'s exec_cfg \<Rightarrow> task_job \<Rightarrow> 's run_script \<Rightarrow> 's exec_world \<Rightarrow> 's exec_world \<times> drain_outcome" where
  "run_with_timeout cfg j script w =
     run_drain_with_timeout (job_drain_env cfg j) (tj_id j) (fire_cancel (tj_cell j)) (rn_items script)
       (rn_end script) w"

definition load_terminal_meta ::
  "'s exec_cfg \<Rightarrow> task_job \<Rightarrow> task_status \<Rightarrow> 's exec_world \<Rightarrow> 's exec_world \<times> activity_meta" where
  "load_terminal_meta cfg j st w = (case tx_get (xc_api cfg) (tj_id j) w of
       (w', Inr (Some t)) \<Rightarrow> (w', meta_from_task t (am_run_id (tj_meta j)))
     | (w', _) \<Rightarrow> (case tx_now (xc_api cfg) w' of (w'', now) \<Rightarrow>
         (w'', meta_with_status st (Some now) now (tj_meta j))))"

definition terminal_activity_kind :: "string option \<Rightarrow> task_activity_kind" where
  "terminal_activity_kind err = (case err of
       None \<Rightarrow> TA_Completed
     | Some m \<Rightarrow>
         if m = cancelled_message then TA_Cancelled
         else if m = timeout_message then TA_TimedOut
         else TA_Failed (redacted m))"

definition tell_observers ::
  "'s exec_cfg \<Rightarrow> task_job \<Rightarrow> task_status \<Rightarrow> task_activity_kind \<Rightarrow> 's exec_world \<Rightarrow> 's exec_world" where
  "tell_observers cfg j st kind w = (case load_terminal_meta cfg j st w of (w', meta) \<Rightarrow>
     notify_observers (xc_observers cfg) meta kind w')"

definition pause_row :: "'s exec_cfg \<Rightarrow> task_id \<Rightarrow> pause_cause \<Rightarrow> 's exec_world \<Rightarrow> 's exec_world" where
  "pause_row cfg i cause w = fst (tx_pause (xc_api cfg) i cause w)"

definition finalize_task ::
  "'s exec_cfg \<Rightarrow> task_id \<Rightarrow> task_status \<Rightarrow> string option \<Rightarrow> 's exec_world \<Rightarrow> 's exec_world" where
  "finalize_task cfg i st err w = fst (tx_finish (xc_api cfg) i st err w)"

definition settle_verdict :: "'s exec_cfg \<Rightarrow> task_job \<Rightarrow> task_final \<Rightarrow> 's exec_world \<Rightarrow> 's exec_world" where
  "settle_verdict cfg j v w = (case v of
       TF_Paused cause \<Rightarrow>
         tell_observers cfg j Task_Store.Paused (TA_Paused cause) (pause_row cfg (tj_id j) cause w)
     | TF_Done \<Rightarrow>
         tell_observers cfg j Done (terminal_activity_kind None) (finalize_task cfg (tj_id j) Done None w)
     | TF_Failed e \<Rightarrow>
         tell_observers cfg j Failed (terminal_activity_kind (Some e))
           (finalize_task cfg (tj_id j) Failed (Some e) w))"

definition signal_completion :: "'s exec_cfg \<Rightarrow> task_job \<Rightarrow> 's exec_world \<Rightarrow> 's exec_world" where
  "signal_completion cfg j w =
     (if \<not> tj_waiter j then w
      else (case tx_get (xc_api cfg) (tj_id j) w of
          (w', Inr (Some t)) \<Rightarrow> w'\<lparr>xw_signalled := xw_signalled w' @ [(tj_cell j, t)]\<rparr>
        | (w', _) \<Rightarrow> w'))"

definition build_notification_message :: "drain_outcome \<Rightarrow> string option \<Rightarrow> string" where
  "build_notification_message oc err = (case err of
       Some e \<Rightarrow> ''task failed: '' @ e
     | None \<Rightarrow> unwrap_or [] (dr_final oc))"

definition notify_completion ::
  "'s exec_cfg \<Rightarrow> task_id \<Rightarrow> drain_outcome \<Rightarrow> string option \<Rightarrow> 's exec_world \<Rightarrow> 's exec_world" where
  "notify_completion cfg i oc err w =
     (if xc_notifiers cfg = [] then w
      else (case tx_get (xc_api cfg) i w of
          (w', Inr (Some t)) \<Rightarrow>
            fold (\<lambda>n. n t (build_notification_message oc err)) (xc_notifiers cfg) w'
        | (w', _) \<Rightarrow> w'))"

definition job_verdict :: "task_job \<Rightarrow> drain_outcome \<Rightarrow> 's exec_world \<Rightarrow> task_final" where
  "job_verdict j oc w = classify_outcome oc (xw_pause w) (rc_reason (xw_cells w ! tj_cell j))"

definition job_gone :: "task_job \<Rightarrow> 's exec_world \<Rightarrow> 's exec_world" where
  "job_gone j w = release_permit (w\<lparr>xw_jobs := filter (\<lambda>k. tj_cell k \<noteq> tj_cell j) (xw_jobs w)\<rparr>)"

definition drive_one_task ::
  "'s exec_cfg \<Rightarrow> task_job \<Rightarrow> 's run_script \<Rightarrow> 's exec_world \<Rightarrow> 's exec_world" where
  "drive_one_task cfg j script w =
     (let w1 = notify_observers (xc_observers cfg) (tj_meta j) TA_Started w;
          (w2, oc) = run_with_timeout cfg j script w1;
          verdict = job_verdict j oc w2;
          w3 = settle_verdict cfg j verdict w2;
          w4 = signal_completion cfg j w3;
          w5 = w4\<lparr>xw_handles := AList.delete (tj_id j) (xw_handles w4)\<rparr>
      in job_gone j (case verdict of
           TF_Paused _ \<Rightarrow> w5
         | TF_Done \<Rightarrow> notify_completion cfg (tj_id j) oc None w5
         | TF_Failed e \<Rightarrow> notify_completion cfg (tj_id j) oc (Some e) w5))"

section \<open>Cancelling and shutting down\<close>

definition do_cancel :: "task_id \<Rightarrow> 's exec_world \<Rightarrow> 's exec_world \<times> bool" where
  "do_cancel i w = (case map_of (xw_handles w) i of
       None \<Rightarrow> (w, False)
     | Some c \<Rightarrow>
         (fire_cancel c (stamp_reason StopPattern c (w\<lparr>xw_handles := AList.delete i (xw_handles w)\<rparr>)),
          True))"

text \<open>The cancel root is the parent of the token of every run.\<close>

definition fire_root_cancel :: "'s exec_world \<Rightarrow> 's exec_world" where
  "fire_root_cancel w = w\<lparr>xw_cancel := True,
     xw_cells := map (\<lambda>r. r\<lparr>rc_cancelled := True\<rparr>) (xw_cells w)\<rparr>"

definition stamp_shutdown_reasons :: "'s exec_world \<Rightarrow> 's exec_world" where
  "stamp_shutdown_reasons w =
     fold (\<lambda>(i, c). stamp_reason Run_State.Shutdown c) (xw_handles w) w"

text \<open>A grace is what happens until the drained set is empty or the time is up, and which of the two.\<close>

type_synonym 's grace = "'s exec_world \<Rightarrow> 's exec_world \<times> bool"

definition force_cancel_stragglers :: "'s grace \<Rightarrow> task_job list \<Rightarrow> 's exec_world \<Rightarrow> 's exec_world" where
  "force_cancel_stragglers shutdown_grace taken w =
     (case shutdown_grace (fire_root_cancel (stamp_shutdown_reasons w)) of
        (w', True) \<Rightarrow> w'
      | (w', False) \<Rightarrow>
          (let aborted = filter (\<lambda>k. list_ex (\<lambda>t. tj_cell t = tj_cell k) taken) (xw_jobs w')
           in w'\<lparr>xw_jobs := filter (\<lambda>k. \<not> list_ex (\<lambda>t. tj_cell t = tj_cell k) taken) (xw_jobs w'),
                 xw_permits := xw_permits w' + length aborted\<rparr>))"

definition executor_shutdown :: "'s grace \<Rightarrow> 's grace \<Rightarrow> 's exec_world \<Rightarrow> 's exec_world" where
  "executor_shutdown pause_grace shutdown_grace w =
     (let w1 = w\<lparr>xw_pause := True, xw_joinset := []\<rparr>
      in if xw_joinset w = [] then fire_root_cancel w1
         else (case pause_grace w1 of
             (w2, True) \<Rightarrow> fire_root_cancel w2
           | (w2, False) \<Rightarrow>
               fire_root_cancel (force_cancel_stragglers shutdown_grace (xw_jobs w1) w2)))"

definition in_flight :: "'s exec_world \<Rightarrow> 's exec_world \<times> nat" where
  "in_flight w = (let w' = drain_finished w in (w', length (xw_joinset w')))"

section \<open>Resuming after a restart\<close>

definition scan_page_size :: nat where "scan_page_size = 100"
definition max_depth_walk :: nat where "max_depth_walk = 16"
definition max_child_name_chars :: nat where "max_child_name_chars = 80"

definition not_resumable_message :: string where
  "not_resumable_message = ''not resumable: missing or invalid resume spec''"

definition rebuild_subject :: "task_resume_spec \<Rightarrow> subject option" where
  "rebuild_subject spec = (case subject_try_new (rsp_subject_id spec) of
       Inl _ \<Rightarrow> None
     | Inr sub \<Rightarrow> Some (fold (\<lambda>(k, v). with_attr k v) (rsp_subject_attrs spec) sub))"

definition rebuild_request :: "task \<Rightarrow> task_request option" where
  "rebuild_request t =
     Option.bind (tk_resume_spec t) (\<lambda>spec. map_option (\<lambda>sub.
       \<lparr>tq_owner = tk_owner t, tq_subject = sub, tq_name = tk_name t, tq_prompt = tk_prompt t,
        tq_model = target_of_dto (rsp_model spec),
        tq_explicit_model = map_option target_of_dto (rsp_explicit_model spec),
        tq_session_model_override = map_option model_id_new (rsp_session_model_override spec),
        tq_reasoning_effort = rsp_reasoning_effort spec, tq_system_prompt = rsp_system_prompt spec,
        tq_messages = [], tq_parent_session_id = tk_parent_session_id t,
        tq_parent_task_id = tk_parent_task_id t, tq_context_mode = tk_context_mode t,
        tq_max_turns = rsp_max_turns spec, tq_tool_access = rsp_tool_access spec\<rparr>)
       (rebuild_subject spec))"

text \<open>\<open>char::is_control\<close>: U+0000 to U+001F, U+007F, and U+0080 to U+009F, two bytes each in UTF-8.\<close>

fun strip_control :: "string \<Rightarrow> string" where
  "strip_control (c # d # s) =
     (if (of_char c :: nat) < 32 \<or> (of_char c :: nat) = 127 then strip_control (d # s)
      else if (of_char c :: nat) = 194 \<and> (of_char d :: nat) < 160 then strip_control s
      else c # strip_control (d # s))"
| "strip_control [c] = (if (of_char c :: nat) < 32 \<or> (of_char c :: nat) = 127 then [] else [c])"
| "strip_control [] = []"

definition sanitize_child_name :: "string \<Rightarrow> string" where
  "sanitize_child_name name = take_chars max_child_name_chars (strip_control name)"

definition child_line :: "task \<Rightarrow> string" where
  "child_line c = [CHR 0x0A] @ ''- '' @ tk_id c @ '' (name: ''
     @ sanitize_child_name (unwrap_or ''-'' (tk_name c)) @ '', status: ''
     @ status_as_str (tk_status c) @ '')''"

definition interrupted_note :: "string \<Rightarrow> task list \<Rightarrow> string" where
  "interrupted_note tool_name children =
     ''interrupted by shutdown/restart before a result was recorded; the call may have partially executed. Decide what (if anything) to redo.''
     @ (if tool_name = ''task'' \<and> children \<noteq> [] then
          [CHR 0x0A] @ ''Tasks already spawned by this conversation (re-attach via task get instead of re-spawning):''
          @ concat (map child_line children)
          @ (if scan_page_size \<le> length children
             then [CHR 0x0A] @ ''(child list truncated)'' else [])
        else [])"

definition result_ids :: "message list \<Rightarrow> string list" where
  "result_ids ms = List.map_filter (\<lambda>m. case m of ToolResult i _ _ \<Rightarrow> Some i | _ \<Rightarrow> None) ms"

definition dangling_calls :: "message list \<Rightarrow> (string \<times> string) list" where
  "dangling_calls ms =
     (let resolved = result_ids ms
      in map (\<lambda>c. (tc_id c, tc_name c)) (filter (\<lambda>c. tc_id c \<notin> set resolved)
           (concat (map (\<lambda>m. case m of Assistant _ calls \<Rightarrow> calls | _ \<Rightarrow> []) ms))))"

definition repair_dangling :: "message list \<Rightarrow> task list \<Rightarrow> message list \<times> bool" where
  "repair_dangling ms children =
     (let dangling = dangling_calls ms
      in if dangling = [] then (ms, False)
         else (ms @ map (\<lambda>(i, tool_name). ToolResult i (JStr (interrupted_note tool_name children)) True)
                 dangling, True))"

fun depth_walk :: "nat \<Rightarrow> (task_id \<Rightarrow> task_id option option) \<Rightarrow> task_id \<Rightarrow> nat" where
  "depth_walk 0 parents i = 0"
| "depth_walk (Suc n) parents i = (case parents i of
       Some (Some p) \<Rightarrow> Suc (depth_walk n parents p)
     | _ \<Rightarrow> 0)"

definition tree_depth :: "(task_id \<Rightarrow> task_id option option) \<Rightarrow> task_id \<Rightarrow> nat" where
  "tree_depth parents i = depth_walk max_depth_walk parents i"

definition parent_links :: "(task \<times> kernel_handle) list \<Rightarrow> task_id \<Rightarrow> task_id option option" where
  "parent_links tasks = map_of (rev (map (\<lambda>(t, _). (tk_id t, tk_parent_task_id t)) tasks))"

definition order_children_first :: "(task \<times> kernel_handle) list \<Rightarrow> (task \<times> kernel_handle) list" where
  "order_children_first tasks =
     sort_key (\<lambda>(t, _). - int (tree_depth (parent_links tasks) (tk_id t))) tasks"

partial_function (option) scan_loop ::
  "'s exec_cfg \<Rightarrow> page \<Rightarrow> task list \<Rightarrow> 's exec_world \<Rightarrow> ('s exec_world \<times> (task_error + task list)) option"
where
  "scan_loop cfg page acc w = (case tx_list_paused (xc_api cfg) page w of
       (w', Inl e) \<Rightarrow> Some (w', Inl (TX_Store e))
     | (w', Inr batch) \<Rightarrow>
         if length batch < pg_limit page then Some (w', Inr (acc @ batch))
         else scan_loop cfg (page_next page) (acc @ batch) w')"

definition scan_paused :: "'s exec_cfg \<Rightarrow> ('s, task list) exec_op" where
  "scan_paused cfg w = scan_loop cfg (page_first scan_page_size) [] w"

definition fail_when_cap_exhausted :: "'s exec_cfg \<Rightarrow> task_id \<Rightarrow> ('s, unit) exec_op" where
  "fail_when_cap_exhausted cfg i =
     xo_bind (xo_store (tx_get (xc_api cfg) i)) (\<lambda>found. case found of
         None \<Rightarrow> xo_return ()
       | Some current \<Rightarrow>
           if tk_status current = Task_Store.Paused \<and> tk_pause_cause current \<noteq> Some Task_Store.Shutdown
              \<and> xc_max_resumes cfg \<le> tk_resume_count current
           then xo_store (tx_finish (xc_api cfg) i Failed (Some resume_limit_message))
           else xo_return ())"

definition resume_claimed :: "'s exec_cfg \<Rightarrow> kernel_handle \<Rightarrow> task \<Rightarrow> task_request \<Rightarrow> ('s, task_id) exec_op" where
  "resume_claimed cfg kn t q =
     xo_bind (xo_store (tx_load (xc_api cfg) (tk_id t))) (\<lambda>loaded.
     xo_bind (xo_store (tx_children (xc_api cfg) (tk_id t) (page_first scan_page_size))) (\<lambda>children w.
       (let (repaired, changed) = repair_dangling (unwrap_or [] loaded) children;
            w' = (if changed then fst (tx_save (xc_api cfg) (tk_id t) repaired w) else w)
        in launch_run cfg kn (q\<lparr>tq_messages := repaired\<rparr>) t False w')))"

definition resume_one :: "'s exec_cfg \<Rightarrow> kernel_handle \<Rightarrow> task \<Rightarrow> ('s, task_id option) exec_op" where
  "resume_one cfg kn t = (case rebuild_request t of
       None \<Rightarrow>
         xo_bind (xo_store (tx_claim (xc_api cfg) (tk_id t) (xc_max_resumes cfg))) (\<lambda>won.
           if won then
             xo_bind (xo_store (tx_finish (xc_api cfg) (tk_id t) Failed (Some not_resumable_message)))
               (\<lambda>_. xo_return None)
           else xo_return None)
     | Some q \<Rightarrow>
         xo_bind (acquire_spawn_permit cfg) (\<lambda>_.
         holding_permit (\<lambda>r. r \<noteq> None)
           (xo_bind (xo_store (tx_claim (xc_api cfg) (tk_id t) (xc_max_resumes cfg))) (\<lambda>won.
              if won then xo_bind (resume_claimed cfg kn t q) (\<lambda>i. xo_return (Some i))
              else xo_bind (fail_when_cap_exhausted cfg (tk_id t)) (\<lambda>_. xo_return None)))))"

text \<open>Errors of one task are logged and the scan goes on.\<close>

fun resume_each :: "'s exec_cfg \<Rightarrow> (task \<times> kernel_handle) list \<Rightarrow> ('s, task_id list) exec_op" where
  "resume_each cfg [] w = xo_return [] w"
| "resume_each cfg ((t, kn) # rest) w = (case resume_one cfg kn t w of
       None \<Rightarrow> None
     | Some (w', r) \<Rightarrow>
         xo_bind (resume_each cfg rest)
           (\<lambda>ids. xo_return (case r of Inr (Some i) \<Rightarrow> i # ids | _ \<Rightarrow> ids)) w')"

definition do_resume_paused ::
  "'s exec_cfg \<Rightarrow> (task \<Rightarrow> kernel_handle option) \<Rightarrow> ('s, task_id list) exec_op" where
  "do_resume_paused cfg pick =
     xo_bind (xo_store (tx_orphans (xc_api cfg) (xc_orphan_stale_secs cfg))) (\<lambda>_.
     xo_bind (scan_paused cfg) (\<lambda>paused.
       resume_each cfg (order_children_first
         (List.map_filter (\<lambda>t. map_option (Pair t) (pick t)) paused))))"

section \<open>Waiting for a task\<close>

definition load_task :: "'s exec_cfg \<Rightarrow> task_id \<Rightarrow> ('s, task) exec_op" where
  "load_task cfg i =
     xo_bind (xo_store (tx_get (xc_api cfg) i)) (\<lambda>found. case found of
         None \<Rightarrow> xo_fail (TX_Executor (''task disappeared: '' @ i))
       | Some t \<Rightarrow> xo_return t)"

text \<open>The polls until the deadline, each after what happened since the last one.\<close>

fun wait_for_cancelled_task ::
  "'s exec_cfg \<Rightarrow> task_id \<Rightarrow> ('s exec_world \<Rightarrow> 's exec_world) list \<Rightarrow> ('s, task) exec_op" where
  "wait_for_cancelled_task cfg i [] w = load_task cfg i w"
| "wait_for_cancelled_task cfg i (change # polls) w =
     xo_bind (load_task cfg i) (\<lambda>t w'.
       if tk_status t \<noteq> Running then xo_return t w'
       else wait_for_cancelled_task cfg i polls (change w')) w"

definition cancel_and_reconcile ::
  "'s exec_cfg \<Rightarrow> task_id \<Rightarrow> ('s exec_world \<Rightarrow> 's exec_world) list \<Rightarrow> ('s, task) exec_op" where
  "cancel_and_reconcile cfg i polls =
     xo_bind (\<lambda>w. xo_return () (fst (do_cancel i w))) (\<lambda>_.
     xo_bind (wait_for_cancelled_task cfg i polls) (\<lambda>t.
       if tk_status t = Running \<or> tk_error t = Some cancelled_message
       then xo_bind (xo_store (tx_finish (xc_api cfg) i Failed (Some timeout_message)))
              (\<lambda>_. load_task cfg i)
       else xo_return t))"

definition load_after_timeout ::
  "'s exec_cfg \<Rightarrow> task_id \<Rightarrow> ('s exec_world \<Rightarrow> 's exec_world) list \<Rightarrow> ('s, task) exec_op" where
  "load_after_timeout cfg i polls =
     xo_bind (xo_store (tx_get (xc_api cfg) i)) (\<lambda>found. case found of
         Some t \<Rightarrow> if tk_status t \<noteq> Running then xo_return t else cancel_and_reconcile cfg i polls
       | None \<Rightarrow> cancel_and_reconcile cfg i polls)"

datatype wait_end = Signalled task | Sender_Dropped | Wait_Elapsed

definition await_terminal_task ::
  "'s exec_cfg \<Rightarrow> task_id \<Rightarrow> wait_end \<Rightarrow> ('s exec_world \<Rightarrow> 's exec_world) list \<Rightarrow> ('s, task) exec_op" where
  "await_terminal_task cfg i ending polls = (case ending of
       Signalled t \<Rightarrow> xo_return t
     | Sender_Dropped \<Rightarrow> load_task cfg i
     | Wait_Elapsed \<Rightarrow> load_after_timeout cfg i polls)"

text \<open>What happens between the spawn and the end of the wait is \<open>meanwhile\<close>.\<close>

definition do_spawn_blocking ::
  "'s exec_cfg \<Rightarrow> kernel_handle \<Rightarrow> task_request \<Rightarrow> ('s exec_world \<Rightarrow> 's exec_world \<times> wait_end)
   \<Rightarrow> ('s exec_world \<Rightarrow> 's exec_world) list \<Rightarrow> ('s, task) exec_op" where
  "do_spawn_blocking cfg kn q meanwhile polls =
     xo_bind (do_spawn_with_completion cfg kn q True) (\<lambda>i w.
       case meanwhile w of (w', ending) \<Rightarrow> await_terminal_task cfg i ending polls w')"

end
