(* ===== verification/Task_Guarantees.thy ===== *)
theory Task_Guarantees
  imports Task_Executor "HOL-Library.Multiset"
begin

text \<open>
  What the task executor promises: the contract of the store lifted to the world of the executor, the
  verdict of a run in its row, user cancels that outlive a shutdown, resumption from the row alone,
  children before parents, and transcripts without open calls.
\<close>

section \<open>The store in the world of the executor\<close>

definition on_store :: "('s, 'e, 'a) store_op \<Rightarrow> ('s exec_world, 'e, 'a) store_op" where
  "on_store op w = (case op (xw_store w) of (s, r) \<Rightarrow> (w\<lparr>xw_store := s\<rparr>, r))"

definition exec_api :: "'s task_api \<Rightarrow> 's exec_world task_api" where
  "exec_api api =
     \<lparr>tx_insert = on_store \<circ> tx_insert api, tx_get = on_store \<circ> tx_get api,
      tx_append = (\<lambda>i. on_store \<circ> tx_append api i),
      tx_finish = (\<lambda>i st. on_store \<circ> tx_finish api i st),
      tx_pause = (\<lambda>i. on_store \<circ> tx_pause api i), tx_claim = (\<lambda>i. on_store \<circ> tx_claim api i),
      tx_list_paused = on_store \<circ> tx_list_paused api, tx_orphans = on_store \<circ> tx_orphans api,
      tx_children = (\<lambda>i. on_store \<circ> tx_children api i), tx_save = (\<lambda>i. on_store \<circ> tx_save api i),
      tx_load = on_store \<circ> tx_load api,
      tx_now = (\<lambda>w. case tx_now api (xw_store w) of (s, now) \<Rightarrow> (w\<lparr>xw_store := s\<rparr>, now)),
      tx_new_id = (\<lambda>w. case tx_new_id api (xw_store w) of (s, i) \<Rightarrow> (w\<lparr>xw_store := s\<rparr>, i))\<rparr>"

lemma on_store_results [simp]:
  "xw_store (fst (on_store op w)) = fst (op (xw_store w))"
  "snd (on_store op w) = snd (op (xw_store w))"
  by (simp_all add: on_store_def case_prod_beta)

text \<open>What only the executor writes.\<close>

definition control :: "'s exec_world \<Rightarrow> bool \<times> bool \<times> run_cell list \<times> task_job list" where
  "control w = (xw_cancel w, xw_pause w, xw_cells w, xw_jobs w)"

lemma on_store_control [simp]: "control (fst (on_store op w)) = control w"
  by (simp add: on_store_def case_prod_beta control_def)

locale executor_store = task_contract

sublocale executor_store \<subseteq> lifted: task_contract "exec_api api" "\<lambda>w. inv (xw_store w)"
    "\<lambda>w. row (xw_store w)" "\<lambda>w. transcript (xw_store w)"
proof unfold_locales
qed (auto simp: exec_api_def case_prod_beta now_keeps get_reads append_writes finish_writes pause_writes)

section \<open>The verdict in the row\<close>

definition verdict_column :: "task \<Rightarrow> task_status \<times> pause_cause option \<times> string option" where
  "verdict_column t = (tk_status t, tk_pause_cause t, tk_error t)"

definition written_verdict :: "task_final \<Rightarrow> task \<Rightarrow> task_status \<times> pause_cause option \<times> string option" where
  "written_verdict v t = (case v of
       TF_Paused c \<Rightarrow> (Task_Store.Paused, Some c, tk_error t)
     | TF_Done \<Rightarrow> (Done, None, None)
     | TF_Failed e \<Rightarrow> (Failed, None, Some e))"

context executor_store
begin

abbreviation known :: "'a exec_world \<Rightarrow> bool" where
  "known w \<equiv> inv (xw_store w)"

definition verdict :: "task_id \<Rightarrow> 'a exec_world \<Rightarrow> (task_status \<times> pause_cause option \<times> string option) option" where
  "verdict i w = map_option verdict_column (row (xw_store w) i)"

text \<open>Observers and notifiers that leave the verdict of this row alone.\<close>

definition quiet :: "'a exec_cfg \<Rightarrow> task_id \<Rightarrow> bool" where
  "quiet cfg i \<longleftrightarrow> xc_api cfg = exec_api api
     \<and> (\<forall>meta kind. list_all (\<lambda>ob. lifted.harmless verdict_column i (ob meta kind)) (xc_observers cfg))
     \<and> (\<forall>t m. list_all (\<lambda>n. lifted.harmless verdict_column i (n t m)) (xc_notifiers cfg))"

lemma get_verdict:
  assumes "quiet cfg i" "known w"
  shows "known (fst (tx_get (xc_api cfg) k w))" "verdict i (fst (tx_get (xc_api cfg) k w)) = verdict i w"
  using lifted.get_reads [OF assms(2), of k] assms(1) by (simp_all add: quiet_def verdict_def)

lemma tell_verdict:
  assumes "quiet cfg i" "known w"
  shows "known (tell_observers cfg j st kind w) \<and> verdict i (tell_observers cfg j st kind w) = verdict i w"
proof -
  obtain w1 meta where l: "load_terminal_meta cfg j st w = (w1, meta)" by (metis surj_pair)
  have "known w1 \<and> verdict i w1 = verdict i w"
    using l get_verdict [OF assms, of "tj_id j"] lifted.now_keeps assms(1)
    by (auto simp: load_terminal_meta_def quiet_def verdict_def split: prod.splits sum.splits option.splits)
      (metis fst_conv)+
  then show ?thesis
    using lifted.harmless_fold [of verdict_column i "\<lambda>ob. ob meta kind" "xc_observers cfg" w1] assms(1)
    by (simp add: tell_observers_def l notify_observers_def quiet_def verdict_def)
qed

lemma settled_verdict:
  assumes "quiet cfg (tj_id j)" "known w" "row (xw_store w) (tj_id j) = Some t" "tk_status t = Running"
  shows "known (settle_verdict cfg j v w) \<and> verdict (tj_id j) (settle_verdict cfg j v w) = Some (written_verdict v t)"
proof -
  have api: "xc_api cfg = exec_api api" using assms(1) by (simp add: quiet_def)
  show ?thesis
  proof (cases v)
    case (TF_Paused c)
    from lifted.pause_writes [OF assms(2), of "tj_id j" c]
    have "known (pause_row cfg (tj_id j) c w)"
      "verdict (tj_id j) (pause_row cfg (tj_id j) c w) = Some (written_verdict v t)"
      using assms(3,4)
      by (auto simp: TF_Paused pause_row_def api verdict_def verdict_column_def pause_task_def written_verdict_def)
    with tell_verdict [OF assms(1)] show ?thesis by (simp add: TF_Paused settle_verdict_def)
  next
    case TF_Done
    from lifted.finish_writes [OF assms(2), of Done "tj_id j" None]
    have "known (finalize_task cfg (tj_id j) Done None w)"
      "verdict (tj_id j) (finalize_task cfg (tj_id j) Done None w) = Some (written_verdict v t)"
      using assms(3)
      by (auto simp: TF_Done finalize_task_def api verdict_def verdict_column_def finish_task_def written_verdict_def)
    with tell_verdict [OF assms(1)] show ?thesis by (simp add: TF_Done settle_verdict_def)
  next
    case (TF_Failed e)
    from lifted.finish_writes [OF assms(2), of Failed "tj_id j" "Some e"]
    have "known (finalize_task cfg (tj_id j) Failed (Some e) w)"
      "verdict (tj_id j) (finalize_task cfg (tj_id j) Failed (Some e) w) = Some (written_verdict v t)"
      using assms(3)
      by (auto simp: TF_Failed finalize_task_def api verdict_def verdict_column_def finish_task_def written_verdict_def)
    with tell_verdict [OF assms(1)] show ?thesis by (simp add: TF_Failed settle_verdict_def)
  qed
qed

lemma notified_verdict:
  assumes "quiet cfg i" "known w"
  shows "known (notify_completion cfg k oc err w) \<and> verdict i (notify_completion cfg k oc err w) = verdict i w"
proof -
  obtain w1 r where g: "tx_get (xc_api cfg) k w = (w1, r)" by (metis surj_pair)
  with get_verdict [OF assms, of k] have w1: "known w1" "verdict i w1 = verdict i w" by simp_all
  have "known (fold (\<lambda>n. n t m) (xc_notifiers cfg) w1)
      \<and> verdict i (fold (\<lambda>n. n t m) (xc_notifiers cfg) w1) = verdict i w1" for t m
    using lifted.harmless_fold [of verdict_column i "\<lambda>n. n t m" "xc_notifiers cfg" w1] assms(1) w1(1)
    by (simp add: quiet_def verdict_def)
  with w1 assms(2) show ?thesis
    by (simp add: notify_completion_def g split: sum.split option.split)
qed

lemma driven_verdict:
  assumes "quiet cfg (tj_id j)"
    and "run_with_timeout cfg j script (notify_observers (xc_observers cfg) (tj_meta j) TA_Started w) = (w2, oc)"
    and "known w2" "row (xw_store w2) (tj_id j) = Some t" "tk_status t = Running"
  shows "verdict (tj_id j) (drive_one_task cfg j script w) = Some (written_verdict (job_verdict j oc w2) t)"
proof -
  let ?v = "job_verdict j oc w2"
  define w3 where "w3 = settle_verdict cfg j ?v w2"
  define w4 where "w4 = signal_completion cfg j w3"
  define w5 where "w5 = w4\<lparr>xw_handles := AList.delete (tj_id j) (xw_handles w4)\<rparr>"
  have w3: "known w3" "verdict (tj_id j) w3 = Some (written_verdict ?v t)"
    using settled_verdict [OF assms(1,3-5)] by (simp_all add: w3_def)
  have w4: "known w4" "verdict (tj_id j) w4 = verdict (tj_id j) w3"
    using get_verdict [OF assms(1) w3(1), of "tj_id j"] w3(1)
    by (auto simp: w4_def signal_completion_def verdict_def split: prod.splits sum.splits option.splits)
  then have w5: "known w5" "verdict (tj_id j) w5 = verdict (tj_id j) w3"
    by (simp_all add: w5_def verdict_def)
  have fin: "verdict i (job_gone j u) = verdict i u" for i u
    by (simp add: job_gone_def release_permit_def verdict_def)
  have "drive_one_task cfg j script w = job_gone j (case ?v of
      TF_Paused _ \<Rightarrow> w5
    | TF_Done \<Rightarrow> notify_completion cfg (tj_id j) oc None w5
    | TF_Failed e \<Rightarrow> notify_completion cfg (tj_id j) oc (Some e) w5)"
    by (simp only: drive_one_task_def assms(2) Let_def prod.case w3_def w4_def w5_def)
  moreover have "verdict (tj_id j) (case u of
      TF_Paused _ \<Rightarrow> w5
    | TF_Done \<Rightarrow> notify_completion cfg (tj_id j) oc None w5
    | TF_Failed e \<Rightarrow> notify_completion cfg (tj_id j) oc (Some e) w5) = verdict (tj_id j) w5" for u
    using notified_verdict [OF assms(1) w5(1)] by (simp split: task_final.split)
  ultimately show ?thesis using w5(2) w3(2) by (simp only: fin)
qed

end

interpretation mem_executor: executor_store task_mem_api task_mem_inv task_mem_row task_mem_transcript ..

type_synonym mem_exec = "task_world exec_world"

definition leaves_verdict :: "task_id \<Rightarrow> (mem_exec \<Rightarrow> mem_exec) \<Rightarrow> bool" where
  "leaves_verdict i f \<longleftrightarrow> (\<forall>w. task_mem_inv (xw_store w) \<longrightarrow> task_mem_inv (xw_store (f w))
     \<and> map_option verdict_column (task_mem_row (xw_store (f w)) i)
       = map_option verdict_column (task_mem_row (xw_store w) i))"

lemma leaves_verdict_harmless: "mem_executor.lifted.harmless verdict_column i = leaves_verdict i"
  by (intro ext) (simp add: leaves_verdict_def mem_executor.lifted.harmless_def)

text \<open>C14: the end of a run is in its row. When a run whose row is still running ends, the row holds the
  verdict of its outcome: done, failed with the reason, or paused with the cause; observers and
  notifiers that leave these columns alone cannot blur it. A paused task is not announced: the
  notifiers are not called at all.\<close>

theorem verdict_recorded:
  assumes "xc_api cfg = exec_api task_mem_api"
    and "\<And>meta kind. list_all (\<lambda>ob. leaves_verdict (tj_id j) (ob meta kind)) (xc_observers cfg)"
    and "\<And>t m. list_all (\<lambda>n. leaves_verdict (tj_id j) (n t m)) (xc_notifiers cfg)"
    and "run_with_timeout cfg j script (notify_observers (xc_observers cfg) (tj_meta j) TA_Started w) = (w2, oc)"
    and "task_mem_inv (xw_store w2)" "task_mem_row (xw_store w2) (tj_id j) = Some t" "tk_status t = Running"
  shows "map_option verdict_column (task_mem_row (xw_store (drive_one_task cfg j script w)) (tj_id j))
       = Some (written_verdict (job_verdict j oc w2) t)
     \<and> (case job_verdict j oc w2 of
          TF_Paused _ \<Rightarrow>
            drive_one_task cfg j script w = drive_one_task (cfg\<lparr>xc_notifiers := []\<rparr>) j script w
        | _ \<Rightarrow> True)"
proof
  have "mem_executor.quiet cfg (tj_id j)"
    using assms(1-3) by (simp add: mem_executor.quiet_def leaves_verdict_harmless)
  from mem_executor.driven_verdict [OF this assms(4-7)]
  show "map_option verdict_column (task_mem_row (xw_store (drive_one_task cfg j script w)) (tj_id j))
       = Some (written_verdict (job_verdict j oc w2) t)"
    by (simp add: mem_executor.verdict_def)
  let ?cfg = "cfg\<lparr>xc_notifiers := []\<rparr>"
  have "run_with_timeout ?cfg j script v = run_with_timeout cfg j script v" for v
    by (simp add: run_with_timeout_def job_drain_env_def)
  moreover have "settle_verdict ?cfg j v u = settle_verdict cfg j v u" for v u
    by (cases v) (simp_all add: settle_verdict_def tell_observers_def load_terminal_meta_def
        pause_row_def finalize_task_def)
  moreover have "signal_completion ?cfg j u = signal_completion cfg j u" for u
    by (simp add: signal_completion_def)
  ultimately show "case job_verdict j oc w2 of
      TF_Paused _ \<Rightarrow> drive_one_task cfg j script w = drive_one_task ?cfg j script w
    | _ \<Rightarrow> True"
    using assms(4) by (simp add: drive_one_task_def Let_def split: task_final.split)
qed

section \<open>User cancels outlive a shutdown\<close>

text \<open>Everything that may happen to the reason cells after a run was launched.\<close>

inductive control_step :: "'s exec_world \<Rightarrow> 's exec_world \<Rightarrow> bool" where
  cancel: "control_step w (fst (do_cancel i w))"
| stamp: "control_step w (stamp_shutdown_reasons w)"
| fire_root: "control_step w (fire_root_cancel w)"
| time_out: "control_step w (fire_cancel c w)"
| launch: "launch_run cfg kn q t b w = Some (w', r) \<Longrightarrow>
    xw_cells (fst (xc_new_run_id cfg w)) = xw_cells w \<Longrightarrow> control_step w w'"
| other: "xw_cells w' = xw_cells w \<Longrightarrow> control_step w w'"

definition reasons_kept :: "'s exec_world \<Rightarrow> 's exec_world \<Rightarrow> bool" where
  "reasons_kept w w' \<longleftrightarrow> length (xw_cells w) \<le> length (xw_cells w')
     \<and> (\<forall>c<length (xw_cells w). opt_le (rc_reason (xw_cells w ! c)) (rc_reason (xw_cells w' ! c)))"

lemma reasons_kept_refl: "xw_cells w' = xw_cells w \<Longrightarrow> reasons_kept w w'"
  by (simp add: reasons_kept_def)

lemma reasons_kept_trans: "reasons_kept u v \<Longrightarrow> reasons_kept v w \<Longrightarrow> reasons_kept u w"
  unfolding reasons_kept_def by (meson le_trans less_le_trans opt_le_trans)

lemma stamp_reason_kept: "reasons_kept w (stamp_reason v c w)"
proof (cases "c < length (xw_cells w)")
  case True
  then show ?thesis
    by (auto simp: reasons_kept_def stamp_reason_def set_cell_def nth_list_update once_set_def opt_le_def
        split: option.split)
next
  case False
  then show ?thesis
    by (intro reasons_kept_refl) (simp add: stamp_reason_def set_cell_def list_update_beyond)
qed

lemma fire_cancel_kept: "reasons_kept w (fire_cancel c w)"
  by (cases "c < length (xw_cells w)")
    (auto simp: reasons_kept_def fire_cancel_def set_cell_def nth_list_update list_update_beyond)

lemma control_step_kept: "control_step w w' \<Longrightarrow> reasons_kept w w'"
proof (induction rule: control_step.induct)
  case (cancel w i)
  have "reasons_kept w (fire_cancel c (stamp_reason StopPattern c (w\<lparr>xw_handles := h\<rparr>)))" for c h
    by (rule reasons_kept_trans [OF reasons_kept_trans [OF reasons_kept_refl stamp_reason_kept] fire_cancel_kept])
      simp
  then show ?case by (simp add: do_cancel_def reasons_kept_refl split: option.split)
next
  case (stamp w)
  have "reasons_kept w (fold (\<lambda>(i, c). stamp_reason Run_State.Shutdown c) hs w)" for hs
    by (induction hs arbitrary: w) (auto intro: reasons_kept_refl reasons_kept_trans stamp_reason_kept)
  then show ?case by (simp add: stamp_shutdown_reasons_def)
next
  case (launch cfg kn q t b w w' r)
  then show ?case
    by (auto simp: launch_run_def xo_return_def drain_finished_def reasons_kept_def nth_append Let_def
        split: prod.splits)
next
  case (fire_root w)
  then show ?case by (simp add: reasons_kept_def fire_root_cancel_def)
qed (simp_all add: reasons_kept_refl fire_cancel_kept)

lemma control_run_kept: "control_step\<^sup>*\<^sup>* w w' \<Longrightarrow> reasons_kept w w'"
  by (induction rule: rtranclp_induct) (auto intro: reasons_kept_refl reasons_kept_trans control_step_kept)


section \<open>Children before parents\<close>

lemma depth_walk_le: "depth_walk n parents i \<le> n"
  by (induction n parents i rule: depth_walk.induct) (auto split: option.split)

lemma depth_walk_more:
  "depth_walk n parents i < n \<Longrightarrow> depth_walk (n + k) parents i = depth_walk n parents i"
  by (induction n parents i rule: depth_walk.induct) (auto split: option.splits)

lemma child_depth:
  assumes "parents i = Some (Some p)" "tree_depth parents p < max_depth_walk"
  shows "tree_depth parents p < tree_depth parents i"
proof -
  define n where "n = max_depth_walk - 1"
  have n: "max_depth_walk = Suc n" by (simp add: n_def max_depth_walk_def)
  have "depth_walk n parents p \<le> n" by (rule depth_walk_le)
  have "depth_walk (Suc n) parents p \<le> depth_walk n parents p"
  proof (cases "depth_walk n parents p < n")
    case True
    then show ?thesis using depth_walk_more [of n parents p 1] by simp
  next
    case False
    then show ?thesis using assms(2) depth_walk_le [of n parents p] by (simp add: tree_depth_def n)
  qed
  then show ?thesis using assms(1) by (simp add: tree_depth_def n)
qed

text \<open>A restart resumes children before their parents. The order in which paused tasks are resumed
  is a rearrangement of the selected ones in which no task comes after one of its children, unless
  its own chain of parents reaches the sixteen links at which the walk stops.\<close>

theorem children_resume_first:
  assumes "distinct (map (tk_id \<circ> fst) tasks)"
  shows "mset (order_children_first tasks) = mset tasks
    \<and> sorted_wrt (\<lambda>a b. tk_parent_task_id (fst b) = Some (tk_id (fst a))
        \<longrightarrow> max_depth_walk \<le> tree_depth (parent_links tasks) (tk_id (fst a)))
        (order_children_first tasks)"
proof
  show "mset (order_children_first tasks) = mset tasks" by (simp add: order_children_first_def)
  let ?d = "\<lambda>a. tree_depth (parent_links tasks) (tk_id (fst a))"
  have order: "order_children_first tasks = sort_key (\<lambda>a. - int (?d a)) tasks"
    by (simp add: order_children_first_def split_def)
  have "sorted_wrt (\<lambda>a b. ?d b \<le> ?d a) (order_children_first tasks)"
    using sorted_sort_key [of "\<lambda>a. - int (?d a)" tasks] by (simp add: order sorted_map)
  moreover have "parent_links tasks (tk_id (fst b)) = Some (tk_parent_task_id (fst b))"
    if "b \<in> set tasks" for b
  proof -
    have "distinct (map fst (rev (map (\<lambda>(t, _). (tk_id t, tk_parent_task_id t)) tasks)))"
      using assms by (simp add: rev_map [symmetric] split_def o_def)
    then show ?thesis
      unfolding parent_links_def using that by (auto simp: split_def intro: map_of_is_SomeI)
  qed
  then have "max_depth_walk \<le> ?d a" if "b \<in> set (order_children_first tasks)" "?d b \<le> ?d a"
      "tk_parent_task_id (fst b) = Some (tk_id (fst a))" for a b
    using that child_depth [of "parent_links tasks" "tk_id (fst b)" "tk_id (fst a)"]
    by (fastforce simp: order)
  ultimately show "sorted_wrt (\<lambda>a b. tk_parent_task_id (fst b) = Some (tk_id (fst a))
        \<longrightarrow> max_depth_walk \<le> ?d a) (order_children_first tasks)"
    by (elim sorted_wrt_mono_rel [rotated]) auto
qed

section \<open>Resuming from the row\<close>

definition canonical_target :: "model_target \<Rightarrow> bool" where
  "canonical_target t \<longleftrightarrow> target_of_dto (dto_of_target t) = t"

definition well_formed_request :: "task_request \<Rightarrow> bool" where
  "well_formed_request q \<longleftrightarrow> trim (sub_id (tq_subject q)) \<noteq> [] \<and> hm_wf (sub_attrs (tq_subject q))
     \<and> canonical_target (tq_model q) \<and> is_none_or canonical_target (tq_explicit_model q)
     \<and> is_none_or (\<lambda>m. model_id_new m = m) (tq_session_model_override q)"

lemma fold_with_attr:
  assumes "distinct (map fst (ys @ xs))"
  shows "fold (\<lambda>(k, v). with_attr k v) xs \<lparr>sub_id = s, sub_attrs = ys\<rparr>
    = \<lparr>sub_id = s, sub_attrs = ys @ xs\<rparr>"
  using assms
proof (induction xs arbitrary: ys)
  case (Cons x xs)
  obtain k v where x: "x = (k, v)" by (metis surj_pair)
  have "AList.update k v ys = ys @ [(k, v)]"
    using Cons.prems by (induction ys) (auto simp: x)
  then show ?case using Cons.IH [of "ys @ [(k, v)]"] Cons.prems by (simp add: x with_attr_def)
qed simp

lemma rebuild_built:
  assumes "well_formed_request q"
  shows "rebuild_request (build_task_record i now q) = Some (q\<lparr>tq_messages := []\<rparr>)"
proof -
  obtain s as where sub: "tq_subject q = \<lparr>sub_id = s, sub_attrs = as\<rparr>" by (cases "tq_subject q")
  have "rebuild_subject (build_resume_spec q) = Some (tq_subject q)"
    using assms fold_with_attr [of "[]" as s]
    by (simp add: rebuild_subject_def build_resume_spec_def well_formed_request_def subject_try_new_def
        sub hm_wf_def)
  moreover have "map_option (target_of_dto \<circ> dto_of_target) (tq_explicit_model q) = tq_explicit_model q"
    "map_option model_id_new (tq_session_model_override q) = tq_session_model_override q"
    using assms by (cases "tq_explicit_model q"; cases "tq_session_model_override q";
        simp add: well_formed_request_def canonical_target_def)+
  ultimately show ?thesis
    using assms
    by (simp add: rebuild_request_def build_task_record_def well_formed_request_def canonical_target_def)
      (simp add: build_resume_spec_def canonical_target_def option.map_comp)
qed

lemma rebuild_effect: "task_effect a k t = Some t' \<Longrightarrow> rebuild_request t' = rebuild_request t"
  by (cases a) (auto simp: task_effect_def rebuild_request_def finish_task_def pause_task_def
      resume_task_def fail_stuck_def split: if_splits)

text \<open>A paused task is resumed from its row alone. The request rebuilt from the row that a spawn
  inserted is the request of the spawn, but for its messages, which the transcript replaces; no
  operation of the store changes that, whatever it does to the row.\<close>

theorem resume_request_roundtrip:
  assumes "well_formed_request q"
  shows "case fold (\<lambda>a r. Option.bind r (task_effect a i)) ops (Some (build_task_record i now q)) of
      Some t \<Rightarrow> rebuild_request t = Some (q\<lparr>tq_messages := []\<rparr>)
    | None \<Rightarrow> True"
proof -
  have "fold (\<lambda>a r. Option.bind r (task_effect a i)) ops None = None" for ops by (induction ops) simp_all
  then have "rebuild_request t' = rebuild_request t"
    if "fold (\<lambda>a r. Option.bind r (task_effect a i)) ops (Some t) = Some t'" for t t'
    using that by (induction ops arbitrary: t) (auto simp: rebuild_effect split: option.split
        elim!: Option.bind_eq_Some_conv [THEN iffD1, elim_format] dest: rebuild_effect,
        metis option.exhaust rebuild_effect option.distinct(1))
  then show ?thesis using rebuild_built [OF assms, of i now] by (simp split: option.split)
qed

section \<open>Transcripts without open calls\<close>

definition open_calls :: "message list \<Rightarrow> string list" where
  "open_calls ms = map fst (dangling_calls ms)"

definition call_list :: "message \<Rightarrow> tool_call list" where
  "call_list m = (case m of Assistant _ calls \<Rightarrow> calls | _ \<Rightarrow> [])"

definition is_answer :: "message \<Rightarrow> bool" where
  "is_answer m = (case m of ToolResult _ _ _ \<Rightarrow> True | _ \<Rightarrow> False)"

lemma result_ids_append [simp]: "result_ids (xs @ ys) = result_ids xs @ result_ids ys"
  by (simp add: result_ids_def List.map_filter_def)

lemma result_ids_repair [simp]:
  "result_ids (map (\<lambda>(i, n). ToolResult i (f n) True) xs) = map fst xs"
  by (induction xs) (auto simp: result_ids_def List.map_filter_def)

lemma dangling_alt:
  "dangling_calls ms = map (\<lambda>c. (tc_id c, tc_name c))
     (filter (\<lambda>c. tc_id c \<notin> set (result_ids ms)) (concat (map call_list ms)))"
  by (simp add: dangling_calls_def call_list_def [abs_def] Let_def)

lemma repaired_calls:
  "concat (map call_list (ms @ map (\<lambda>(i, n). ToolResult i (f n) True) xs)) = concat (map call_list ms)"
  by (simp add: case_prod_beta o_def call_list_def)

lemma repair_closes: "dangling_calls (fst (repair_dangling ms children)) = []"
proof -
  have "tc_id c \<in> set (result_ids ms) \<union> fst ` set (dangling_calls ms)" if "c \<in> set (concat (map call_list ms))" for c
    using that by (force simp: dangling_alt)
  then show ?thesis
    by (auto simp: repair_dangling_def Let_def dangling_alt [of "_ @ _"] repaired_calls filter_empty_conv
        simp del: map_append concat_append)
qed

lemma filtered_calls:
  "concat (map call_list (List.map_filter (filter_message access removed) ms))
     = filter (\<lambda>c. tool_allows access (tc_name c)) (concat (map call_list ms))"
proof (induction ms)
  case (Cons m ms)
  then show ?case
    by (cases m) (auto simp: List.map_filter_def filter_message_def call_list_def Let_def)
qed (simp add: List.map_filter_def)

lemma filtered_results:
  "result_ids (List.map_filter (filter_message access removed) ms)
     = filter (\<lambda>i. i \<notin> set removed) (result_ids ms)"
proof (induction ms)
  case (Cons m ms)
  then show ?case
    by (cases m) (auto simp: List.map_filter_def filter_message_def result_ids_def Let_def)
qed (simp add: List.map_filter_def result_ids_def)

lemma removed_alt:
  "set (removed_tool_call_ids ms access)
     = tc_id ` {c \<in> set (concat (map call_list ms)). \<not> tool_allows access (tc_name c)}"
  by (auto simp: removed_tool_call_ids_def call_list_def [abs_def])

lemma filter_keeps_answers:
  assumes "distinct (map tc_id (concat (map call_list ms)))" "dangling_calls ms = []"
  shows "dangling_calls (filter_messages_for_tool_access ms access) = []"
proof -
  have "tc_id c \<notin> set (removed_tool_call_ids ms access)"
    if "c \<in> set (concat (map call_list ms))" "tool_allows access (tc_name c)" for c
    using that inj_onD [of tc_id "set (concat (map call_list ms))"] assms(1)
    unfolding removed_alt distinct_map by blast
  with assms(2) show ?thesis
    by (auto simp: filter_messages_for_tool_access_def dangling_alt filtered_calls filtered_results
        filter_empty_conv simp del: set_concat)
qed

text \<open>A resumed run starts from a transcript a provider accepts. The repaired transcript continues
  the saved one, no call in it lacks an answer, and repairing it again changes nothing, so that a
  crash between the repair and the launch is harmless; the request sent to the kernel holds only
  calls of tools the task may use, and, if call ids are not repeated, still an answer to each.\<close>

theorem resumed_transcript_closed:
  assumes "fst (repair_dangling ms children) = repaired"
    and "rr_messages (build_run_request run_id (q\<lparr>tq_messages := repaired\<rparr>) t) = sent"
  shows "(\<exists>answers. repaired = ms @ answers \<and> list_all is_answer answers)
    \<and> dangling_calls repaired = []
    \<and> repair_dangling repaired later_children = (repaired, False)
    \<and> list_all (\<lambda>c. tool_allows (tq_tool_access q) (tc_name c)) (concat (map call_list sent))
    \<and> (distinct (map tc_id (concat (map call_list ms))) \<longrightarrow> dangling_calls sent = [])"
proof (intro conjI impI)
  note closed = repair_closes [of ms children, unfolded assms(1)]
  show "dangling_calls repaired = []" by (fact closed)
  then show "repair_dangling repaired later_children = (repaired, False)"
    by (simp add: repair_dangling_def)
  show "\<exists>answers. repaired = ms @ answers \<and> list_all is_answer answers"
    using assms(1) by (auto simp: repair_dangling_def Let_def list_all_iff is_answer_def split: if_splits)
  have sent: "sent = (if filter_messages_for_tool_access repaired (tq_tool_access q) = []
      then [User [Text (tq_prompt q)] None]
      else filter_messages_for_tool_access repaired (tq_tool_access q))"
    using assms(2) by (auto simp: build_run_request_def Let_def)
  have "call_list (User c ts) = []" for c ts by (simp add: call_list_def)
  then show "list_all (\<lambda>c. tool_allows (tq_tool_access q) (tc_name c)) (concat (map call_list sent))"
    by (auto simp: sent list_all_iff filter_messages_for_tool_access_def filtered_calls tool_allows_def
        simp del: set_concat)
  assume "distinct (map tc_id (concat (map call_list ms)))"
  moreover have "concat (map call_list repaired) = concat (map call_list ms)"
    using assms(1) by (auto simp: repair_dangling_def Let_def call_list_def split: if_splits)
  ultimately have "dangling_calls (filter_messages_for_tool_access repaired (tq_tool_access q)) = []"
    using filter_keeps_answers closed by metis
  moreover have "dangling_calls [User c ts] = []" for c ts by (simp add: dangling_alt call_list_def)
  ultimately show "dangling_calls sent = []" by (simp add: sent)
qed

section \<open>A task adopted twice\<close>

text \<open>
  \<open>resume_paused\<close> calls its passes idempotent. With the default stale threshold of zero they are not: the
  row of a task that an earlier pass claimed and launched counts as an orphan in the next pass, which
  pauses it again as crashed, and then its second claim succeeds too, beside the running job.
\<close>

lemma second_adoption_pauses_running:
  assumes "claim_for_resume c i m s = (s', True)" "keyed_tasks s" "c < t0"
  shows "map_option (\<lambda>t. (tk_status t, tk_pause_cause t))
           (map_of (ts_tasks (fst (task_pause_orphans t0 now default_orphan_stale_secs s'))) i)
         = Some (Task_Store.Paused, Some Crash)"
proof -
  let ?claim = "Task_Claim c i m" and ?adopt = "Task_Orphans t0 now default_orphan_stale_secs"
  obtain t where t: "map_of (ts_tasks s) i = Some t"
    using assms(1) by (auto simp: claim_for_resume_def split: option.splits)
  have s': "s' = task_step ?claim s" using assms(1) by (simp add: task_step_def)
  obtain t' where t': "map_of (ts_tasks s') i = Some t'" "tk_status t' = Running" "tk_updated_at t' = c"
    using task_step_effect [OF assms(2) t, of ?claim] assms(1) t
    by (auto simp: s' task_effect_def resume_task_def claim_for_resume_def Let_def split: if_splits)
  have "keyed_tasks s'" unfolding s' by (rule task_step_keyed [OF assms(2)])
  with t' assms(3) task_step_effect [of s' i t' ?adopt] show ?thesis
    by (simp add: task_effect_def stale_running_def default_orphan_stale_secs_def pause_task_def
        task_step_def seconds_def)
qed

section \<open>A restart returns\<close>

lemma scan_loop_lists:
  assumes "\<And>p w. tx_list_paused (xc_api cfg) p w = (w, Inr (paginate p (listing w)))" "0 < pg_limit p"
  shows "scan_loop cfg p acc w = Some (w, Inr (acc @ drop (pg_offset p) (listing w)))"
  using assms(2)
proof (induction "length (listing w) - pg_offset p" arbitrary: p acc rule: less_induct)
  case less
  let ?batch = "take (pg_limit p) (drop (pg_offset p) (listing w))"
  have batch: "paginate p (listing w) = ?batch" by (simp add: paginate_def skip_take_def)
  show ?case
  proof (cases "length ?batch < pg_limit p")
    case True
    then have "?batch = drop (pg_offset p) (listing w)" by simp
    with True show ?thesis by (subst scan_loop.simps) (simp only: assms(1) batch prod.case sum.case if_True)
  next
    case False
    then have "length (listing w) - pg_offset (page_next p) < length (listing w) - pg_offset p"
      using less.prems by (simp add: page_next_def)
    from less.hyps [OF this, of "acc @ ?batch"] less.prems
    have "scan_loop cfg (page_next p) (acc @ ?batch) w
        = Some (w, Inr ((acc @ ?batch) @ drop (pg_offset p + pg_limit p) (listing w)))"
      by (simp add: page_next_def)
    moreover have "?batch @ drop (pg_offset p + pg_limit p) (listing w) = drop (pg_offset p) (listing w)"
      by (metis append_take_drop_id drop_drop add.commute)
    ultimately show ?thesis using False by (subst scan_loop.simps) (simp add: assms(1) batch)
  qed
qed

text \<open>Operations that return and leave the permits and the shutdown flags alone.\<close>

definition calm :: "('s, 'a) exec_op \<Rightarrow> bool" where
  "calm op \<longleftrightarrow> (\<forall>w. \<exists>w' r. op w = Some (w', r) \<and> xw_permits w' = xw_permits w)"

lemma calm_bind: "calm op \<Longrightarrow> (\<And>x. calm (f x)) \<Longrightarrow> calm (xo_bind op f)"
proof (unfold calm_def, intro allI)
  fix w
  assume "\<forall>w. \<exists>w' r. op w = Some (w', r) \<and> xw_permits w' = xw_permits w"
    and f: "\<And>x. \<forall>w. \<exists>w' r. f x w = Some (w', r) \<and> xw_permits w' = xw_permits w"
  then obtain w1 r where "op w = Some (w1, r)" "xw_permits w1 = xw_permits w" by blast
  then show "\<exists>w' r. xo_bind op f w = Some (w', r) \<and> xw_permits w' = xw_permits w"
    using f by (cases r) (simp_all add: xo_bind_def, metis)
qed

lemma calm_return [simp]: "calm (xo_return x)"
  by (simp add: calm_def xo_return_def)

lemma calm_store [simp]: "calm (xo_store (on_store op))"
  by (auto simp: calm_def xo_store_def op_map_err_def on_store_def split: prod.split)

lemma exec_api_calm [simp]:
  "calm (xo_store (tx_get (exec_api api) i))" "calm (xo_store (tx_claim (exec_api api) i m))"
  "calm (xo_store (tx_finish (exec_api api) i st e))" "calm (xo_store (tx_load (exec_api api) i))"
  "calm (xo_store (tx_children (exec_api api) i pg))" "calm (xo_store (tx_orphans (exec_api api) n))"
  "calm (xo_store (tx_insert (exec_api api) t))"
  by (simp_all add: exec_api_def)

definition draws_quietly :: "'s exec_cfg \<Rightarrow> bool" where
  "draws_quietly cfg \<longleftrightarrow> (\<forall>w. xw_permits (fst (xc_new_run_id cfg w)) = xw_permits w)"

lemma calm_launch: "draws_quietly cfg \<Longrightarrow> calm (launch_run cfg kn q t b)"
  by (auto simp: calm_def launch_run_def draws_quietly_def drain_finished_def xo_return_def Let_def
      split: prod.split) (metis fst_conv)

lemma calm_resume_claimed:
  assumes "xc_api cfg = exec_api api" "draws_quietly cfg"
  shows "calm (resume_claimed cfg kn t q)"
proof -
  have "calm (\<lambda>w. launch_run cfg kn q' t False
      (if c then fst (tx_save (xc_api cfg) i ms w) else w))" for q' c i ms
    using calm_launch [OF assms(2)] by (auto simp: calm_def assms(1) exec_api_def on_store_def split: prod.split)
      (metis exec_world.select_convs exec_world.surjective exec_world.update_convs)+
  then show ?thesis
    unfolding resume_claimed_def by (intro calm_bind) (simp_all add: assms(1) case_prod_beta Let_def)
qed

text \<open>Operations that return and take at most one permit, if there is one.\<close>

definition modest :: "('s, 'a) exec_op \<Rightarrow> bool" where
  "modest op \<longleftrightarrow> (\<forall>w. 0 < xw_permits w \<longrightarrow>
     (\<exists>w' r. op w = Some (w', r) \<and> xw_permits w \<le> xw_permits w' + 1))"

lemma calm_modest: "calm op \<Longrightarrow> modest op"
  unfolding calm_def modest_def by (metis le_add1)

lemma modest_permit:
  assumes "calm op"
  shows "modest (xo_bind (acquire_spawn_permit cfg) (\<lambda>_. holding_permit launched op))"
proof (unfold modest_def, intro allI impI)
  fix w :: "'a exec_world"
  assume "0 < xw_permits w"
  moreover obtain w' r where "op (w\<lparr>xw_permits := xw_permits w - 1\<rparr>) = Some (w', r)"
      "xw_permits w' = xw_permits w - 1"
    using assms unfolding calm_def by (metis exec_world.select_convs(4) exec_world.surjective exec_world.update_convs(4))
  ultimately show "\<exists>w' r. xo_bind (acquire_spawn_permit cfg) (\<lambda>_. holding_permit launched op) w = Some (w', r)
      \<and> xw_permits w \<le> xw_permits w' + 1"
    by (cases r) (auto simp: xo_bind_def acquire_spawn_permit_def holding_permit_def xo_fail_def
        xo_return_def release_permit_def)
qed

lemma resume_one_modest:
  assumes "xc_api cfg = exec_api api" "draws_quietly cfg"
  shows "modest (resume_one cfg kn t)"
proof (cases "rebuild_request t")
  case None
  have "calm (resume_one cfg kn t)"
    by (auto simp: resume_one_def None assms(1) intro!: calm_bind)
  then show ?thesis by (rule calm_modest)
next
  case (Some q)
  have "calm (fail_when_cap_exhausted cfg i)" for i
    unfolding fail_when_cap_exhausted_def
    by (intro calm_bind) (auto simp: assms(1) split: option.split)
  then show ?thesis
    unfolding resume_one_def Some option.case
    by (intro modest_permit calm_bind) (auto simp: assms(1) intro!: calm_bind calm_resume_claimed [OF assms])
qed

lemma resume_each_returns:
  assumes "xc_api cfg = exec_api api" "draws_quietly cfg" "length ts \<le> xw_permits w"
  shows "\<exists>w' ids. resume_each cfg ts w = Some (w', Inr ids)"
  using assms(3)
proof (induction ts arbitrary: w)
  case (Cons tk ts)
  obtain t kn where tk: "tk = (t, kn)" by (metis surj_pair)
  obtain w' r where "resume_one cfg kn t w = Some (w', r)" "xw_permits w \<le> xw_permits w' + 1"
    using resume_one_modest [OF assms(1,2), of kn t] Cons.prems unfolding modest_def by force
  moreover from this Cons obtain w2 ids where "resume_each cfg ts w' = Some (w2, Inr ids)" by fastforce
  ultimately show ?case by (simp add: tk xo_bind_def xo_return_def)
qed (simp add: xo_return_def)

lemma orphans_keep_count:
  "\<exists>w' ids. tx_orphans (exec_api task_mem_api) n w = (w', Inr ids) \<and> xw_permits w' = xw_permits w
     \<and> length (ts_tasks (mw_store (xw_store w'))) = length (ts_tasks (mw_store (xw_store w)))"
proof -
  have "length (AList.map_entry k f m) = length m" for k f and m :: "(task_id, task) hmap"
    by (induction m) simp_all
  then have "length (ts_tasks (fold (\<lambda>i. modify_task i f) us s)) = length (ts_tasks s)" for f us s
    by (induction us arbitrary: s) (simp_all add: modify_task_def hm_modify_def)
  then show ?thesis
    by (simp add: exec_api_def on_store_def task_mem_api_def task_mem_orphans_def on_tasks_def ok_def
        task_pause_orphans_def mem_now_def Let_def)
qed

lemma ordered_length [simp]: "length (order_children_first ts) = length ts"
  by (simp add: order_children_first_def)

text \<open>C16: a restart comes to an end. The scan of the paused rows visits every page and returns each
  paused task once, oldest first, without changing the store; and with a permit for every row
  of the store the whole restart returns the ids of what it launched: it waits for no permit.\<close>

theorem restart_returns:
  assumes "xc_api cfg = exec_api task_mem_api" "draws_quietly cfg"
    and "length (ts_tasks (mw_store (xw_store w))) \<le> xw_permits w"
  shows "scan_paused cfg w = Some (w, Inr (sort_key tk_created_at
           (filter (\<lambda>t. tk_status t = Task_Store.Paused) (hm_values (ts_tasks (mw_store (xw_store w)))))))
    \<and> (\<exists>w' ids. do_resume_paused cfg pick w = Some (w', Inr ids))"
proof
  let ?paused = "\<lambda>w. sort_key tk_created_at (filter (\<lambda>t. tk_status t = Task_Store.Paused)
      (hm_values (ts_tasks (mw_store (xw_store w)))))"
  have "tx_list_paused (xc_api cfg) p v = (v, Inr (paginate p (?paused v)))" for p v
    by (simp add: assms(1) exec_api_def on_store_def task_mem_api_def task_list_by_status_def list_page_def)
  then have scan: "scan_paused cfg v = Some (v, Inr (?paused v))" for v
    using scan_loop_lists [of cfg ?paused "page_first scan_page_size" "[]" v]
    by (simp add: scan_paused_def page_first_def scan_page_size_def)
  then show "scan_paused cfg w = Some (w, Inr (?paused w))" .
  obtain v ids where v: "tx_orphans (xc_api cfg) (xc_orphan_stale_secs cfg) w = (v, Inr ids)"
    "xw_permits v = xw_permits w"
    "length (ts_tasks (mw_store (xw_store v))) = length (ts_tasks (mw_store (xw_store w)))"
    using orphans_keep_count [of "xc_orphan_stale_secs cfg" w] by (auto simp: assms(1))
  let ?chosen = "List.map_filter (\<lambda>t. map_option (Pair t) (pick t)) (?paused v)"
  have "length ?chosen \<le> length (?paused v)"
    unfolding List.map_filter_def length_map by (rule length_filter_le)
  also have "\<dots> \<le> xw_permits v"
    using v(2,3) assms(3) length_filter_le [of _ "hm_values (ts_tasks (mw_store (xw_store v)))"]
    by (simp add: hm_values_def) (meson le_trans)
  finally obtain w' ids' where "resume_each cfg (order_children_first ?chosen) v = Some (w', Inr ids')"
    using resume_each_returns [OF assms(1,2), of "order_children_first ?chosen" v] by auto
  then show "\<exists>w' ids. do_resume_paused cfg pick w = Some (w', Inr ids)"
    by (simp add: do_resume_paused_def xo_bind_def xo_store_def op_map_err_def v scan)
qed

section \<open>Witnesses\<close>

definition sample_request :: task_request where
  "sample_request = \<lparr>tq_owner = ''u'', tq_subject = \<lparr>sub_id = ''u'', sub_attrs = [(''a'', ''b'')]\<rparr>,
     tq_name = Some ''n'', tq_prompt = ''go'', tq_model = Provider ''p'' ''m'', tq_explicit_model = Some (Id ''m''),
     tq_session_model_override = None, tq_reasoning_effort = None, tq_system_prompt = Some ''s'',
     tq_messages = [User [Text ''old''] None], tq_parent_session_id = None, tq_parent_task_id = None,
     tq_context_mode = None, tq_max_turns = Some 3, tq_tool_access = Access_All\<rparr>"

definition sample_run :: task_job where
  "sample_run = \<lparr>tj_id = ''t'', tj_cell = 0, tj_kernel = 0,
     tj_request = build_run_request ''r'' sample_request sample_task,
     tj_meta = meta_from_task sample_task ''r'', tj_waiter = False, tj_access = Access_All\<rparr>"

definition sample_exec :: mem_exec where
  "sample_exec = \<lparr>xw_store = \<lparr>mw_store = sample_tasks, mw_ids = (\<lambda>n. ''x''), mw_drawn = 0,
       mw_clock = int, mw_ticks = 0\<rparr>,
     xw_cancel = False, xw_pause = False, xw_permits = 4,
     xw_cells = [\<lparr>rc_cancelled = False, rc_reason = None\<rparr>], xw_handles = [(''t'', 0)],
     xw_jobs = [sample_run], xw_joinset = [''t''], xw_signalled = []\<rparr>"

lemma resume_request_roundtrip_witness:
  "well_formed_request sample_request
   \<and> rebuild_request (build_task_record ''t'' 0 sample_request) = Some (sample_request\<lparr>tq_messages := []\<rparr>)"
proof -
  have "well_formed_request sample_request"
    by code_simp
  with resume_request_roundtrip [OF this, of "''t''" "[]" 0] show ?thesis by simp
qed

lemma verdict_recorded_witness:
  "map_option verdict_column (task_mem_row (xw_store (drive_one_task
     (task_executor_new (exec_api task_mem_api) (\<lambda>w. (w, ''r''))) sample_run
     \<lparr>rn_items = [(id, Inr (Token ''hi'')), (id, Inr (Final ''hi''))], rn_end = Drained False\<rparr> sample_exec)) ''t'')
   = Some (Done, None, None)"
proof -
  let ?cfg = "task_executor_new (exec_api task_mem_api) (\<lambda>w. (w, ''r'')) :: task_world exec_cfg"
  let ?script = "\<lparr>rn_items = [(id, Inr (Token ''hi'')), (id, Inr (Final ''hi''))], rn_end = Drained False\<rparr> :: task_world run_script"
  let ?fin = "run_with_timeout ?cfg sample_run ?script
      (notify_observers (xc_observers ?cfg) (tj_meta sample_run) TA_Started sample_exec)"
  have "job_verdict sample_run (snd ?fin) (fst ?fin) = TF_Done" by code_simp
  moreover have "map_option tk_status (task_mem_row (xw_store (fst ?fin)) ''t'') = Some Running"
    by code_simp
  moreover have "map (\<lambda>(k, t). (k, tk_id t)) (ts_tasks (mw_store (xw_store (fst ?fin)))) = [(''t'', ''t'')]"
    by code_simp
  then have "task_mem_inv (xw_store (fst ?fin))" by (auto simp: keyed_tasks_def hm_wf_def split: if_splits)
  ultimately show ?thesis
    using verdict_recorded [of ?cfg sample_run ?script sample_exec "fst ?fin" "snd ?fin"]
    by (auto simp: task_executor_new_def written_verdict_def sample_run_def)
qed

lemma children_resume_first_witness:
  "mset (order_children_first
     [(sample_task, 0),
      (sample_task\<lparr>tk_id := ''k'', tk_parent_task_id := Some ''t''\<rparr>, 1)])
   = mset [(sample_task, 0),
      (sample_task\<lparr>tk_id := ''k'', tk_parent_task_id := Some ''t''\<rparr>, 1)]"
  by (rule children_resume_first [THEN conjunct1]) (simp add: sample_task_def)

lemma resumed_transcript_closed_witness:
  "dangling_calls (rr_messages (build_run_request ''r'' (sample_request\<lparr>tq_messages :=
     fst (repair_dangling [Assistant [] [\<lparr>tc_id = ''1'', tc_name = ''x'', tc_args = JNull, tc_thought_signature = None\<rparr>]] [])\<rparr>)
     sample_task)) = []"
  using resumed_transcript_closed [OF refl refl,
      of "[Assistant [] [\<lparr>tc_id = ''1'', tc_name = ''x'', tc_args = JNull, tc_thought_signature = None\<rparr>]]"]
  by (simp add: call_list_def)


lemma restart_returns_witness:
  "\<exists>w' ids. do_resume_paused (task_executor_new (exec_api task_mem_api) (\<lambda>w. (w, ''r'')))
     (\<lambda>t. Some 0) sample_exec = Some (w', Inr ids)"
  by (rule restart_returns [THEN conjunct2])
    (simp_all add: task_executor_new_def draws_quietly_def sample_exec_def sample_tasks_def)

end
