(* ===== verification/Rust_Parse.thy ===== *)
theory Rust_Parse
  imports Rust_Text
begin

text \<open>
  The parsing functions of the standard library that several components use: \<open>split_whitespace\<close>,
  decimal \<open>parse\<close> of unsigned integers, \<open>split\<close> on a character with its inverse, and the ASCII case
  functions.
\<close>

section \<open>Words\<close>

fun span_word :: "string \<Rightarrow> string \<times> string" where
  "span_word [] = ([], [])"
| "span_word (c # s) =
     (if strip_one ws_encodings (c # s) \<noteq> None then ([], c # s)
      else (case span_word s of (w, r) \<Rightarrow> (c # w, r)))"

lemma span_word_append: "fst (span_word s) @ snd (span_word s) = s"
  by (induction s rule: span_word.induct) (auto split: prod.splits)

lemma strip_one_Nil [simp]: "strip_one ws [] = None"
  by (induction ws) (auto simp: bytes_of_def)

lemma trim_start_length: "length (trim_start s) \<le> length s"
proof -
  have "length (strip_while ws s) \<le> length s" for ws
  proof (induction ws s rule: strip_while.induct)
    case (1 ws s)
    show ?case
    proof (cases "strip_one ws s")
      case None
      then show ?thesis by (subst strip_while.simps) simp
    next
      case (Some r)
      with 1 [OF this] strip_one_shorter [OF this] show ?thesis by (subst strip_while.simps) simp
    qed
  qed
  then show ?thesis by (simp add: trim_start_def)
qed

lemma span_word_rest:
  assumes "trim_start s = c # t"
  shows "length (snd (span_word (c # t))) < length s"
proof -
  have "strip_one ws_encodings (c # t) = None"
    using strip_while_stop [of ws_encodings s] assms by (simp add: trim_start_def)
  then have "length (snd (span_word (c # t))) \<le> length t"
    using arg_cong [OF span_word_append [of t], of length] by (auto split: prod.split)
  with trim_start_length [of s] assms show ?thesis by simp
qed

function split_whitespace :: "string \<Rightarrow> string list" where
  "split_whitespace s = (case trim_start s of
       [] \<Rightarrow> []
     | c # t \<Rightarrow> fst (span_word (c # t)) # split_whitespace (snd (span_word (c # t))))"
  by pat_completeness auto
termination
  by (relation "measure length") (auto simp: span_word_rest simp del: span_word.simps)

declare split_whitespace.simps [simp del]

section \<open>Numbers\<close>

definition is_digit :: "char \<Rightarrow> bool" where
  "is_digit c \<longleftrightarrow> 48 \<le> (of_char c :: nat) \<and> (of_char c :: nat) \<le> 57"

definition digits_value :: "string \<Rightarrow> nat" where
  "digits_value s = foldl (\<lambda>n c. n * 10 + (of_char c - 48)) 0 s"

text \<open>\<open>str::parse\<close> into an unsigned type whose largest value is given: a plus sign may lead.\<close>

definition parse_unsigned :: "nat \<Rightarrow> string \<Rightarrow> nat option" where
  "parse_unsigned largest s =
     (let ds = (case s of c # d # t \<Rightarrow> if c = CHR ''+'' then d # t else s | _ \<Rightarrow> s)
      in if ds = [] \<or> \<not> list_all is_digit ds then None
         else if digits_value ds \<le> largest then Some (digits_value ds) else None)"

lemma digit_char_props:
  assumes "d < 10"
  shows "is_digit (digit_char d)" "(of_char (digit_char d) :: nat) = 48 + d"
  using assms by (simp_all add: is_digit_def digit_char_def)

lemma show_nat_digits: "list_all is_digit (show_nat n)"
  by (induction n rule: show_nat.induct) (subst show_nat.simps, simp add: digit_char_props)

lemma digits_value_snoc: "digits_value (s @ [c]) = digits_value s * 10 + (of_char c - 48)"
  by (simp add: digits_value_def)

lemma digits_value_show: "digits_value (show_nat n) = n"
proof (induction n rule: show_nat.induct)
  case (1 n)
  show ?case
  proof (cases "n < 10")
    case True
    then show ?thesis by (subst show_nat.simps) (simp add: digits_value_def digit_char_props)
  next
    case False
    with 1 show ?thesis by (subst show_nat.simps) (simp add: digits_value_snoc digit_char_props)
  qed
qed

lemma parse_show [simp]: "n \<le> largest \<Longrightarrow> parse_unsigned largest (show_nat n) = Some n"
proof -
  assume "n \<le> largest"
  have "(case show_nat n of c # d # t \<Rightarrow> if c = CHR ''+'' then d # t else show_nat n | _ \<Rightarrow> show_nat n)
      = show_nat n"
    using show_nat_digits [of n] by (auto split: list.splits simp: is_digit_def)
  with \<open>n \<le> largest\<close> show_nat_digits [of n] show ?thesis
    by (simp add: parse_unsigned_def digits_value_show)
qed

lemma digits_avoid: "list_all is_digit s \<Longrightarrow> \<not> is_digit c \<Longrightarrow> c \<notin> set s"
  by (auto simp: list_all_iff)

lemma show_nat_avoids: "\<not> is_digit c \<Longrightarrow> c \<notin> set (show_nat n)"
  by (rule digits_avoid [OF show_nat_digits])

section \<open>Splitting and joining\<close>

lemma split_on_plain: "d \<notin> set s \<Longrightarrow> split_on d s = [s]"
  by (induction s) auto

lemma split_on_append: "d \<notin> set p \<Longrightarrow> split_on d (p @ d # s) = p # split_on d s"
  by (induction p) auto

lemma split_join:
  "ps \<noteq> [] \<Longrightarrow> list_all (\<lambda>p. d \<notin> set p) ps \<Longrightarrow> split_on d (join_with [d] ps) = ps"
  by (induction "[d]" ps rule: join_with.induct) (simp_all add: split_on_plain split_on_append)

lemma split_once_at: "d \<notin> set a \<Longrightarrow> split_once d (a @ d # b) = Some (a, b)"
  by (simp add: split_once_Some)

section \<open>ASCII case\<close>

definition ascii_lower :: "char \<Rightarrow> char" where
  "ascii_lower c = (if 65 \<le> (of_char c :: nat) \<and> (of_char c :: nat) \<le> 90 then char_of ((of_char c :: nat) + 32) else c)"

definition to_ascii_lowercase :: "string \<Rightarrow> string" where
  "to_ascii_lowercase s = map ascii_lower s"

definition eq_ignore_ascii_case :: "string \<Rightarrow> string \<Rightarrow> bool" where
  "eq_ignore_ascii_case s t \<longleftrightarrow> to_ascii_lowercase s = to_ascii_lowercase t"

end
