(* ===== verification/Cron_Schedule.thy ===== *)
theory Cron_Schedule
  imports Cron_Store Rust_Parse
begin

text \<open>
  When a cron job fires next (\<open>crabgent-cron/src/schedule.rs\<close>). Parsing a cron expression, finding its
  next time, time zones and the range of representable times belong to the \<open>cron\<close>, \<open>chrono-tz\<close> and
  \<open>chrono\<close> crates, which enter as a record of functions. What this crate does itself is the rewriting
  of POSIX expressions, whose weekdays count from zero, into the form of the \<open>cron\<close> crate, whose
  weekdays count from one; the lemmas compare the days both fields mean.
\<close>

section \<open>Advancing a schedule\<close>

record ('sched, 'tz) time_crates =
  tc_parse :: "string \<Rightarrow> string + 'sched"
  tc_tz :: "string \<Rightarrow> 'tz option"
  tc_after :: "'sched \<Rightarrow> 'tz option \<Rightarrow> instant \<Rightarrow> instant option"
  tc_in_range :: "instant \<Rightarrow> bool"

definition posix_dow_val :: "string \<Rightarrow> string" where
  "posix_dow_val val = (case parse_unsigned 255 val of
       None \<Rightarrow> val
     | Some n \<Rightarrow> show_nat (n mod 7 + 1))"

definition convert_dow_range :: "string \<Rightarrow> string \<Rightarrow> string" where
  "convert_dow_range start_raw end_raw =
     (let first = posix_dow_val start_raw;
          final = posix_dow_val end_raw
      in case (parse_unsigned 255 first, parse_unsigned 255 final) of
           (Some s, Some e) \<Rightarrow>
             if e < s then show_nat s @ ''-7,1-'' @ show_nat e else first @ ''-'' @ final
         | _ \<Rightarrow> first @ ''-'' @ final)"

definition convert_dow_part :: "string \<Rightarrow> string" where
  "convert_dow_part part =
     (if starts_with ''*/'' part then part
      else (let (days, step) = (case split_once CHR ''/'' part of
                  Some (r, s) \<Rightarrow> (r, Some s)
                | None \<Rightarrow> (part, None));
                converted = (case split_once CHR ''-'' days of
                    Some (a, b) \<Rightarrow> convert_dow_range a b
                  | None \<Rightarrow> posix_dow_val days)
            in case step of None \<Rightarrow> converted | Some s \<Rightarrow> converted @ ''/'' @ s))"

definition convert_dow_posix_to_crate :: "string \<Rightarrow> string" where
  "convert_dow_posix_to_crate field =
     (if field = ''*'' \<or> field = ''?'' then field
      else join_with '','' (map convert_dow_part (split_on CHR '','' field)))"

definition to_cron7 :: "string \<Rightarrow> string" where
  "to_cron7 expr = (case split_whitespace expr of
       [minute, hour, mday, month, dow_field] \<Rightarrow>
         ''0 '' @ minute @ '' '' @ hour @ '' '' @ mday @ '' '' @ month @ '' ''
           @ convert_dow_posix_to_crate dow_field @ '' *''
     | [_, _, _, _, _, _] \<Rightarrow> expr @ '' *''
     | _ \<Rightarrow> expr)"

definition validate_cron_expr :: "('sched, 'tz) time_crates \<Rightarrow> string \<Rightarrow> string + unit" where
  "validate_cron_expr lib expr = (case tc_parse lib (to_cron7 expr) of
       Inr _ \<Rightarrow> Inr ()
     | Inl e \<Rightarrow> Inl (''invalid cron expression '' @ [CHR 0x27] @ expr @ [CHR 0x27] @ '': '' @ e))"

definition next_cron_fire ::
  "('sched, 'tz) time_crates \<Rightarrow> string \<Rightarrow> string option \<Rightarrow> instant \<Rightarrow> instant option" where
  "next_cron_fire lib expr tz after = (case tc_parse lib (to_cron7 expr) of
       Inl _ \<Rightarrow> None
     | Inr sched \<Rightarrow> tc_after lib sched (Option.bind tz (tc_tz lib)) after)"

text \<open>\<open>Duration::seconds\<close> panics beyond the milliseconds of an \<open>i64\<close>. A panic is \<open>None\<close>; otherwise the
  value is what the function returns.\<close>

definition duration_seconds :: "int \<Rightarrow> int option" where
  "duration_seconds n = (if n < - (i64_max div 1000) \<or> i64_max div 1000 < n then None else Some (seconds n))"

definition next_run ::
  "('sched, 'tz) time_crates \<Rightarrow> cron_schedule \<Rightarrow> instant \<Rightarrow> instant option option" where
  "next_run lib schedule after = (case cs_interval_secs schedule of
       Some secs \<Rightarrow>
         if i64_max < int secs then Some None
         else map_option (\<lambda>delta.
           if tc_in_range lib (after + delta) then Some (after + delta) else None)
           (duration_seconds (int secs))
     | None \<Rightarrow> Some (case cs_cron_expr schedule of
         None \<Rightarrow> None
       | Some expr \<Rightarrow> next_cron_fire lib expr (cs_cron_tz schedule) after))"

text \<open>The doc of \<open>next_run\<close> promises \<open>None\<close> for schedules it cannot serve; between the two limits it panics.\<close>

lemma huge_interval_panics:
  "cs_interval_secs s = Some n \<Longrightarrow> int n \<le> i64_max \<Longrightarrow> i64_max div 1000 < int n \<Longrightarrow>
     next_run lib s after = None"
  by (simp add: next_run_def duration_seconds_def)

lemma interval_advances:
  "cs_interval_secs s = Some n \<Longrightarrow> next_run lib s after = Some (Some t) \<Longrightarrow> t = after + seconds (int n)"
  by (auto simp: next_run_def duration_seconds_def split: if_splits)

section \<open>Weekdays\<close>

text \<open>A part of a POSIX weekday field with the days it means, Sunday being 0 as well as 7; a range
  that runs backwards goes through the end of the week. A step takes each k-th day of the range.\<close>

datatype dow_part = Day nat | Days nat nat "nat option"

fun show_part :: "dow_part \<Rightarrow> string" where
  "show_part (Day d) = show_nat d"
| "show_part (Days a b None) = show_nat a @ ''-'' @ show_nat b"
| "show_part (Days a b (Some k)) = show_nat a @ ''-'' @ show_nat b @ ''/'' @ show_nat k"

definition every :: "nat \<Rightarrow> nat \<Rightarrow> nat \<Rightarrow> nat list" where
  "every k a b = filter (\<lambda>d. (d - a) mod k = 0) [a..<Suc b]"

fun posix_days :: "dow_part \<Rightarrow> nat set" where
  "posix_days (Day d) = {d mod 7}"
| "posix_days (Days a b step) =
     (\<lambda>d. d mod 7) ` set (every (unwrap_or 1 step) a (if a \<le> b then b else b + 7))"

text \<open>Steps over a range that wraps, and the full week written as 0-7, are excluded here.\<close>

fun convertible :: "dow_part \<Rightarrow> bool" where
  "convertible (Day d) \<longleftrightarrow> d \<le> 7"
| "convertible (Days a b None) \<longleftrightarrow> a \<le> 7 \<and> b \<le> 7 \<and> \<not> (a = 0 \<and> b = 7)"
| "convertible (Days a b (Some k)) \<longleftrightarrow> a \<le> b \<and> b \<le> 6 \<and> 0 < k \<and> k \<le> 255"

text \<open>What the \<open>cron\<close> crate documents of its numeric weekday fields: 1 is Sunday, 7 Saturday; a range
  runs forward and may have a step; parts are separated by commas.\<close>

definition crate_part_days :: "string \<Rightarrow> nat set option" where
  "crate_part_days part =
     (let (days, step) = (case split_once CHR ''/'' part of
            Some (r, s) \<Rightarrow> (r, parse_unsigned 255 s)
          | None \<Rightarrow> (part, Some 1))
      in case (split_once CHR ''-'' days, step) of
           (Some (a, b), Some k) \<Rightarrow> (case (parse_unsigned 255 a, parse_unsigned 255 b) of
               (Some s, Some e) \<Rightarrow>
                 if 1 \<le> s \<and> s \<le> e \<and> e \<le> 7 \<and> 0 < k then Some ((\<lambda>d. d - 1) ` set (every k s e)) else None
             | _ \<Rightarrow> None)
         | (None, Some k) \<Rightarrow> (case parse_unsigned 255 days of
               Some d \<Rightarrow> if k = 1 \<and> 1 \<le> d \<and> d \<le> 7 then Some {d - 1} else None
             | None \<Rightarrow> None)
         | _ \<Rightarrow> None)"

definition union_days :: "nat set option list \<Rightarrow> nat set option" where
  "union_days ds = (if None \<in> set ds then None else Some (\<Union> (the ` set ds)))"

definition crate_days :: "string \<Rightarrow> nat set option" where
  "crate_days field = union_days (map crate_part_days (split_on CHR '','' field))"

lemma union_days_append:
  "union_days (xs @ ys) = (case (union_days xs, union_days ys) of (Some A, Some B) \<Rightarrow> Some (A \<union> B) | _ \<Rightarrow> None)"
  by (auto simp: union_days_def split: option.splits)

lemma split_on_join: "ps \<noteq> [] \<Longrightarrow> split_on d (join_with [d] ps) = concat (map (split_on d) ps)"
proof (induction "[d]" ps rule: join_with.induct)
  case (3 p q ps)
  have "split_on d (p @ d # s) = split_on d p @ split_on d s" for s
    by (induction p) (auto split: list.splits)
  with 3 show ?case by simp
qed simp_all

lemma every_Suc: "every k (Suc a) (Suc b) = map Suc (every k a b)"
proof -
  have "every k (Suc a) (Suc b) = filter (\<lambda>d. (d - Suc a) mod k = 0) (map Suc [a..<Suc b])"
    by (simp only: every_def map_Suc_upt)
  then show ?thesis by (simp only: filter_map every_def o_def diff_Suc_Suc)
qed

lemma not_digits [simp]: "\<not> is_digit CHR ''-''" "\<not> is_digit CHR ''/''" "\<not> is_digit CHR '',''" "\<not> is_digit CHR ''*''"
  by (simp_all add: is_digit_def)

lemma no_star: "\<not> starts_with ''*/'' (show_nat n @ s)"
proof -
  obtain c t where "show_nat n = c # t" by (cases "show_nat n") auto
  moreover have "CHR ''*'' \<notin> set (show_nat n)" by (rule show_nat_avoids) simp
  ultimately show ?thesis by (auto simp: starts_with_def)
qed

lemma dow_val_show: "d \<le> 255 \<Longrightarrow> posix_dow_val (show_nat d) = show_nat (d mod 7 + 1)"
  by (simp add: posix_dow_val_def)

lemma dow_range_show:
  "a \<le> 255 \<Longrightarrow> b \<le> 255 \<Longrightarrow> convert_dow_range (show_nat a) (show_nat b)
     = (if b mod 7 < a mod 7 then show_nat (a mod 7 + 1) @ ''-7,1-'' @ show_nat (b mod 7 + 1)
        else show_nat (a mod 7 + 1) @ ''-'' @ show_nat (b mod 7 + 1))"
  by (simp add: convert_dow_range_def dow_val_show parse_show Let_def del: add_Suc_right)

lemma split_shown [simp]:
  "split_once CHR ''-'' (show_nat a @ CHR ''-'' # s) = Some (show_nat a, s)"
  "split_once CHR ''/'' (show_nat a @ CHR ''-'' # show_nat b @ CHR ''/'' # s) = Some (show_nat a @ CHR ''-'' # show_nat b, s)"
  "split_once CHR ''/'' (show_nat a @ CHR ''-'' # show_nat b) = None"
  "split_once CHR ''/'' (show_nat a) = None" "split_once CHR ''-'' (show_nat a) = None"
  by (auto simp: split_once_Some split_once_None show_nat_avoids)

lemma convert_shown:
  "d \<le> 255 \<Longrightarrow> convert_dow_part (show_nat d) = show_nat (d mod 7 + 1)"
  "a \<le> 255 \<Longrightarrow> b \<le> 255 \<Longrightarrow> convert_dow_part (show_nat a @ CHR ''-'' # show_nat b)
     = convert_dow_range (show_nat a) (show_nat b)"
  "a \<le> 255 \<Longrightarrow> b \<le> 255 \<Longrightarrow> convert_dow_part (show_nat a @ CHR ''-'' # show_nat b @ CHR ''/'' # s)
     = convert_dow_range (show_nat a) (show_nat b) @ CHR ''/'' # s"
  using no_star [of d "[]"] no_star [of a "CHR ''-'' # show_nat b"]
    no_star [of a "CHR ''-'' # show_nat b @ CHR ''/'' # s"]
  by (simp_all add: convert_dow_part_def dow_val_show)

lemma crate_part_shown:
  "1 \<le> d \<Longrightarrow> d \<le> 7 \<Longrightarrow> crate_part_days (show_nat d) = Some {d - 1}"
  "1 \<le> a \<Longrightarrow> a \<le> b \<Longrightarrow> b \<le> 7 \<Longrightarrow>
     crate_part_days (show_nat a @ CHR ''-'' # show_nat b) = Some ((\<lambda>d. d - 1) ` set (every 1 a b))"
  "1 \<le> a \<Longrightarrow> a \<le> b \<Longrightarrow> b \<le> 7 \<Longrightarrow> 0 < k \<Longrightarrow> k \<le> 255 \<Longrightarrow>
     crate_part_days (show_nat a @ CHR ''-'' # show_nat b @ CHR ''/'' # show_nat k)
       = Some ((\<lambda>d. d - 1) ` set (every k a b))"
  by (simp_all add: crate_part_days_def)

lemma pred_every: "(\<lambda>d. d - 1) ` set (every k (a + 1) (b + 1)) = set (every k a b)"
  by (simp add: every_Suc image_image)

lemma every_week: "b \<le> 6 \<Longrightarrow> (\<lambda>d. d mod 7) ` set (every k a b) = set (every k a b)"
  by (force simp: every_def image_iff)

lemma split_field:
  "split_on CHR '','' (show_nat a) = [show_nat a]"
  "split_on CHR '','' (show_nat a @ CHR ''-'' # show_nat b) = [show_nat a @ CHR ''-'' # show_nat b]"
  "split_on CHR '','' (show_nat a @ CHR ''-'' # show_nat b @ CHR ''/'' # show_nat k)
     = [show_nat a @ CHR ''-'' # show_nat b @ CHR ''/'' # show_nat k]"
  "split_on CHR '','' (show_nat a @ ''-7,1-'' @ show_nat b)
     = [show_nat a @ CHR ''-'' # show_nat 7, show_nat 1 @ CHR ''-'' # show_nat b]"
proof -
  have plain: "CHR '','' \<notin> set (show_nat n)" for n by (rule show_nat_avoids) simp
  then show "split_on CHR '','' (show_nat a) = [show_nat a]"
    "split_on CHR '','' (show_nat a @ CHR ''-'' # show_nat b) = [show_nat a @ CHR ''-'' # show_nat b]"
    "split_on CHR '','' (show_nat a @ CHR ''-'' # show_nat b @ CHR ''/'' # show_nat k)
     = [show_nat a @ CHR ''-'' # show_nat b @ CHR ''/'' # show_nat k]"
    by (simp_all add: split_on_plain)
  have "show_nat 7 = ''7''" "show_nat 1 = ''1''" by code_simp+
  then show "split_on CHR '','' (show_nat a @ ''-7,1-'' @ show_nat b)
     = [show_nat a @ CHR ''-'' # show_nat 7, show_nat 1 @ CHR ''-'' # show_nat b]"
    using split_on_append [of "CHR '',''" "show_nat a @ ''-7''" "''1-'' @ show_nat b"] plain
    by (simp add: split_on_plain)
qed


lemma every_one: "set (every 1 a b) = {a..b}"
  by (auto simp: every_def)

lemma week_image:
  fixes a c :: nat
  assumes "a \<le> 7" "c \<le> 7"
  shows "(\<lambda>d. d mod 7) ` {a..<7 + c} = {a..<7} \<union> {..<c}"
proof -
  have "(\<lambda>d. d + 7) ` {..<c} = {7..<7 + c}"
    using image_add_atLeastLessThan' [of 7 0 c] by (simp add: lessThan_atLeast0 add.commute)
  moreover have "{a..<7 + c} = {a..<7} \<union> {7..<7 + c}"
    using assms(1) by (simp add: ivl_disj_un_two)
  ultimately have "{a..<7 + c} = {a..<7} \<union> (\<lambda>d. d + 7) ` {..<c}" by simp
  moreover have "(\<lambda>d. d mod 7) ` {a..<7} = {a..<7}" "(\<lambda>d. (d + 7) mod 7) ` {..<c} = {..<c}"
    using assms(2) by (simp_all cong: image_cong_simp)
  ultimately show ?thesis by (simp add: image_Un image_image)
qed

lemma pred_interval: "(\<lambda>d::nat. d - 1) ` {Suc a..b} = {a..<b}"
proof -
  have interval: "{Suc a..b} = Suc ` {a..<b}" by (simp add: atLeastLessThanSuc_atLeastAtMost)
  show ?thesis unfolding interval image_image by simp
qed

lemma days_posix:
  assumes "a \<le> 7" "b \<le> 7" "\<not> (a = 0 \<and> b = 7)"
  shows "posix_days (Days a b None) =
    (if b mod 7 < a mod 7 then {a mod 7..<7} \<union> {..<b mod 7 + 1} else {a mod 7..<b mod 7 + 1})"
proof -
  have days: "posix_days (Days a b None) = (\<lambda>d. d mod 7) ` {a..<(if a \<le> b then b + 1 else 7 + (b + 1))}"
    by (auto simp: every_one [simplified] atLeastLessThanSuc_atLeastAtMost)
  consider "a = 7" "b = 7" | "a = 7" "b < 7" | "a < 7" "b = 7" "a \<noteq> 0" | "b < a" "a < 7" | "a \<le> b" "b < 7"
    using assms by linarith
  then show ?thesis
  proof cases
    case 2
    then show ?thesis unfolding days using week_image [of 7 "b + 1"] by (simp add: lessThan_atLeast0)
  next
    case 3
    then show ?thesis unfolding days using week_image [of a 1] by (simp add: lessThan_atLeast0)
  next
    case 4
    then show ?thesis unfolding days using week_image [of a "b + 1"] by (simp add: lessThan_atLeast0)
  next
    case 5
    then show ?thesis unfolding days by (simp cong: image_cong_simp)
  next
    case 1
    then show ?thesis unfolding days using week_image [of 7 1] by (simp add: lessThan_atLeast0)
  qed
qed

lemma union_days_simps [simp]:
  "union_days [Some A] = Some A" "union_days [Some A, Some B] = Some (A \<union> B)"
  by (simp_all add: union_days_def)

lemma part_converted:
  assumes "convertible p"
  shows "union_days (map crate_part_days (split_on CHR '','' (convert_dow_part (show_part p))))
    = Some (posix_days p)"
  using assms
proof (cases p rule: convertible.cases)
  case (1 d)
  with assms show ?thesis by (simp add: convert_shown split_field crate_part_shown)
next
  case (2 a b)
  with assms show ?thesis
    using pred_interval [of "a mod 7" 7] pred_interval [of 0 "b mod 7 + 1"] pred_interval [of "a mod 7" "b mod 7 + 1"]
    by (simp add: convert_shown dow_range_show split_field(1-3) split_field(4) [simplified] crate_part_shown days_posix every_one [simplified]
        lessThan_atLeast0 del: posix_days.simps)
next
  case (3 a b k)
  with assms show ?thesis
    using pred_every [of k a b] every_week [of b k a]
    by (simp add: convert_shown dow_range_show split_field crate_part_shown)
qed

lemma show_part_plain: "CHR '','' \<notin> set (show_part p)"
  by (cases p rule: convertible.cases) (simp_all add: show_nat_avoids)

lemma show_part_first: "\<exists>c s. show_part p = c # s \<and> is_digit c"
proof -
  have "\<exists>c s. show_nat n = c # s \<and> is_digit c" for n
    using show_nat_digits [of n] by (cases "show_nat n") auto
  then show ?thesis by (cases p rule: convertible.cases) (metis append_Cons show_part.simps)+
qed

lemma parts_converted:
  "list_all convertible ps \<Longrightarrow>
     union_days (concat (map (\<lambda>p. map crate_part_days (split_on CHR '','' (convert_dow_part (show_part p)))) ps))
     = Some (\<Union> (posix_days ` set ps))"
  by (induction ps) (simp_all add: union_days_append part_converted, simp add: union_days_def)

text \<open>Weekdays keep their meaning. A POSIX weekday field, a list of days, ranges and stepped ranges
  in which Sunday may be written 0 or 7, is rewritten into a field of the \<open>cron\<close> crate that means the
  same days; only the full week written as 0-7 and steps over a range that wraps are excluded.\<close>

theorem weekday_field_converted:
  assumes "parts \<noteq> []" "list_all convertible parts"
  shows "crate_days (convert_dow_posix_to_crate (join_with '','' (map show_part parts)))
       = Some (\<Union> (posix_days ` set parts))"
proof -
  let ?field = "join_with '','' (map show_part parts)"
  obtain p ps where ps: "parts = p # ps" using assms(1) by (cases parts) auto
  obtain c s where "show_part p = c # s" "is_digit c" using show_part_first by blast
  then have "?field \<noteq> ''*''" "?field \<noteq> ''?''"
    by (cases ps; auto simp: ps is_digit_def)+
  moreover have "split_on CHR '','' ?field = map show_part parts"
    using assms(1) by (intro split_join) (simp_all add: list_all_iff show_part_plain)
  ultimately have "convert_dow_posix_to_crate ?field
      = join_with '','' (map (\<lambda>p. convert_dow_part (show_part p)) parts)"
    by (simp add: convert_dow_posix_to_crate_def o_def)
  then show ?thesis
    using assms parts_converted [OF assms(2)]
    by (simp add: crate_days_def split_on_join map_concat o_def)
qed

lemma weekday_field_converted_witness:
  "crate_days (convert_dow_posix_to_crate ''1,5-7,0-6/2'')
     = Some (\<Union> (posix_days ` set [Day 1, Days 5 7 None, Days 0 6 (Some 2)]))"
proof -
  have "join_with '','' (map show_part [Day 1, Days 5 7 None, Days 0 6 (Some 2)]) = ''1,5-7,0-6/2''"
    by code_simp
  then show ?thesis
    using weekday_field_converted [of "[Day 1, Days 5 7 None, Days 0 6 (Some 2)]"] by simp
qed

text \<open>What is excluded is wrong in the code: the full week becomes Sunday alone, and in a stepped range
  that wraps the step is applied to its second half only.\<close>

lemma full_week_becomes_sunday: "convert_dow_part ''0-7'' = ''1-1''"
  by code_simp

lemma wrapped_step_keeps_saturday: "convert_dow_part ''5-7/2'' = ''6-7,1-1/2''"
  by code_simp

end
