(* ===== verification/Cron_Scheduler.thy ===== *)
theory Cron_Scheduler
  imports Task_Executor Cron_Schedule
begin

text \<open>
  The scheduler of cron jobs (\<open>crabgent-cron/src\<close>: \<open>scheduler.rs\<close>, \<open>scheduler/worker.rs\<close>, \<open>executor.rs\<close>,
  \<open>observer.rs\<close>, \<open>pre_processor.rs\<close>, \<open>delivery.rs\<close>). A tick claims the due jobs and gives each to a worker or
  releases it when all permits are taken; a worker asks the pre-processors, runs the job, delivers
  the text and advances the schedule.

  As in the task executor, what others do while something awaits is part of the functions that
  stand for the awaited calls: they change the world of the scheduler in any way, other workers and
  ticks included. A worker that panics is dropped with its permit.
\<close>

section \<open>Errors, results, activity\<close>

datatype cron_error =
    CE_Store store_error
  | CE_Kernel kernel_error
  | CE_InvalidSubject
  | CE_Timeout
  | CE_Schedule string
  | CE_Delivery string
  | CE_PreProcessor string
  | CE_Scheduler string

definition show_cron_error :: "cron_error \<Rightarrow> string" where
  "show_cron_error e = (case e of
       CE_Store s \<Rightarrow> ''store error: '' @ show_store_error s
     | CE_Kernel k \<Rightarrow> ''kernel error: '' @ show_kernel_error k
     | CE_InvalidSubject \<Rightarrow> ''invalid subject: subject id must not be empty or whitespace-only''
     | CE_Timeout \<Rightarrow> ''cron job timed out''
     | CE_Schedule m \<Rightarrow> ''schedule error: '' @ m
     | CE_Delivery m \<Rightarrow> ''delivery failed: '' @ m
     | CE_PreProcessor m \<Rightarrow> ''pre-processor failed: '' @ m
     | CE_Scheduler m \<Rightarrow> ''scheduler error: '' @ m)"

record cron_exec_result =
  er_text :: "string option"
  er_error :: "string option"

definition exec_result_default :: cron_exec_result where
  "exec_result_default = \<lparr>er_text = None, er_error = None\<rparr>"

definition is_success :: "cron_exec_result \<Rightarrow> bool" where
  "is_success r \<longleftrightarrow> er_text r \<noteq> None \<and> er_error r = None"

definition executor_error_result :: "string \<Rightarrow> cron_exec_result" where
  "executor_error_result e = \<lparr>er_text = None, er_error = Some e\<rparr>"

definition cron_cancelled_message :: string where "cron_cancelled_message = ''cron job cancelled''"
definition cron_timeout_message :: string where "cron_timeout_message = ''cron job timed out''"
definition fallback_retry_secs :: int where "fallback_retry_secs = 60"

datatype cron_pre_process_result = PP_Skip | PP_Deliver string | PP_RunLlm string | PP_Passthrough

record cron_activity_meta =
  cm_job_id :: cron_job_id
  cm_name :: activity_text_summary
  cm_owner :: "owner option"
  cm_run_id :: "string option"
  cm_prompt :: activity_text_summary
  cm_created_at :: instant
  cm_claimed_at :: "instant option"
  cm_last_run :: "instant option"
  cm_next_run :: instant

definition meta_from_job :: "cron_job \<Rightarrow> string \<Rightarrow> string option \<Rightarrow> cron_activity_meta" where
  "meta_from_job j prompt run_id =
     \<lparr>cm_job_id = cj_id j, cm_name = with_preview (cj_name j), cm_owner = sc_owner (cj_scope j),
      cm_run_id = run_id, cm_prompt = redacted prompt, cm_created_at = cj_created_at j,
      cm_claimed_at = cj_claimed_at j, cm_last_run = cj_last_run j, cm_next_run = cj_next_run j\<rparr>"

datatype cron_activity_kind =
    CA_ClaimedBatch nat nat
  | CA_ClaimFailed activity_text_summary
  | CA_ConcurrencyLimit nat
  | CA_ClaimReleased
  | CA_ClaimReleaseFailed activity_text_summary
  | CA_Started
  | CA_PreProcessorSkipped
  | CA_PreProcessorDelivered activity_text_summary
  | CA_PreProcessorRunLlm activity_text_summary
  | CA_PreProcessorPassthrough
  | CA_Kernel activity_event_summary
  | CA_Completed
  | CA_Failed activity_text_summary
  | CA_Cancelled
  | CA_TimedOut
  | CA_ScheduleAdvanced instant bool
  | CA_ScheduleAdvanceFailed activity_text_summary

record cron_activity_event =
  ce_observed_at :: instant
  ce_job :: "cron_activity_meta option"
  ce_kind :: cron_activity_kind

section \<open>The world of the scheduler\<close>

record 's cron_world =
  cw_store :: 's
  cw_cancel :: bool
  cw_permits :: nat
  cw_workers :: "cron_job list"

record 'w cron_api =
  cn_claim_due :: "instant \<Rightarrow> nat \<Rightarrow> ('w, store_error, cron_job list) store_op"
  cn_finish :: "cron_job_id \<Rightarrow> instant \<Rightarrow> instant \<Rightarrow> bool \<Rightarrow> ('w, store_error, unit) store_op"
  cn_release :: "cron_job_id \<Rightarrow> ('w, store_error, unit) store_op"
  cn_recover :: "int \<Rightarrow> ('w, store_error, cron_job_id list) store_op"
  cn_now :: "'w \<Rightarrow> 'w \<times> instant"

text \<open>How the \<open>select!\<close> around the executor ends.\<close>

datatype exec_end = Executed "cron_error + cron_exec_result" | Exec_Timed_Out | Exec_Cancelled

record ('w, 'sched, 'tz) cron_cfg =
  cd_api :: "'w cron_api"
  cd_execute :: "cron_job \<Rightarrow> string \<Rightarrow> 'w \<Rightarrow> 'w \<times> exec_end"
  cd_grace :: "cron_job \<Rightarrow> 'w \<Rightarrow> 'w"
  cd_deliveries :: "(cron_job \<Rightarrow> string \<Rightarrow> 'w \<Rightarrow> 'w \<times> (cron_error + bool)) list"
  cd_pre_processors :: "(cron_job \<Rightarrow> 'w \<Rightarrow> 'w \<times> cron_pre_process_result) list"
  cd_observers :: "(cron_activity_event \<Rightarrow> 'w \<Rightarrow> 'w) list"
  cd_max_concurrent :: nat
  cd_claim_limit :: nat
  cd_stuck_recover_secs :: int
  cd_time :: "('sched, 'tz) time_crates"

definition default_max_concurrent :: nat where "default_max_concurrent = 4"
definition default_claim_limit :: nat where "default_claim_limit = 100"
definition default_stuck_recover_secs :: int where "default_stuck_recover_secs = 600"

definition cron_scheduler_new ::
  "'w cron_api \<Rightarrow> (cron_job \<Rightarrow> string \<Rightarrow> 'w \<Rightarrow> 'w \<times> exec_end) \<Rightarrow> (cron_job \<Rightarrow> 'w \<Rightarrow> 'w)
   \<Rightarrow> ('sched, 'tz) time_crates \<Rightarrow> ('w, 'sched, 'tz) cron_cfg" where
  "cron_scheduler_new api execute grace time =
     \<lparr>cd_api = api, cd_execute = execute, cd_grace = grace, cd_deliveries = [],
      cd_pre_processors = [], cd_observers = [], cd_max_concurrent = default_max_concurrent,
      cd_claim_limit = default_claim_limit, cd_stuck_recover_secs = default_stuck_recover_secs,
      cd_time = time\<rparr>"

text \<open>An event is stamped when it is made.\<close>

definition notify_cron ::
  "('w, 'sched, 'tz) cron_cfg \<Rightarrow> cron_activity_meta option \<Rightarrow> cron_activity_kind \<Rightarrow> 'w \<Rightarrow> 'w" where
  "notify_cron cfg meta kind w = (case cn_now (cd_api cfg) w of (w', now) \<Rightarrow>
     fold (\<lambda>ob. ob \<lparr>ce_observed_at = now, ce_job = meta, ce_kind = kind\<rparr>) (cd_observers cfg) w')"

definition observe_job ::
  "('w, 'sched, 'tz) cron_cfg \<Rightarrow> cron_job \<Rightarrow> cron_activity_kind \<Rightarrow> 'w \<Rightarrow> 'w" where
  "observe_job cfg j kind = notify_cron cfg (Some (meta_from_job j (cj_prompt j) None)) kind"

section \<open>A worker\<close>

fun run_pre_processors ::
  "(cron_job \<Rightarrow> 'w \<Rightarrow> 'w \<times> cron_pre_process_result) list \<Rightarrow> cron_job \<Rightarrow> 'w
   \<Rightarrow> 'w \<times> cron_pre_process_result" where
  "run_pre_processors [] j w = (w, PP_Passthrough)"
| "run_pre_processors (p # ps) j w = (case p j w of
       (w', PP_Passthrough) \<Rightarrow> run_pre_processors ps j w'
     | (w', outcome) \<Rightarrow> (w', outcome))"

definition pre_process_kind :: "cron_pre_process_result \<Rightarrow> cron_activity_kind" where
  "pre_process_kind outcome = (case outcome of
       PP_Skip \<Rightarrow> CA_PreProcessorSkipped
     | PP_Deliver t \<Rightarrow> CA_PreProcessorDelivered (redacted t)
     | PP_RunLlm p \<Rightarrow> CA_PreProcessorRunLlm (redacted p)
     | PP_Passthrough \<Rightarrow> CA_PreProcessorPassthrough)"

definition finish_executor_result :: "cron_error + cron_exec_result \<Rightarrow> cron_exec_result" where
  "finish_executor_result r = (case r of
       Inr x \<Rightarrow> x
     | Inl e \<Rightarrow> executor_error_result (show_cron_error e))"

definition run_executor ::
  "('w, 'sched, 'tz) cron_cfg \<Rightarrow> cron_job \<Rightarrow> string \<Rightarrow> 'w \<Rightarrow> 'w \<times> cron_exec_result" where
  "run_executor cfg j prompt w = (case cd_execute cfg j prompt w of
       (w', Executed r) \<Rightarrow> (w', finish_executor_result r)
     | (w', Exec_Timed_Out) \<Rightarrow> (cd_grace cfg j w', executor_error_result cron_timeout_message)
     | (w', Exec_Cancelled) \<Rightarrow> (cd_grace cfg j w', executor_error_result cron_cancelled_message))"

definition channel_prefix :: "string \<Rightarrow> string option" where
  "channel_prefix conv = Option.bind (split_once CHR '':'' conv)
     (\<lambda>(channel, rest). if channel = [] \<or> rest = [] then None else Some channel)"

definition delivery_target :: "memory_scope \<Rightarrow> string option" where
  "delivery_target s = opt_or (sc_conv s)
     (Option.bind (sc_owner s) (\<lambda>ow. if channel_prefix ow = None then None else Some ow))"

definition delivery_ctx_from_scope :: "memory_scope \<Rightarrow> cron_error + json" where
  "delivery_ctx_from_scope s = (case delivery_target s of
       None \<Rightarrow> Inl (CE_Delivery ''cron delivery target missing scope.conv or prefixed scope.owner'')
     | Some conv \<Rightarrow> (case channel_prefix conv of
         None \<Rightarrow> Inl (CE_Delivery ''cron delivery target scope.conv has no channel prefix'')
       | Some pre \<Rightarrow>
           (let channel = unwrap_or pre (sc_channel s)
            in if pre \<noteq> channel
               then Inl (CE_Delivery ''cron delivery target mismatch: scope.channel does not match scope.conv prefix'')
               else Inr (JObj ([(''channel'', JStr channel), (''conv'', JStr conv)]
                      @ (case sc_owner s of Some ow \<Rightarrow> [(''owner'', JStr ow)] | None \<Rightarrow> []))))))"

definition effective_delivery_job :: "cron_job \<Rightarrow> cron_error + cron_job" where
  "effective_delivery_job j = (case cj_delivery_ctx j of
       JObj [] \<Rightarrow> and_then (delivery_ctx_from_scope (cj_scope j)) (\<lambda>ctx. Inr (j\<lparr>cj_delivery_ctx := ctx\<rparr>))
     | JObj _ \<Rightarrow> Inr j
     | _ \<Rightarrow> Inl (CE_Delivery ''cron delivery_ctx must be a JSON object''))"

definition dispatch_deliveries ::
  "('w, 'sched, 'tz) cron_cfg \<Rightarrow> cron_job \<Rightarrow> string \<Rightarrow> 'w \<Rightarrow> 'w \<times> (cron_error + unit)" where
  "dispatch_deliveries cfg j message w =
     (if cd_deliveries cfg = [] then (w, Inr ())
      else (case effective_delivery_job j of
          Inl e \<Rightarrow> (w, Inl e)
        | Inr dj \<Rightarrow> (fold (\<lambda>d w. fst (d dj message w)) (cd_deliveries cfg) w, Inr ())))"

text \<open>The time a job fires next, \<open>None\<close> when the computation panics.\<close>

definition next_fire :: "('sched, 'tz) time_crates \<Rightarrow> cron_schedule \<Rightarrow> instant \<Rightarrow> instant option" where
  "next_fire lib schedule now = (case next_run lib schedule now of
       None \<Rightarrow> None
     | Some (Some t) \<Rightarrow> Some t
     | Some None \<Rightarrow>
         if tc_in_range lib (now + seconds fallback_retry_secs)
         then Some (now + seconds fallback_retry_secs) else None)"

text \<open>Whether the worker is still there after it.\<close>

definition advance_schedule ::
  "('w, 'sched, 'tz) cron_cfg \<Rightarrow> cron_job \<Rightarrow> cron_exec_result \<Rightarrow> 'w \<Rightarrow> 'w \<times> bool" where
  "advance_schedule cfg j result w = (case cn_now (cd_api cfg) w of (w1, now) \<Rightarrow>
     (case next_fire (cd_time cfg) (cj_schedule j) now of
        None \<Rightarrow> (w1, False)
      | Some fire \<Rightarrow>
          (let disable = (cj_run_once j \<and> is_success result)
           in case cn_finish (cd_api cfg) (cj_id j) now fire disable w1 of
                (w2, Inr _) \<Rightarrow> (observe_job cfg j (CA_ScheduleAdvanced fire disable) w2, True)
              | (w2, Inl e) \<Rightarrow>
                  (observe_job cfg j (CA_ScheduleAdvanceFailed (redacted (show_store_error e))) w2, True))))"

definition cron_terminal_kind :: "cron_exec_result \<Rightarrow> cron_activity_kind" where
  "cron_terminal_kind r = (case er_error r of
       None \<Rightarrow> CA_Completed
     | Some e \<Rightarrow>
         if e = cron_cancelled_message then CA_Cancelled
         else if e = cron_timeout_message then CA_TimedOut
         else CA_Failed (redacted e))"

definition job_outcome ::
  "('w, 'sched, 'tz) cron_cfg \<Rightarrow> cron_job \<Rightarrow> cron_pre_process_result \<Rightarrow> 'w \<Rightarrow> 'w \<times> cron_exec_result" where
  "job_outcome cfg j outcome w = (case outcome of
       PP_Skip \<Rightarrow> (w, exec_result_default)
     | PP_Deliver t \<Rightarrow> (w, \<lparr>er_text = Some t, er_error = None\<rparr>)
     | PP_RunLlm prompt \<Rightarrow> run_executor cfg j prompt w
     | PP_Passthrough \<Rightarrow> run_executor cfg j (cj_prompt j) w)"

definition deliver_result ::
  "('w, 'sched, 'tz) cron_cfg \<Rightarrow> cron_job \<Rightarrow> cron_pre_process_result \<Rightarrow> cron_exec_result \<Rightarrow> 'w
   \<Rightarrow> 'w \<times> cron_exec_result" where
  "deliver_result cfg j outcome result w = (case er_text result of
       Some message \<Rightarrow>
         if outcome = PP_Skip then (w, result)
         else (case dispatch_deliveries cfg j message w of
             (w', Inl e) \<Rightarrow> (w', executor_error_result (show_cron_error e))
           | (w', Inr _) \<Rightarrow> (w', result))
     | None \<Rightarrow> (w, result))"

definition work_job ::
  "('w, 'sched, 'tz) cron_cfg \<Rightarrow> cron_job \<Rightarrow> 'w \<Rightarrow> 'w" where
  "work_job cfg j w =
     (let w1 = observe_job cfg j CA_Started w;
          (w2, outcome) = run_pre_processors (cd_pre_processors cfg) j w1;
          w3 = observe_job cfg j (pre_process_kind outcome) w2;
          (w4, result) = job_outcome cfg j outcome w3;
          (w5, result') = deliver_result cfg j outcome result w4;
          (w6, alive) = advance_schedule cfg j result' w5
      in if alive then observe_job cfg j (cron_terminal_kind result') w6 else w6)"

text \<open>The permit is dropped and the entry of the join set ends with the worker, also when it panics.\<close>

definition worker_gone :: "cron_job \<Rightarrow> 's cron_world \<Rightarrow> 's cron_world" where
  "worker_gone j w = w\<lparr>cw_permits := cw_permits w + 1, cw_workers := remove1 j (cw_workers w)\<rparr>"

definition drive_one_job ::
  "('s cron_world, 'sched, 'tz) cron_cfg \<Rightarrow> cron_job \<Rightarrow> 's cron_world \<Rightarrow> 's cron_world" where
  "drive_one_job cfg j w = worker_gone j (work_job cfg j w)"

section \<open>Ticks\<close>

definition release_unclaimed ::
  "('w, 'sched, 'tz) cron_cfg \<Rightarrow> cron_job \<Rightarrow> 'w \<Rightarrow> 'w" where
  "release_unclaimed cfg j w = (case cn_release (cd_api cfg) (cj_id j) w of
       (w', Inr _) \<Rightarrow> observe_job cfg j CA_ClaimReleased w'
     | (w', Inl e) \<Rightarrow> observe_job cfg j (CA_ClaimReleaseFailed (redacted (show_store_error e))) w')"

definition spawn_job :: "cron_job \<Rightarrow> 's cron_world \<Rightarrow> 's cron_world" where
  "spawn_job j w = w\<lparr>cw_permits := cw_permits w - 1, cw_workers := cw_workers w @ [j]\<rparr>"

definition spawn_or_release_job ::
  "('s cron_world, 'sched, 'tz) cron_cfg \<Rightarrow> cron_job \<Rightarrow> 's cron_world \<Rightarrow> 's cron_world" where
  "spawn_or_release_job cfg j w =
     (if cw_permits w = 0
      then release_unclaimed cfg j (observe_job cfg j (CA_ConcurrencyLimit (cd_max_concurrent cfg)) w)
      else spawn_job j w)"

definition claim_due_jobs :: "('w, 'sched, 'tz) cron_cfg \<Rightarrow> 'w \<Rightarrow> 'w \<times> cron_job list option" where
  "claim_due_jobs cfg w = (case cn_now (cd_api cfg) w of (w0, now) \<Rightarrow>
     (case cn_claim_due (cd_api cfg) now (cd_claim_limit cfg) w0 of
        (w', Inr claimed) \<Rightarrow>
          (notify_cron cfg None (CA_ClaimedBatch (length claimed) (cd_claim_limit cfg)) w', Some claimed)
      | (w', Inl e) \<Rightarrow>
          (notify_cron cfg None (CA_ClaimFailed (redacted (show_store_error e))) w', None)))"

definition tick_once ::
  "('s cron_world, 'sched, 'tz) cron_cfg \<Rightarrow> 's cron_world \<Rightarrow> 's cron_world" where
  "tick_once cfg w = (case claim_due_jobs cfg w of
       (w', None) \<Rightarrow> w'
     | (w', Some claimed) \<Rightarrow> fold (spawn_or_release_job cfg) claimed w')"

definition recover_stuck_at_startup :: "('w, 'sched, 'tz) cron_cfg \<Rightarrow> 'w \<Rightarrow> 'w" where
  "recover_stuck_at_startup cfg w = fst (cn_recover (cd_api cfg) (cd_stuck_recover_secs cfg) w)"

text \<open>The branches of the \<open>select!\<close> of the loop, each with what happened before it. While no token has
  fired the loop goes on, and its value is \<open>None\<close>.\<close>

datatype loop_event = Loop_Tick | External_Cancel | Own_Cancel

fun run_loop ::
  "('s cron_world, 'sched, 'tz) cron_cfg \<Rightarrow> (('s cron_world \<Rightarrow> 's cron_world) \<times> loop_event) list
   \<Rightarrow> 's cron_world \<Rightarrow> 's cron_world option" where
  "run_loop cfg [] w = None"
| "run_loop cfg ((change, Loop_Tick) # es) w = run_loop cfg es (tick_once cfg (change w))"
| "run_loop cfg ((change, External_Cancel) # es) w = Some ((change w)\<lparr>cw_cancel := True\<rparr>)"
| "run_loop cfg ((change, Own_Cancel) # es) w = Some (change w)"

text \<open>The drain at the end: what the workers do within the grace, and whether they all ended.\<close>

definition drain_jobs :: "('s cron_world \<Rightarrow> 's cron_world \<times> bool) \<Rightarrow> 's cron_world \<Rightarrow> 's cron_world" where
  "drain_jobs grace w = (case grace w of
       (w', True) \<Rightarrow> w'
     | (w', False) \<Rightarrow>
         w'\<lparr>cw_permits := cw_permits w' + length (cw_workers w'), cw_workers := []\<rparr>)"

definition run_scheduler ::
  "('s cron_world, 'sched, 'tz) cron_cfg \<Rightarrow> (('s cron_world \<Rightarrow> 's cron_world) \<times> loop_event) list
   \<Rightarrow> ('s cron_world \<Rightarrow> 's cron_world \<times> bool) \<Rightarrow> 's cron_world \<Rightarrow> 's cron_world option" where
  "run_scheduler cfg events grace w =
     map_option (drain_jobs grace) (run_loop cfg events
       (recover_stuck_at_startup cfg w\<lparr>cw_permits := cd_max_concurrent cfg, cw_workers := []\<rparr>))"

definition shutdown_scheduler :: "'s cron_world \<Rightarrow> 's cron_world" where
  "shutdown_scheduler w = w\<lparr>cw_cancel := True\<rparr>"

section \<open>The executor that runs the kernel\<close>

definition cron_blocked_delivery_tools :: "string list" where
  "cron_blocked_delivery_tools = [''channel_send'', ''notify_user'']"

definition cron_allows_tool :: "string \<Rightarrow> bool" where
  "cron_allows_tool name \<longleftrightarrow> name \<notin> set cron_blocked_delivery_tools"

definition default_subject_resolver :: "cron_job \<Rightarrow> unit + subject" where
  "default_subject_resolver j = subject_try_new (unwrap_or ''cron'' (sc_owner (cj_scope j)))"

definition subject_with_scope_attrs :: "subject \<Rightarrow> memory_scope \<Rightarrow> subject" where
  "subject_with_scope_attrs s scope =
     (let put = (\<lambda>k v s. case v of Some x \<Rightarrow> with_attr k x s | None \<Rightarrow> s)
      in put ''channel_kind'' (sc_kind scope) (put ''agent'' (sc_agent scope)
           (put ''conv'' (sc_conv scope) (put ''channel'' (sc_channel scope) s))))"

record 'w kernel_cron_executor =
  kx_default_model :: model_target
  kx_system_prompt :: "string option"
  kx_max_turns :: "nat option"
  kx_resolve :: "cron_job \<Rightarrow> unit + subject"
  kx_observers :: "(cron_activity_event \<Rightarrow> 'w \<Rightarrow> 'w) list"

definition kernel_cron_executor_new :: "model_target \<Rightarrow> 'w kernel_cron_executor" where
  "kernel_cron_executor_new m =
     \<lparr>kx_default_model = m, kx_system_prompt = None, kx_max_turns = None,
      kx_resolve = default_subject_resolver, kx_observers = []\<rparr>"

definition build_cron_request ::
  "'w kernel_cron_executor \<Rightarrow> string \<Rightarrow> cron_job \<Rightarrow> string \<Rightarrow> cron_error + run_request" where
  "build_cron_request kx run_id j prompt = (case kx_resolve kx j of
       Inl _ \<Rightarrow> Inl CE_InvalidSubject
     | Inr sub \<Rightarrow> Inr
         \<lparr>rr_run_id = run_id, rr_subject = subject_with_scope_attrs sub (cj_scope j),
          rr_model = kx_default_model kx,
          rr_explicit_model = map_option target_of_dto (cj_model_override j),
          rr_session_model_override = None, rr_fallbacks = [],
          rr_messages = [User [Text prompt] None], rr_system_prompt = kx_system_prompt kx,
          rr_max_turns = kx_max_turns kx, rr_temperature = None, rr_max_tokens = None,
          rr_reasoning_effort = cj_reasoning_effort_override j, rr_web_search = web_search_default\<rparr>)"

definition observe_kernel ::
  "'w cron_api \<Rightarrow> 'w kernel_cron_executor \<Rightarrow> cron_activity_meta \<Rightarrow> event \<Rightarrow> 'w \<Rightarrow> 'w" where
  "observe_kernel api kx meta ev w = (case cn_now api w of (w', now) \<Rightarrow>
     fold (\<lambda>ob. ob \<lparr>ce_observed_at = now, ce_job = Some meta, ce_kind = CA_Kernel (summary_from_event ev)\<rparr>)
       (kx_observers kx) w')"

definition missing_final_error :: string where
  "missing_final_error = show_kernel_error (KE_Internal ''run stream ended without final event'')"

fun kernel_stream ::
  "'w cron_api \<Rightarrow> 'w kernel_cron_executor \<Rightarrow> cron_activity_meta \<Rightarrow> (('w \<Rightarrow> 'w) \<times> stream_item) list
   \<Rightarrow> 'w \<Rightarrow> 'w \<times> cron_exec_result" where
  "kernel_stream api kx meta [] w = (w, executor_error_result missing_final_error)"
| "kernel_stream api kx meta ((change, it) # items) w = (case it of
       Inr (Final t) \<Rightarrow>
         (observe_kernel api kx meta (Final t) (change w), \<lparr>er_text = Some t, er_error = None\<rparr>)
     | Inr ev \<Rightarrow> kernel_stream api kx meta items (observe_kernel api kx meta ev (change w))
     | Inl e \<Rightarrow> (change w, executor_error_result (show_kernel_error e)))"

text \<open>The kernel as a function from the request to the items of its stream.\<close>

definition kernel_execute ::
  "'w cron_api \<Rightarrow> 'w kernel_cron_executor \<Rightarrow> ('w \<Rightarrow> 'w \<times> string)
   \<Rightarrow> (run_request \<Rightarrow> 'w \<Rightarrow> (('w \<Rightarrow> 'w) \<times> stream_item) list) \<Rightarrow> cron_job \<Rightarrow> string \<Rightarrow> 'w
   \<Rightarrow> 'w \<times> (cron_error + cron_exec_result)" where
  "kernel_execute api kx new_run_id kernel_run j prompt w = (case new_run_id w of (w1, run_id) \<Rightarrow>
     (case build_cron_request kx run_id j prompt of
        Inl e \<Rightarrow> (w1, Inl e)
      | Inr req \<Rightarrow>
          (case kernel_stream api kx (meta_from_job j prompt (Some run_id)) (kernel_run req w1) w1 of
             (w2, r) \<Rightarrow> (w2, Inr r))))"

end
