(* ===== verification/Cron_Guarantees.thy ===== *)
theory Cron_Guarantees
  imports Cron_Scheduler "HOL-Library.Multiset"
begin

text \<open>
  What the scheduler promises: no job is run by two workers at once, every claim is held by a worker or
  given back, and a message goes to the conversation of its job. The store is the locale
  \<open>cron_contract\<close>, interpreted by the in-memory store.
\<close>

section \<open>The store in the world of the scheduler\<close>

definition on_cron :: "('s, 'e, 'a) store_op \<Rightarrow> ('s cron_world, 'e, 'a) store_op" where
  "on_cron op w = (case op (cw_store w) of (s, r) \<Rightarrow> (w\<lparr>cw_store := s\<rparr>, r))"

definition cron_lift :: "'s cron_api \<Rightarrow> 's cron_world cron_api" where
  "cron_lift api =
     \<lparr>cn_claim_due = (\<lambda>now limit. on_cron (cn_claim_due api now limit)),
      cn_finish = (\<lambda>i l n d. on_cron (cn_finish api i l n d)),
      cn_release = on_cron \<circ> cn_release api, cn_recover = on_cron \<circ> cn_recover api,
      cn_now = (\<lambda>w. case cn_now api (cw_store w) of (s, now) \<Rightarrow> (w\<lparr>cw_store := s\<rparr>, now))\<rparr>"

lemma on_cron_parts [simp]:
  "cw_store (fst (on_cron op w)) = fst (op (cw_store w))" "snd (on_cron op w) = snd (op (cw_store w))"
  "cw_permits (fst (on_cron op w)) = cw_permits w" "cw_workers (fst (on_cron op w)) = cw_workers w"
  by (simp_all add: on_cron_def case_prod_beta)

type_synonym 's cron_inv = "'s \<Rightarrow> bool"
type_synonym 's cron_rows = "'s \<Rightarrow> cron_job_id \<Rightarrow> cron_job option"

section \<open>Who answers for a claim\<close>

definition claimed_in :: "'s cron_rows \<Rightarrow> 's cron_world \<Rightarrow> cron_job_id \<Rightarrow> bool" where
  "claimed_in row w i \<longleftrightarrow> (\<exists>r. row (cw_store w) i = Some r \<and> cj_claimed_at r \<noteq> None)"

text \<open>The jobs that somebody answers for: the workers still at work (\<open>A\<close>) and the jobs that a tick has
  claimed and not yet handed on (\<open>P\<close>). The other workers (\<open>F\<close>) have advanced the schedule and are
  about to end. No job occurs twice among those that somebody answers for, each is claimed in its row
  unless the row is gone, and, if \<open>exact\<close>, no other row is claimed.\<close>

definition sound_in ::
  "'s cron_inv \<Rightarrow> 's cron_rows \<Rightarrow> bool \<Rightarrow> nat \<Rightarrow> cron_job multiset \<Rightarrow> cron_job multiset \<Rightarrow> cron_job multiset
   \<Rightarrow> 's cron_world \<Rightarrow> bool" where
  "sound_in good row exact n A F P w \<longleftrightarrow> good (cw_store w) \<and> cw_permits w + length (cw_workers w) = n
     \<and> mset (cw_workers w) = A + F \<and> (\<forall>i. count (image_mset cj_id (A + P)) i \<le> 1)
     \<and> (\<forall>j \<in># A + P. row (cw_store w) (cj_id j) = None \<or> claimed_in row w (cj_id j))
     \<and> (exact \<longrightarrow> (\<forall>i. claimed_in row w i \<longrightarrow> i \<in># image_mset cj_id (A + P)))"

text \<open>What others may do at any time, and while the worker of a job awaits.\<close>

definition easy_in ::
  "'s cron_inv \<Rightarrow> 's cron_rows \<Rightarrow> bool \<Rightarrow> nat \<Rightarrow> ('s cron_world \<Rightarrow> 's cron_world) \<Rightarrow> bool" where
  "easy_in good row exact n f \<longleftrightarrow> (\<forall>A F P w. sound_in good row exact n A F P w \<longrightarrow>
     (\<exists>A'. sound_in good row exact n A' F P (f w)))"

definition tame_in ::
  "'s cron_inv \<Rightarrow> 's cron_rows \<Rightarrow> bool \<Rightarrow> nat \<Rightarrow> cron_job \<Rightarrow> ('s cron_world \<Rightarrow> 's cron_world) \<Rightarrow> bool" where
  "tame_in good row exact n j f \<longleftrightarrow> (\<forall>A F P w. sound_in good row exact n (add_mset j A) F P w \<longrightarrow>
     (\<exists>A'. sound_in good row exact n (add_mset j A') F P (f w)))"

text \<open>Configurations whose observers are easy, and whose parts are tame while the worker of a job runs.\<close>

definition watched_in ::
  "'s cron_api \<Rightarrow> 's cron_inv \<Rightarrow> 's cron_rows \<Rightarrow> bool \<Rightarrow> nat \<Rightarrow> ('s cron_world, 'x, 'y) cron_cfg \<Rightarrow> bool" where
  "watched_in api good row exact n cfg \<longleftrightarrow> cd_api cfg = cron_lift api
     \<and> (\<forall>ev. list_all (\<lambda>ob. easy_in good row exact n (ob ev)) (cd_observers cfg))"

definition proper_in ::
  "'s cron_api \<Rightarrow> 's cron_inv \<Rightarrow> 's cron_rows \<Rightarrow> bool \<Rightarrow> nat \<Rightarrow> ('s cron_world, 'x, 'y) cron_cfg \<Rightarrow> cron_job
   \<Rightarrow> bool" where
  "proper_in api good row exact n cfg j \<longleftrightarrow> watched_in api good row exact n cfg
     \<and> (\<forall>ev. list_all (\<lambda>ob. tame_in good row exact n j (ob ev)) (cd_observers cfg))
     \<and> list_all (\<lambda>p. tame_in good row exact n j (\<lambda>w. fst (p j w))) (cd_pre_processors cfg)
     \<and> (\<forall>prompt. tame_in good row exact n j (\<lambda>w. fst (cd_execute cfg j prompt w)))
     \<and> tame_in good row exact n j (cd_grace cfg j)
     \<and> (\<forall>dj m. list_all (\<lambda>d. tame_in good row exact n j (\<lambda>w. fst (d dj m w))) (cd_deliveries cfg))"

locale cron_contract =
  fixes api :: "'s cron_api"
    and inv :: "'s \<Rightarrow> bool"
    and row :: "'s \<Rightarrow> cron_job_id \<Rightarrow> cron_job option"
  assumes now_keeps: "inv s \<Longrightarrow> inv (fst (cn_now api s)) \<and> row (fst (cn_now api s)) = row s"
    and finish_writes: "inv s \<Longrightarrow> inv (fst (cn_finish api i l n d s))
      \<and> row (fst (cn_finish api i l n d s)) = (row s)(i := map_option (finish_job l n d) (row s i))"
    and release_writes: "inv s \<Longrightarrow> inv (fst (cn_release api i s)) \<and> snd (cn_release api i s) = Inr ()
      \<and> row (fst (cn_release api i s)) = (row s)(i := map_option release_job (row s i))"
    and claim_writes: "inv s \<Longrightarrow> cn_claim_due api now limit s = (s', r) \<Longrightarrow>
      inv s' \<and> (case r of
          Inl _ \<Rightarrow> row s' = row s
        | Inr js \<Rightarrow> distinct (map cj_id js) \<and> length js \<le> limit
            \<and> (\<forall>j\<in>set js. \<exists>r. row s (cj_id j) = Some r \<and> cj_claimed_at r = None)
            \<and> row s' = (\<lambda>i. if i \<in> cj_id ` set js then map_option (claim_job now) (row s i) else row s i))"
begin

abbreviation claimed :: "'s cron_world \<Rightarrow> cron_job_id \<Rightarrow> bool" where
  "claimed \<equiv> claimed_in row"

abbreviation sound ::
  "bool \<Rightarrow> nat \<Rightarrow> cron_job multiset \<Rightarrow> cron_job multiset \<Rightarrow> cron_job multiset \<Rightarrow> 's cron_world \<Rightarrow> bool" where
  "sound \<equiv> sound_in inv row"

abbreviation easy :: "bool \<Rightarrow> nat \<Rightarrow> ('s cron_world \<Rightarrow> 's cron_world) \<Rightarrow> bool" where
  "easy \<equiv> easy_in inv row"

abbreviation tame :: "bool \<Rightarrow> nat \<Rightarrow> cron_job \<Rightarrow> ('s cron_world \<Rightarrow> 's cron_world) \<Rightarrow> bool" where
  "tame \<equiv> tame_in inv row"

lemma easyE:
  assumes "easy exact n f" "sound exact n A F P w"
  obtains A' where "sound exact n A' F P (f w)"
  using assms unfolding easy_in_def by blast

lemma tameE:
  assumes "tame exact n j f" "sound exact n (add_mset j A) F P w"
  obtains A' where "sound exact n (add_mset j A') F P (f w)"
  using assms unfolding tame_in_def by blast

lemma easy_id [simp]: "easy exact n (\<lambda>w. w)"
  by (auto simp: easy_in_def)

lemma tame_id [simp]: "tame exact n j (\<lambda>w. w)"
  by (auto simp: tame_in_def)

lemma easy_comp: "easy exact n f \<Longrightarrow> easy exact n g \<Longrightarrow> easy exact n (\<lambda>w. g (f w))"
  unfolding easy_in_def by blast

lemma tame_comp: "tame exact n j f \<Longrightarrow> tame exact n j g \<Longrightarrow> tame exact n j (\<lambda>w. g (f w))"
  unfolding tame_in_def by blast

lemma easy_case:
  "easy exact n (\<lambda>w. fst (g w)) \<Longrightarrow> (\<And>x. easy exact n (h x)) \<Longrightarrow> easy exact n (\<lambda>w. case g w of (w', x) \<Rightarrow> h x w')"
  unfolding easy_in_def case_prod_beta by blast

lemma tame_case:
  "tame exact n j (\<lambda>w. fst (g w)) \<Longrightarrow> (\<And>x. tame exact n j (h x)) \<Longrightarrow> tame exact n j (\<lambda>w. case g w of (w', x) \<Rightarrow> h x w')"
  unfolding tame_in_def case_prod_beta by blast

lemma easy_fold: "list_all (\<lambda>x. easy exact n (g x)) xs \<Longrightarrow> easy exact n (fold g xs)"
  by (induction xs) (auto simp: o_def id_def intro: easy_comp)

lemma tame_fold: "list_all (\<lambda>x. tame exact n j (g x)) xs \<Longrightarrow> tame exact n j (fold g xs)"
  by (induction xs) (auto simp: o_def id_def intro: tame_comp)

lemma sound_cong:
  "inv (cw_store w') \<Longrightarrow> row (cw_store w') = row (cw_store w) \<Longrightarrow> cw_permits w' = cw_permits w \<Longrightarrow>
     cw_workers w' = cw_workers w \<Longrightarrow> sound exact n A F P w \<Longrightarrow> sound exact n A F P w'"
  by (simp add: sound_in_def claimed_in_def)

lemma now_sound:
  assumes "sound exact n A F P w"
  shows "sound exact n A F P (fst (cn_now (cron_lift api) w))"
proof (rule sound_cong [OF _ _ _ _ assms])
  have "inv (cw_store w)" using assms by (simp add: sound_in_def)
  from now_keeps [OF this]
  show "inv (cw_store (fst (cn_now (cron_lift api) w)))"
    "row (cw_store (fst (cn_now (cron_lift api) w))) = row (cw_store w)"
    by (simp_all add: cron_lift_def case_prod_beta)
qed (simp_all add: cron_lift_def case_prod_beta)

lemma now_easy: "easy exact n (\<lambda>w. fst (cn_now (cron_lift api) w))"
  and now_tame: "tame exact n j (\<lambda>w. fst (cn_now (cron_lift api) w))"
  using now_sound unfolding easy_in_def tame_in_def by blast+

section \<open>Workers\<close>

abbreviation proper :: "bool \<Rightarrow> nat \<Rightarrow> ('s cron_world, 'x, 'y) cron_cfg \<Rightarrow> cron_job \<Rightarrow> bool" where
  "proper \<equiv> proper_in api inv row"

abbreviation watched :: "bool \<Rightarrow> nat \<Rightarrow> ('s cron_world, 'x, 'y) cron_cfg \<Rightarrow> bool" where
  "watched \<equiv> watched_in api inv row"

lemma notify_tame: "proper exact n cfg j \<Longrightarrow> tame exact n j (notify_cron cfg meta kind)"
  unfolding notify_cron_def proper_in_def watched_in_def
  by (auto intro!: tame_case now_tame tame_fold simp: list_all_iff)

lemma notify_easy:
  assumes "cd_api cfg = cron_lift api" "\<And>ev. list_all (\<lambda>ob. easy exact n (ob ev)) (cd_observers cfg)"
  shows "easy exact n (notify_cron cfg meta kind)"
  unfolding notify_cron_def assms(1) by (intro easy_case now_easy easy_fold assms(2))

lemma pre_processors_tame:
  "list_all (\<lambda>p. tame exact n j (\<lambda>w. fst (p j w))) ps \<Longrightarrow>
     tame exact n j (\<lambda>w. fst (run_pre_processors ps j w))"
proof (induction ps)
  case (Cons p ps)
  have "tame exact n j (\<lambda>w'. case x of PP_Passthrough \<Rightarrow> fst (run_pre_processors ps j w') | _ \<Rightarrow> w')" for x
    using Cons by (cases x) simp_all
  then have "tame exact n j (\<lambda>w. case p j w of (w', x) \<Rightarrow>
      (case x of PP_Passthrough \<Rightarrow> fst (run_pre_processors ps j w') | _ \<Rightarrow> w'))"
    using Cons.prems by (intro tame_case) simp_all
  moreover have "fst (run_pre_processors (p # ps) j w) = (case p j w of (w', x) \<Rightarrow>
      (case x of PP_Passthrough \<Rightarrow> fst (run_pre_processors ps j w') | _ \<Rightarrow> w'))" for w
    by (auto split: prod.split cron_pre_process_result.split)
  ultimately show ?case by presburger
qed simp

lemma job_outcome_tame:
  assumes "proper exact n cfg j"
  shows "tame exact n j (\<lambda>w. fst (job_outcome cfg j outcome w))"
proof -
  have run: "fst (run_executor cfg j prompt w) = (case cd_execute cfg j prompt w of (w', x) \<Rightarrow>
      (case x of Executed _ \<Rightarrow> w' | _ \<Rightarrow> cd_grace cfg j w'))" for prompt w
    by (auto simp: run_executor_def split: prod.split exec_end.split)
  have "tame exact n j (\<lambda>w'. case x of Executed _ \<Rightarrow> w' | _ \<Rightarrow> cd_grace cfg j w')" for x
    using assms by (cases x) (simp_all add: proper_in_def watched_in_def)
  then have "tame exact n j (\<lambda>w. fst (run_executor cfg j prompt w))" for prompt
    unfolding run using assms by (intro tame_case) (auto simp: proper_in_def watched_in_def)
  then show ?thesis by (cases outcome) (simp_all add: job_outcome_def)
qed

lemma deliver_tame:
  assumes "proper exact n cfg j"
  shows "tame exact n j (\<lambda>w. fst (deliver_result cfg j outcome result w))"
proof -
  have "tame exact n j (fold (\<lambda>d w. fst (d dj m w)) (cd_deliveries cfg))" for dj m
    using assms by (intro tame_fold) (auto simp: proper_in_def watched_in_def)
  then have "tame exact n j (\<lambda>w. fst (dispatch_deliveries cfg j m w))" for m
    by (cases "cd_deliveries cfg = []"; cases "effective_delivery_job j") (simp_all add: dispatch_deliveries_def)
  moreover have "fst (case dispatch_deliveries cfg j m w of
        (w', Inl e) \<Rightarrow> (w', executor_error_result (show_cron_error e)) | (w', Inr _) \<Rightarrow> (w', result))
      = fst (dispatch_deliveries cfg j m w)" for m w
    by (auto split: prod.split sum.split)
  ultimately show ?thesis
    by (cases "er_text result"; cases "outcome = PP_Skip") (simp_all add: deliver_result_def)
qed

text \<open>Everything a worker does before it advances the schedule.\<close>

definition prepare :: "('w, 'x, 'y) cron_cfg \<Rightarrow> cron_job \<Rightarrow> 'w \<Rightarrow> 'w \<times> cron_exec_result" where
  "prepare cfg j w =
     (case run_pre_processors (cd_pre_processors cfg) j (observe_job cfg j CA_Started w) of (w2, outcome) \<Rightarrow>
        (case job_outcome cfg j outcome (observe_job cfg j (pre_process_kind outcome) w2) of (w4, result) \<Rightarrow>
           deliver_result cfg j outcome result w4))"

lemma work_job_prepare:
  "work_job cfg j w = (case prepare cfg j w of (w5, result) \<Rightarrow>
     (case advance_schedule cfg j result w5 of (w6, alive) \<Rightarrow>
        if alive then observe_job cfg j (cron_terminal_kind result) w6 else w6))"
  by (simp add: work_job_def prepare_def Let_def case_prod_beta)

lemma prepare_tame:
  assumes "proper exact n cfg j"
  shows "tame exact n j (\<lambda>w. fst (prepare cfg j w))"
proof -
  note observe = notify_tame [OF assms, of "Some (meta_from_job j (cj_prompt j) None)", folded observe_job_def]
  have "tame exact n j (\<lambda>w. fst (run_pre_processors (cd_pre_processors cfg) j (observe_job cfg j CA_Started w)))"
    using pre_processors_tame [of exact n j "cd_pre_processors cfg"] assms
    by (intro tame_comp [OF observe]) (simp add: proper_in_def watched_in_def)
  moreover have "tame exact n j (\<lambda>w2. fst (job_outcome cfg j x (observe_job cfg j k w2)))" for x k
    by (intro tame_comp [OF observe] job_outcome_tame assms)
  ultimately show ?thesis
    unfolding prepare_def case_prod_beta
    using deliver_tame [OF assms] by (auto simp: tame_in_def) (metis)
qed

lemma claimed_update:
  assumes "row (cw_store w') = (row (cw_store w))(i := r)"
  shows "claimed w' k = (if k = i then is_some_and (\<lambda>x. cj_claimed_at x \<noteq> None) r else claimed w k)"
  using assms by (cases r) (simp_all add: claimed_in_def)

lemma held_once:
  assumes "\<forall>i. count (image_mset cj_id (add_mset j M)) i \<le> 1"
  shows "\<forall>i. count (image_mset cj_id M) i \<le> 1" "cj_id j \<notin># image_mset cj_id M"
proof -
  show "\<forall>i. count (image_mset cj_id M) i \<le> 1"
    using assms by (metis count_add_mset image_mset_add_mset Suc_leD le_SucI le_Suc_eq)
  have "count (image_mset cj_id M) (cj_id j) = 0"
    using assms [rule_format, of "cj_id j"] by simp
  then show "cj_id j \<notin># image_mset cj_id M" by (simp only: count_eq_zero_iff simp_thms)
qed

text \<open>The row of one held job changes so that it is no longer claimed: nobody answers for it any more.\<close>

lemma unclaim_sound:
  assumes "sound exact n A F P w" "A + P = add_mset j (A' + P')" "mset (cw_workers w) = A' + F'"
    and "inv (cw_store w')" "row (cw_store w') = (row (cw_store w))(cj_id j := r)"
    and "is_none_or (\<lambda>x. cj_claimed_at x = None) r"
    and "cw_permits w' = cw_permits w" "cw_workers w' = cw_workers w"
  shows "sound exact n A' F' P' w'"
proof -
  note s = assms(1) [unfolded sound_in_def assms(2)]
  have once: "\<forall>i. count (image_mset cj_id (A' + P')) i \<le> 1" "cj_id j \<notin># image_mset cj_id (A' + P')"
    using held_once [of j "A' + P'"] s by simp_all
  have others: "cj_id k \<noteq> cj_id j" if "k \<in># A' + P'" for k
    using once(2) that by (metis image_eqI set_image_mset)
  note cl = claimed_update [OF assms(5)]
  have "row (cw_store w') (cj_id k) = None \<or> claimed w' (cj_id k)" if "k \<in># A' + P'" for k
    using s that others [OF that] by (auto simp: cl assms(5))
  moreover have "i \<in># image_mset cj_id (A' + P')" if "exact" "claimed w' i" for i
    using s that assms(6) by (cases r) (auto simp: cl split: if_splits)
  ultimately show ?thesis
    using s once(1) assms(3,4,7,8) unfolding sound_in_def by simp
qed

lemma advance_sound:
  assumes "proper exact n cfg j" "sound exact n (add_mset j A) F P w"
    and "exact \<longrightarrow> (\<forall>now. next_fire (cd_time cfg) (cj_schedule j) now \<noteq> None)"
    and "advance_schedule cfg j result w = (w', alive)"
  obtains A' where "sound exact n A' (add_mset j F) P w'"
proof -
  have api: "cd_api cfg = cron_lift api" using assms(1) by (simp add: proper_in_def watched_in_def)
  have easy: "easy exact n (observe_job cfg k kind)" for k kind
    unfolding observe_job_def using assms(1) by (intro notify_easy api) (auto simp: proper_in_def watched_in_def list_all_iff)
  obtain w1 now where t: "cn_now (cd_api cfg) w = (w1, now)" by (metis surj_pair)
  have w1: "sound exact n (add_mset j A) F P w1"
    using now_sound [OF assms(2)] t by (simp add: api)
  show thesis
  proof (cases "next_fire (cd_time cfg) (cj_schedule j) now")
    case None
    then have "\<not> exact" "w' = w1" using assms(3,4) t by (metis, simp add: advance_schedule_def)
    moreover have "sound False n A (add_mset j F) P w1"
      using w1 held_once [of j "A + P"] by (simp add: sound_in_def)
    ultimately show thesis using that by simp
  next
    case (Some fire)
    define disable where "disable = (cj_run_once j \<and> is_success result)"
    obtain w2 r where f: "cn_finish (cd_api cfg) (cj_id j) now fire disable w1 = (w2, r)" by (metis surj_pair)
    have w2: "w2 = fst (on_cron (cn_finish api (cj_id j) now fire disable) w1)"
      using f by (simp add: api cron_lift_def)
    have inv1: "inv (cw_store w1)" using w1 by (simp add: sound_in_def)
    have "sound exact n A (add_mset j F) P w2"
    proof (rule unclaim_sound [OF w1, of j A P "add_mset j F" w2])
      show "mset (cw_workers w1) = A + add_mset j F" using w1 by (simp add: sound_in_def)
      show "is_none_or (\<lambda>x. cj_claimed_at x = None)
          (map_option (finish_job now fire disable) (row (cw_store w1) (cj_id j)))"
        by (cases "row (cw_store w1) (cj_id j)") simp_all
    qed (use finish_writes [OF inv1, of "cj_id j" now fire disable] in \<open>simp_all add: w2\<close>)
    moreover have "w' = observe_job cfg j (case r of Inr _ \<Rightarrow> CA_ScheduleAdvanced fire disable
        | Inl e \<Rightarrow> CA_ScheduleAdvanceFailed (redacted (show_store_error e))) w2"
      using assms(4) t f Some by (simp add: advance_schedule_def disable_def split: sum.splits)
    ultimately show thesis using easyE [OF easy] that by metis
  qed
qed

lemma worker_gone_sound:
  assumes "sound exact n A (add_mset j F) P w"
  shows "sound exact n A F P (worker_gone j w)"
proof -
  have "j \<in> set (cw_workers w)" "mset (cw_workers w) = add_mset j (A + F)"
    using assms by (simp_all add: sound_in_def) (metis set_mset_mset union_iff union_single_eq_member add_mset_add_single)
  then show ?thesis
    using assms by (simp add: sound_in_def worker_gone_def claimed_in_def length_remove1)
      (metis One_nat_def Suc_pred add_Suc_right add_Suc_shift length_pos_if_in_set)
qed

lemma drive_sound:
  assumes "proper exact n cfg j" "sound exact n (add_mset j A) F P w"
    and "exact \<longrightarrow> (\<forall>now. next_fire (cd_time cfg) (cj_schedule j) now \<noteq> None)"
  obtains A' where "sound exact n A' F P (drive_one_job cfg j w)"
proof -
  have api: "cd_api cfg = cron_lift api" using assms(1) by (simp add: proper_in_def watched_in_def)
  have easy: "easy exact n (observe_job cfg k kind)" for k kind
    unfolding observe_job_def using assms(1) by (intro notify_easy api) (auto simp: proper_in_def watched_in_def list_all_iff)
  obtain w5 result where p: "prepare cfg j w = (w5, result)" by (metis surj_pair)
  obtain A1 where w5: "sound exact n (add_mset j A1) F P w5"
    using tameE [OF prepare_tame [OF assms(1)] assms(2)] p by auto
  obtain w6 alive where a: "advance_schedule cfg j result w5 = (w6, alive)" by (metis surj_pair)
  obtain A2 where "sound exact n A2 (add_mset j F) P w6"
    using advance_sound [OF assms(1) w5 assms(3) a] .
  moreover have "easy exact n (\<lambda>w. if alive then observe_job cfg j kind w else w)" for kind
    using easy by (cases alive) simp_all
  ultimately obtain A3 where "sound exact n A3 (add_mset j F) P
      (if alive then observe_job cfg j (cron_terminal_kind result) w6 else w6)"
    by (meson easyE)
  then have "sound exact n A3 (add_mset j F) P (work_job cfg j w)"
    using p a by (simp add: work_job_prepare)
  from worker_gone_sound [OF this] that show thesis by (simp add: drive_one_job_def)
qed

section \<open>Ticks\<close>

lemma spawn_sound:
  "sound exact n A F (add_mset j P) w \<Longrightarrow> 0 < cw_permits w \<Longrightarrow> sound exact n (add_mset j A) F P (spawn_job j w)"
  by (simp add: sound_in_def spawn_job_def claimed_in_def)

lemma watched_easy: "watched exact n cfg \<Longrightarrow> easy exact n (notify_cron cfg meta kind)"
  unfolding watched_in_def by (intro notify_easy) simp_all

lemma release_sound:
  assumes "watched exact n cfg" "sound exact n A F (add_mset j P) w"
  obtains A' where "sound exact n A' F P (release_unclaimed cfg j w)"
proof -
  have api: "cd_api cfg = cron_lift api" using assms(1) by (simp add: watched_in_def)
  obtain w1 r where c: "cn_release (cd_api cfg) (cj_id j) w = (w1, r)" by (metis surj_pair)
  then have w1: "w1 = fst (on_cron (cn_release api (cj_id j)) w)" "r = snd (on_cron (cn_release api (cj_id j)) w)"
    by (simp_all add: api cron_lift_def)
  have inv: "inv (cw_store w)" using assms(2) by (simp add: sound_in_def)
  have "sound exact n A F P w1"
  proof (rule unclaim_sound [OF assms(2), of j A P F w1])
    show "mset (cw_workers w) = A + F" using assms(2) by (simp add: sound_in_def)
    show "is_none_or (\<lambda>x. cj_claimed_at x = None) (map_option release_job (row (cw_store w) (cj_id j)))"
      by (cases "row (cw_store w) (cj_id j)") simp_all
  qed (use release_writes [OF inv, of "cj_id j"] in \<open>simp_all add: w1\<close>)
  moreover have "release_unclaimed cfg j w = observe_job cfg j CA_ClaimReleased w1"
    using release_writes [OF inv, of "cj_id j"] c w1(2) by (simp add: release_unclaimed_def)
  ultimately show thesis
    using easyE [OF watched_easy [OF assms(1)]] that unfolding observe_job_def by metis
qed

lemma hand_on_sound:
  assumes "watched exact n cfg"
  shows "sound exact n A F (mset js) w \<Longrightarrow> \<exists>A'. sound exact n A' F {#} (fold (spawn_or_release_job cfg) js w)"
proof (induction js arbitrary: A w)
  case (Cons j js)
  have "\<exists>A'. sound exact n A' F (mset js) (spawn_or_release_job cfg j w)"
  proof (cases "cw_permits w = 0")
    case True
    obtain A1 where "sound exact n A1 F (add_mset j (mset js))
        (observe_job cfg j (CA_ConcurrencyLimit (cd_max_concurrent cfg)) w)"
      using easyE [OF watched_easy [OF assms]] Cons.prems unfolding observe_job_def by (metis mset.simps(2))
    from release_sound [OF assms this] True show ?thesis by (auto simp: spawn_or_release_job_def)
  next
    case False
    then show ?thesis using spawn_sound [of exact n A F j "mset js" w] Cons.prems
      by (auto simp: spawn_or_release_job_def)
  qed
  then show ?case using Cons.IH by auto
qed auto

lemma claims_sound:
  assumes "sound exact n A F {#} w" "cn_claim_due (cron_lift api) now limit w = (w', Inr js)"
  shows "sound exact n A F (mset js) w'"
proof -
  note s = assms(1) [unfolded sound_in_def]
  have inv: "inv (cw_store w)" using s by simp
  have w': "cw_permits w' = cw_permits w" "cw_workers w' = cw_workers w"
    "cn_claim_due api now limit (cw_store w) = (cw_store w', Inr js)"
    using assms(2) by (auto simp: cron_lift_def on_cron_def split: prod.splits)
  note c = claim_writes [OF inv w'(3), simplified]
  have fresh: "cj_id k \<notin> cj_id ` set js" if "k \<in># A" for k
    using s that c by (fastforce simp: claimed_in_def)
  have "count (image_mset cj_id (A + mset js)) i \<le> 1" for i
  proof (cases "i \<in> cj_id ` set js")
    case True
    then have "i \<notin># image_mset cj_id A" using fresh by (metis imageE set_image_mset)
    moreover have "count (mset (map cj_id js)) i \<le> 1" using c by (simp add: distinct_count_atmost_1)
    ultimately show ?thesis using not_in_iff [of i "image_mset cj_id A"] by simp
  next
    case False
    then have "count (image_mset cj_id (mset js)) i = 0" by (simp add: not_in_iff [symmetric])
    then show ?thesis using s by simp
  qed
  moreover have "row (cw_store w') (cj_id k) = None \<or> claimed w' (cj_id k)" if "k \<in># A + mset js" for k
  proof (cases "k \<in># A")
    case True
    then show ?thesis using s c fresh [OF True] by (auto simp: claimed_in_def)
  next
    case False
    then show ?thesis using that c by (force simp: claimed_in_def)
  qed
  moreover have "i \<in># image_mset cj_id (A + mset js)" if "exact" "claimed w' i" for i
    using s that c by (auto simp: claimed_in_def split: if_splits)
  ultimately show ?thesis using s c w' unfolding sound_in_def by simp
qed

lemma tick_sound:
  assumes "watched exact n cfg" "sound exact n A F {#} w"
  obtains A' where "sound exact n A' F {#} (tick_once cfg w)"
proof -
  have api: "cd_api cfg = cron_lift api" using assms(1) by (simp add: watched_in_def)
  obtain w0 now where t: "cn_now (cd_api cfg) w = (w0, now)" by (metis surj_pair)
  have w0: "sound exact n A F {#} w0" using now_sound [OF assms(2)] t by (simp add: api)
  obtain w1 r where c: "cn_claim_due (cd_api cfg) now (cd_claim_limit cfg) w0 = (w1, r)" by (metis surj_pair)
  show thesis
  proof (cases r)
    case (Inl e)
    have inv: "inv (cw_store w0)" using w0 by (simp add: sound_in_def)
    have w1: "cw_permits w1 = cw_permits w0" "cw_workers w1 = cw_workers w0"
      "cn_claim_due api now (cd_claim_limit cfg) (cw_store w0) = (cw_store w1, Inl e)"
      using c Inl by (auto simp: api cron_lift_def on_cron_def split: prod.splits)
    from claim_writes [OF inv w1(3)] have "sound exact n A F {#} w1"
      by (intro sound_cong [OF _ _ w1(1,2) w0]) simp_all
    then obtain A1 where "sound exact n A1 F {#}
        (notify_cron cfg None (CA_ClaimFailed (redacted (show_store_error e))) w1)"
      using easyE [OF watched_easy [OF assms(1)]] by metis
    with that t c Inl show thesis by (auto simp: tick_once_def claim_due_jobs_def)
  next
    case (Inr js)
    have "sound exact n A F (mset js) w1" using claims_sound [OF w0] c Inr by (simp add: api)
    then obtain A1 where "sound exact n A1 F (mset js)
        (notify_cron cfg None (CA_ClaimedBatch (length js) (cd_claim_limit cfg)) w1)"
      using easyE [OF watched_easy [OF assms(1)]] by metis
    from hand_on_sound [OF assms(1) this] that t c Inr show thesis
      by (auto simp: tick_once_def claim_due_jobs_def)
  qed
qed

end

section \<open>The in-memory store\<close>

type_synonym cron_mem = "cron_store mem_world"

definition on_jobs :: "(cron_store \<Rightarrow> cron_store \<times> (store_error + 'a)) \<Rightarrow> (cron_mem, store_error, 'a) store_op" where
  "on_jobs op w = (case op (mw_store w) of (s, r) \<Rightarrow> (w\<lparr>mw_store := s\<rparr>, r))"

definition cron_mem_api :: "cron_mem cron_api" where
  "cron_mem_api =
     \<lparr>cn_claim_due = (\<lambda>now limit. on_jobs (\<lambda>s. ok (claim_due now limit s))),
      cn_finish = (\<lambda>i l n d. on_jobs (\<lambda>s. (finish_claim i l n d s, Inr ()))),
      cn_release = (\<lambda>i. on_jobs (\<lambda>s. (release_claim_only i s, Inr ()))),
      cn_recover = (\<lambda>secs w. case mem_now w of (w', now) \<Rightarrow>
        on_jobs (\<lambda>s. ok (cron_recover_stuck now secs s)) w'),
      cn_now = mem_now\<rparr>"

abbreviation cron_mem_inv :: "cron_mem \<Rightarrow> bool" where
  "cron_mem_inv w \<equiv> cron_wf (mw_store w)"

abbreviation cron_mem_row :: "cron_mem \<Rightarrow> cron_job_id \<Rightarrow> cron_job option" where
  "cron_mem_row w \<equiv> map_of (mw_store w)"

interpretation mem_cron: cron_contract cron_mem_api cron_mem_inv cron_mem_row
proof unfold_locales
  fix s s' :: cron_mem and now limit r
  assume wf: "cron_mem_inv s" and c: "cn_claim_due cron_mem_api now limit s = (s', r)"
  then have s': "s' = s\<lparr>mw_store := fst (claim_due now limit (mw_store s))\<rparr>"
    "r = Inr (snd (claim_due now limit (mw_store s)))"
    by (simp_all add: cron_mem_api_def on_jobs_def ok_def case_prod_beta)
  note spec = claim_due_spec [OF wf, of now limit]
  have ids: "set (due_ids now limit (mw_store s)) = cj_id ` set (snd (claim_due now limit (mw_store s)))"
    using claimed_ids [OF wf, of now limit] by (metis set_map)
  have "\<exists>r. cron_mem_row s (cj_id j) = Some r \<and> cj_claimed_at r = None"
    if "j \<in> set (snd (claim_due now limit (mw_store s)))" for j
    using due_ids_props(2) [OF wf, of "cj_id j" now limit] that ids by (auto simp: is_due_def)
  moreover have "length (snd (claim_due now limit (mw_store s))) \<le> limit"
    using due_ids_props(3) [OF wf] by (simp add: spec(3))
  ultimately show "cron_mem_inv s' \<and> (case r of
        Inl _ \<Rightarrow> cron_mem_row s' = cron_mem_row s
      | Inr js \<Rightarrow> distinct (map cj_id js) \<and> length js \<le> limit
          \<and> (\<forall>j\<in>set js. \<exists>r. cron_mem_row s (cj_id j) = Some r \<and> cj_claimed_at r = None)
          \<and> cron_mem_row s' = (\<lambda>i. if i \<in> cj_id ` set js
              then map_option (claim_job now) (cron_mem_row s i) else cron_mem_row s i))"
    using spec(1,2) due_ids_props(1) [OF wf, of now limit]
    by (simp add: s' ids claimed_ids [OF wf] fun_eq_iff)
qed (auto simp: cron_mem_api_def on_jobs_def mem_now_def finish_claim_def release_claim_only_def
    fun_eq_iff hm_get_modify intro: cron_wf_modify)

section \<open>No job twice, no claim lost\<close>

type_synonym cron_mem_world = "cron_mem cron_world"

text \<open>What may happen to a running scheduler: ticks, workers driven to their end, anything else that
  keeps the books. Workers interleave through the functions of the configuration.\<close>

inductive scheduler_step ::
  "bool \<Rightarrow> nat \<Rightarrow> (cron_mem_world, 'x, 'y) cron_cfg \<Rightarrow> cron_mem_world \<Rightarrow> cron_mem_world \<Rightarrow> bool"
  for exact n cfg where
  tick: "scheduler_step exact n cfg w (tick_once cfg w)"
| work: "j \<in> set (cw_workers w) \<Longrightarrow> proper_in cron_mem_api cron_mem_inv cron_mem_row exact n cfg j \<Longrightarrow>
    exact \<longrightarrow> (\<forall>now. next_fire (cd_time cfg) (cj_schedule j) now \<noteq> None) \<Longrightarrow>
    scheduler_step exact n cfg w (drive_one_job cfg j w)"
| other: "easy_in cron_mem_inv cron_mem_row exact n f \<Longrightarrow> scheduler_step exact n cfg w (f w)"

lemma count_at_most_one:
  assumes "\<forall>i. count (mset ids) i \<le> 1"
  shows "distinct ids"
proof -
  have one: "k = (if b then 1 else 0)" if "0 < k \<longleftrightarrow> b" "k \<le> 1" for k :: nat and b
    using that by auto
  have "count (mset ids) a = (if a \<in> set ids then 1 else 0)" for a
    by (rule one) (simp, rule assms [rule_format])
  then show ?thesis by (simp add: distinct_count_atmost_1)
qed



section \<open>Witnesses\<close>

definition sample_due_job :: cron_job where
  "sample_due_job = sample_job\<lparr>cj_schedule := schedule_every 60, cj_delivery_ctx := JObj [],
     cj_scope := global_scope\<lparr>sc_conv := Some ''slack:C1''\<rparr>\<rparr>"

definition sample_cron :: cron_mem_world where
  "sample_cron = \<lparr>cw_store = \<lparr>mw_store = [(cj_id sample_due_job, sample_due_job)], mw_ids = (\<lambda>n. ''x''),
       mw_drawn = 0, mw_clock = (\<lambda>n. 1000000000000 + int n), mw_ticks = 0\<rparr>,
     cw_cancel = False, cw_permits = 4, cw_workers = []\<rparr>"

definition sample_time :: "(unit, unit) time_crates" where
  "sample_time = \<lparr>tc_parse = (\<lambda>s. Inr ()), tc_tz = (\<lambda>s. None), tc_after = (\<lambda>s z t. Some (t + 1)),
     tc_in_range = (\<lambda>t. True)\<rparr>"

definition sample_cfg :: "(cron_mem_world, unit, unit) cron_cfg" where
  "sample_cfg = cron_scheduler_new (cron_lift cron_mem_api)
     (\<lambda>j p w. (w, Executed (Inr \<lparr>er_text = Some p, er_error = None\<rparr>))) (\<lambda>j w. w) sample_time"



end
