(* ===== verification/Channel_Types.thy ===== *)
theory Channel_Types
  imports Policy Rust_Parse
begin

text \<open>
  The data of the channel layer (\<open>crabgent-channel/src\<close>: \<open>envelope.rs\<close>, \<open>participant.rs\<close>,
  \<open>channel.rs\<close>, \<open>error.rs\<close>, \<open>subject.rs\<close>, \<open>subject/id.rs\<close>, \<open>action.rs\<close>, \<open>inbound.rs\<close>,
  \<open>inbox/hint.rs\<close>, \<open>inbox/subject_resolver.rs\<close>): who sent what in which conversation, the subject
  a policy sees, and the text the model sees. The properties: a subject id names one participant of
  one channel, a message reference survives the attributes of a subject, and text from a channel
  cannot close the tag it is put in.

  The general category of a character is a table of an external crate and a parameter here.
\<close>

section \<open>Participants and envelopes\<close>

datatype channel_kind = Kind_Group | Kind_Direct

definition kind_as_str :: "channel_kind \<Rightarrow> string" where
  "kind_as_str k = (case k of Kind_Group \<Rightarrow> ''group'' | Kind_Direct \<Rightarrow> ''direct'')"

definition kind_parse :: "string \<Rightarrow> channel_kind option" where
  "kind_parse v = (if v = ''group'' then Some Kind_Group
     else if v = ''direct'' then Some Kind_Direct else None)"

record conv_label =
  lb_name :: "string option"
  lb_workspace :: "string option"

definition conv_label_default :: conv_label where
  "conv_label_default = \<lparr>lb_name = None, lb_workspace = None\<rparr>"

datatype participant_role = Role_Human | Role_Bot | Role_Custom string

definition role_as_str :: "participant_role \<Rightarrow> string" where
  "role_as_str r = (case r of
       Role_Human \<Rightarrow> ''human'' | Role_Bot \<Rightarrow> ''bot'' | Role_Custom s \<Rightarrow> s)"

record participant =
  pa_id :: string
  pa_role :: participant_role
  pa_display_name :: "string option"

definition participant_new :: "string \<Rightarrow> participant_role \<Rightarrow> participant" where
  "participant_new i r = \<lparr>pa_id = i, pa_role = r, pa_display_name = None\<rparr>"

definition with_display_name :: "string \<Rightarrow> participant \<Rightarrow> participant" where
  "with_display_name n p = p\<lparr>pa_display_name := Some n\<rparr>"

record message_ref =
  mr_channel :: string
  mr_conv :: owner
  mr_id :: string
  mr_thread_root :: "string option"
  mr_broadcast :: bool

definition top_level :: "string \<Rightarrow> owner \<Rightarrow> string \<Rightarrow> message_ref" where
  "top_level channel conv i = \<lparr>mr_channel = channel, mr_conv = conv, mr_id = i,
     mr_thread_root = None, mr_broadcast = False\<rparr>"

definition thread_reply_broadcast ::
  "string \<Rightarrow> owner \<Rightarrow> string \<Rightarrow> string \<Rightarrow> bool \<Rightarrow> message_ref" where
  "thread_reply_broadcast channel conv i root_id broadcast = \<lparr>mr_channel = channel, mr_conv = conv,
     mr_id = i, mr_thread_root = Some root_id, mr_broadcast = broadcast\<rparr>"

definition thread_reply :: "string \<Rightarrow> owner \<Rightarrow> string \<Rightarrow> string \<Rightarrow> message_ref" where
  "thread_reply channel conv i root_id = thread_reply_broadcast channel conv i root_id False"

definition thread_root_or_id :: "message_ref \<Rightarrow> string" where
  "thread_root_or_id m = unwrap_or (mr_id m) (mr_thread_root m)"

datatype ref_kind = TopLevel | ThreadReply string bool

definition message_kind_of :: "message_ref \<Rightarrow> ref_kind" where
  "message_kind_of m = (case mr_thread_root m of
       Some r \<Rightarrow> ThreadReply r (mr_broadcast m) | None \<Rightarrow> TopLevel)"

definition is_thread_reply :: "message_ref \<Rightarrow> bool" where
  "is_thread_reply m \<longleftrightarrow> mr_thread_root m \<noteq> None"

record outbound_message =
  om_body :: string
  om_thread_parent :: "message_ref option"
  om_metadata :: "(string, string) hmap"

definition outbound_new :: "string \<Rightarrow> outbound_message" where
  "outbound_new body = \<lparr>om_body = body, om_thread_parent = None, om_metadata = []\<rparr>"

definition in_thread :: "message_ref \<Rightarrow> outbound_message \<Rightarrow> outbound_message" where
  "in_thread parent m = m\<lparr>om_thread_parent := Some parent\<rparr>"

definition with_metadata :: "string \<Rightarrow> string \<Rightarrow> outbound_message \<Rightarrow> outbound_message" where
  "with_metadata k v m = m\<lparr>om_metadata := AList.update k v (om_metadata m)\<rparr>"

record inbound_event =
  ie_channel :: string
  ie_conv :: owner
  ie_kind :: "channel_kind option"
  ie_from :: participant
  ie_message :: message_ref
  ie_body :: string
  ie_attachments :: "content_block list"
  ie_timestamp :: instant

record inbound_reaction =
  ir_channel :: string
  ir_conv :: owner
  ir_from :: participant
  ir_parent :: message_ref
  ir_emoji :: string
  ir_added :: bool
  ir_timestamp :: instant

section \<open>Errors\<close>

datatype channel_error =
    CH_NotRegistered string
  | CH_ConversationNotFound string
  | CH_InvalidOwnerFormat string
  | CH_Adapter string
  | CH_Unsupported string
  | CH_SttFailed string
  | CH_PolicyDenied string string
  | CH_InvalidEnvelope string
  | CH_InvalidSubject
  | CH_InvalidPattern string
  | CH_SignatureMismatch
  | CH_Cancelled
  | CH_ShuttingDown
  | CH_Kernel kernel_error
  | CH_Serde string
  | CH_InboundTooLarge nat nat

definition show_channel_error :: "channel_error \<Rightarrow> string" where
  "show_channel_error e = (case e of
       CH_NotRegistered n \<Rightarrow> ''channel '' @ [CHR 0x27] @ n @ [CHR 0x27] @ '' is not registered''
     | CH_ConversationNotFound c \<Rightarrow> ''conversation not found: '' @ c
     | CH_InvalidOwnerFormat s \<Rightarrow> ''invalid owner format: '' @ s
     | CH_Adapter _ \<Rightarrow> ''channel adapter error''
     | CH_Unsupported s \<Rightarrow>
         ''operation '' @ [CHR 0x27] @ s @ [CHR 0x27] @ '' not supported on this channel''
     | CH_SttFailed _ \<Rightarrow> ''speech-to-text failed''
     | CH_PolicyDenied a r \<Rightarrow> ''policy denied ['' @ a @ '']: '' @ r
     | CH_InvalidEnvelope _ \<Rightarrow> ''invalid envelope''
     | CH_InvalidSubject \<Rightarrow> ''invalid subject: subject id must not be empty or whitespace-only''
     | CH_InvalidPattern s \<Rightarrow> ''invalid stop pattern: '' @ s
     | CH_SignatureMismatch \<Rightarrow> ''signature verification failed''
     | CH_Cancelled \<Rightarrow> ''cancelled''
     | CH_ShuttingDown \<Rightarrow> ''channel inbox is shutting down''
     | CH_Kernel k \<Rightarrow> ''kernel error: '' @ show_kernel_error k
     | CH_Serde s \<Rightarrow> ''serde error: '' @ s
     | CH_InboundTooLarge observed largest \<Rightarrow> ''inbound body too large: '' @ show_nat observed
         @ '' bytes exceeds '' @ show_nat largest @ '' bytes'')"

section \<open>Subject ids\<close>

definition encode_char :: "char \<Rightarrow> string" where
  "encode_char c = (if c = CHR '':'' then ''%3A'' else if c = CHR ''%'' then ''%25'' else [c])"

definition encode_subject_component :: "string \<Rightarrow> string" where
  "encode_subject_component s = concat (map encode_char s)"

definition decode_subject_escape :: "char \<Rightarrow> char \<Rightarrow> char option" where
  "decode_subject_escape hi lo =
     (if hi = CHR ''2'' \<and> lo = CHR ''5'' then Some (CHR ''%'')
      else if hi = CHR ''3'' \<and> (lo = CHR ''A'' \<or> lo = CHR ''a'') then Some (CHR '':'')
      else None)"

fun decode_subject_component :: "string \<Rightarrow> string option" where
  "decode_subject_component [] = Some []"
| "decode_subject_component (c # s) =
     (if c \<noteq> CHR ''%'' then map_option ((#) c) (decode_subject_component s)
      else (case s of
          hi # lo # r \<Rightarrow> (case decode_subject_escape hi lo of
              None \<Rightarrow> None
            | Some d \<Rightarrow> map_option ((#) d) (decode_subject_component r))
        | _ \<Rightarrow> None))"

definition channel_subject_id :: "string \<Rightarrow> string \<Rightarrow> string" where
  "channel_subject_id channel participant_id =
     encode_subject_component channel @ '':'' @ encode_subject_component participant_id"

definition parse_channel_subject_id :: "string \<Rightarrow> (string \<times> string) option" where
  "parse_channel_subject_id i = Option.bind (split_once CHR '':'' i) (\<lambda>(channel, participant_id).
     Option.bind (decode_subject_component channel) (\<lambda>c.
     Option.bind (decode_subject_component participant_id) (\<lambda>p.
       if trim c = [] \<or> trim p = [] then None else Some (c, p))))"

lemma decode_encode: "decode_subject_component (encode_subject_component s) = Some s"
  by (induction s) (auto simp: encode_subject_component_def encode_char_def decode_subject_escape_def)

lemma encode_no_colon: "CHR '':'' \<notin> set (encode_subject_component s)"
  by (induction s) (auto simp: encode_subject_component_def encode_char_def)

text \<open>C26: a subject id names one participant of one channel. Ids of different pairs differ, whatever
  delimiters the names contain, and a pair of names that are not blank is read back.\<close>

theorem subject_id_names_one:
  "(channel_subject_id c p = channel_subject_id c' p') = (c = c' \<and> p = p')
   \<and> parse_channel_subject_id (channel_subject_id c p)
     = (if trim c = [] \<or> trim p = [] then None else Some (c, p))"
proof -
  have split: "split_once CHR '':'' (channel_subject_id c p)
      = Some (encode_subject_component c, encode_subject_component p)" for c p
    using split_once_at [OF encode_no_colon] by (simp add: channel_subject_id_def)
  have "channel_subject_id c p = channel_subject_id c' p' \<Longrightarrow> c = c' \<and> p = p'"
    using split [of c p] split [of c' p'] decode_encode [of c] decode_encode [of p]
      decode_encode [of c'] decode_encode [of p'] by simp
  then show ?thesis by (auto simp: parse_channel_subject_id_def split decode_encode)
qed

section \<open>Attributes of a subject\<close>

definition attr_channel :: string where "attr_channel = ''channel''"
definition attr_conv :: string where "attr_conv = ''conv''"
definition attr_channel_kind :: string where "attr_channel_kind = ''channel_kind''"
definition attr_channel_display :: string where "attr_channel_display = ''channel_display''"
definition attr_workspace_display :: string where "attr_workspace_display = ''workspace_display''"
definition attr_sender_display :: string where "attr_sender_display = ''sender_display''"
definition attr_participant_role :: string where "attr_participant_role = ''participant_role''"
definition attr_participant_id :: string where "attr_participant_id = ''participant_id''"
definition attr_inbound_msg_id :: string where "attr_inbound_msg_id = ''inbound_msg_id''"
definition attr_inbound_thread_root :: string where
  "attr_inbound_thread_root = ''inbound_msg_thread_root''"
definition attr_inbound_broadcast :: string where "attr_inbound_broadcast = ''inbound_msg_broadcast''"
definition attr_reaction_emoji :: string where "attr_reaction_emoji = ''inbound_reaction_emoji''"
definition attr_reaction_target :: string where
  "attr_reaction_target = ''inbound_reaction_target_msg_id''"
definition attr_reaction_added :: string where "attr_reaction_added = ''inbound_reaction_added''"

lemmas attr_keys = attr_channel_def attr_conv_def attr_channel_kind_def attr_channel_display_def
  attr_workspace_display_def attr_sender_display_def attr_participant_role_def attr_participant_id_def
  attr_inbound_msg_id_def attr_inbound_thread_root_def attr_inbound_broadcast_def
  attr_reaction_emoji_def attr_reaction_target_def attr_reaction_added_def

lemma attr_keys_distinct:
  "distinct [attr_channel, attr_conv, attr_channel_kind, attr_channel_display, attr_workspace_display,
     attr_sender_display, attr_participant_role, attr_participant_id, attr_inbound_msg_id,
     attr_inbound_thread_root, attr_inbound_broadcast, attr_reaction_emoji, attr_reaction_target, attr_reaction_added]"
  by (simp add: attr_keys)

lemmas attr_ne [simp] = attr_keys_distinct [simplified] attr_keys_distinct [THEN distinct_rev [THEN iffD2], simplified]

definition show_bool :: "bool \<Rightarrow> string" where
  "show_bool b = (if b then ''true'' else ''false'')"

definition subject_with_channel :: "string \<Rightarrow> owner \<Rightarrow> channel_kind \<Rightarrow> subject \<Rightarrow> subject" where
  "subject_with_channel channel conv kind s =
     with_attr attr_channel_kind (kind_as_str kind) (with_attr attr_conv conv (with_attr attr_channel channel s))"

definition with_participant_role :: "string \<Rightarrow> subject \<Rightarrow> subject" where
  "with_participant_role role s = with_attr attr_participant_role role s"

definition with_inbound_message_ref :: "message_ref \<Rightarrow> subject \<Rightarrow> subject" where
  "with_inbound_message_ref m s = (case mr_thread_root m of
       Some r \<Rightarrow> with_attr attr_inbound_broadcast (show_bool (mr_broadcast m))
           (with_attr attr_inbound_thread_root r (with_attr attr_inbound_msg_id (mr_id m) s))
     | None \<Rightarrow> with_attr attr_inbound_msg_id (mr_id m) s)"

definition with_inbound_reaction :: "inbound_reaction \<Rightarrow> subject \<Rightarrow> subject" where
  "with_inbound_reaction r s = with_attr attr_reaction_added (show_bool (ir_added r))
     (with_attr attr_reaction_target (mr_id (ir_parent r)) (with_attr attr_reaction_emoji (ir_emoji r) s))"

definition with_conv_display :: "conv_label \<Rightarrow> subject \<Rightarrow> subject" where
  "with_conv_display l s =
     (let s' = (case lb_name l of Some n \<Rightarrow> with_attr attr_channel_display n s | None \<Rightarrow> s)
      in case lb_workspace l of Some ws \<Rightarrow> with_attr attr_workspace_display ws s' | None \<Rightarrow> s')"

definition with_sender_display :: "string option \<Rightarrow> subject \<Rightarrow> subject" where
  "with_sender_display d s =
     (case d of Some n \<Rightarrow> with_attr attr_sender_display n s | None \<Rightarrow> s)"

definition channel_attr :: "subject \<Rightarrow> (string \<times> string \<times> channel_kind) option" where
  "channel_attr s = Option.bind (attr s attr_channel) (\<lambda>channel.
     Option.bind (attr s attr_conv) (\<lambda>conv.
     Option.bind (Option.bind (attr s attr_channel_kind) kind_parse) (\<lambda>k. Some (channel, conv, k))))"

definition inbound_message_ref :: "subject \<Rightarrow> message_ref option" where
  "inbound_message_ref s = Option.bind (attr s attr_channel) (\<lambda>channel.
     Option.bind (attr s attr_conv) (\<lambda>conv.
     Option.bind (attr s attr_inbound_msg_id) (\<lambda>i. Some (case attr s attr_inbound_thread_root of
         Some r \<Rightarrow> thread_reply_broadcast channel conv i r (attr s attr_inbound_broadcast = Some ''true'')
       | None \<Rightarrow> top_level channel conv i))))"

definition inbound_reaction_attr :: "subject \<Rightarrow> (string \<times> string \<times> bool) option" where
  "inbound_reaction_attr s = Option.bind (attr s attr_reaction_emoji) (\<lambda>e.
     Option.bind (attr s attr_reaction_target) (\<lambda>t.
       Some (e, t, attr s attr_reaction_added = Some ''true'')))"

definition subject_from_inbound_event :: "inbound_event \<Rightarrow> channel_kind option \<Rightarrow> unit + subject" where
  "subject_from_inbound_event e kind =
     (if trim (ie_channel e) = [] \<or> trim (pa_id (ie_from e)) = [] then Inl ()
      else and_then (subject_try_new (channel_subject_id (ie_channel e) (pa_id (ie_from e)))) (\<lambda>s0.
        (let s1 = with_sender_display (pa_display_name (ie_from e))
                    (with_participant_role (role_as_str (pa_role (ie_from e))) s0);
             s2 = (case opt_or (ie_kind e) kind of
                 Some k \<Rightarrow> subject_with_channel (ie_channel e) (ie_conv e) k s1
               | None \<Rightarrow> with_attr attr_conv (ie_conv e) (with_attr attr_channel (ie_channel e) s1))
         in Inr (with_inbound_message_ref (ie_message e) s2))))"

section \<open>Text from a channel\<close>

text \<open>The characters of a UTF-8 text, each with its continuation bytes.\<close>

function utf8_chars :: "string \<Rightarrow> string list" where
  "utf8_chars [] = []"
| "utf8_chars (c # s) = (c # takeWhile is_continuation s) # utf8_chars (dropWhile is_continuation s)"
  by pat_completeness auto
termination
  by (relation "measure length") (auto simp: le_imp_less_Suc length_dropWhile_le)

datatype category_group =
  Letter | Mark | Number | Punctuation | Symbol | Separator_Group | Other_Group

record unicode_table =
  un_group :: "string \<Rightarrow> category_group"
  un_space_separator :: "string \<Rightarrow> bool"

definition is_allowed :: "unicode_table \<Rightarrow> string \<Rightarrow> bool" where
  "is_allowed un c = (case un_group un c of
       Letter \<Rightarrow> True | Number \<Rightarrow> True | Punctuation \<Rightarrow> True | Symbol \<Rightarrow> True
     | Separator_Group \<Rightarrow> un_space_separator un c
     | Mark \<Rightarrow> False | Other_Group \<Rightarrow> False)"

definition strip_denylisted :: "unicode_table \<Rightarrow> string \<Rightarrow> string" where
  "strip_denylisted un s = concat (filter (is_allowed un) (utf8_chars s))"

definition sanitize_for_prompt :: "unicode_table \<Rightarrow> string \<Rightarrow> string" where
  "sanitize_for_prompt un s = xml_escape_body (strip_denylisted un s)"

definition sanitize_field :: "unicode_table \<Rightarrow> string \<Rightarrow> string" where
  "sanitize_field un s =
     (let cleaned = sanitize_for_prompt un s in if cleaned = [] then ''(unknown)'' else cleaned)"

definition inbound_body_max_bytes :: nat where "inbound_body_max_bytes = 8192"

definition check_inbound_size :: "string \<Rightarrow> channel_error + unit" where
  "check_inbound_size s =
     (if length s > inbound_body_max_bytes
      then Inl (CH_InboundTooLarge (length s) inbound_body_max_bytes) else Inr ())"

text \<open>The builder that adapters assemble events with: the body is checked when the builder is made and
  sanitized when the event is built.\<close>

record inbound_event_builder =
  bu_channel :: string
  bu_conv :: owner
  bu_kind :: "channel_kind option"
  bu_from :: participant
  bu_message_id :: string
  bu_thread_root :: "string option"
  bu_broadcast :: bool
  bu_body :: string
  bu_attachments :: "content_block list"
  bu_timestamp :: instant

definition inbound_body_new :: "string \<Rightarrow> channel_error + string" where
  "inbound_body_new body = and_then (check_inbound_size body) (\<lambda>_. Inr body)"

definition builder_new ::
  "string \<Rightarrow> owner \<Rightarrow> string \<Rightarrow> participant \<Rightarrow> string \<Rightarrow> instant \<Rightarrow> inbound_event_builder" where
  "builder_new channel conv message_id sender body ts =
     \<lparr>bu_channel = channel, bu_conv = conv, bu_kind = None, bu_from = sender,
      bu_message_id = message_id, bu_thread_root = None, bu_broadcast = False, bu_body = body,
      bu_attachments = [], bu_timestamp = ts\<rparr>"

definition build_event :: "unicode_table \<Rightarrow> inbound_event_builder \<Rightarrow> inbound_event" where
  "build_event un b =
     \<lparr>ie_channel = bu_channel b, ie_conv = bu_conv b, ie_kind = bu_kind b, ie_from = bu_from b,
      ie_message = (case bu_thread_root b of
          Some r \<Rightarrow> thread_reply_broadcast (bu_channel b) (bu_conv b) (bu_message_id b) r (bu_broadcast b)
        | None \<Rightarrow> top_level (bu_channel b) (bu_conv b) (bu_message_id b)),
      ie_body = sanitize_for_prompt un (bu_body b), ie_attachments = bu_attachments b,
      ie_timestamp = bu_timestamp b\<rparr>"

section \<open>The tag around inbound text\<close>

definition quote :: "string \<Rightarrow> string" where
  "quote s = [CHR 0x22] @ s @ [CHR 0x22]"

definition push_attr :: "string \<Rightarrow> string \<Rightarrow> string \<Rightarrow> string" where
  "push_attr key escaped attrs = attrs @ '' '' @ key @ ''='' @ quote escaped"

definition push_optional_attr :: "string \<Rightarrow> string option \<Rightarrow> string \<Rightarrow> string" where
  "push_optional_attr key v attrs = (case v of
       Some s \<Rightarrow> if trim s = [] then attrs else push_attr key (sanitize_for_attribute s) attrs
     | None \<Rightarrow> attrs)"

definition push_user_attr :: "unicode_table \<Rightarrow> string \<Rightarrow> string option \<Rightarrow> string \<Rightarrow> string" where
  "push_user_attr un key v attrs = (case v of
       Some s \<Rightarrow> if trim s = [] then attrs
                 else push_attr key (sanitize_for_attribute (strip_denylisted un s)) attrs
     | None \<Rightarrow> attrs)"

definition text_ends_with :: "string \<Rightarrow> string \<Rightarrow> bool" where
  "text_ends_with suffix s \<longleftrightarrow> starts_with (rev suffix) (rev s)"

definition pre_wrapped :: "string \<Rightarrow> bool" where
  "pre_wrapped body \<longleftrightarrow> starts_with ''<inbound '' body \<and> text_ends_with ''</inbound>'' body"

definition inbound_attrs :: "unicode_table \<Rightarrow> subject \<Rightarrow> string" where
  "inbound_attrs un sub =
     (let source = (case attr sub attr_channel_kind of
              Some v \<Rightarrow> if trim v = [] then ''unknown'' else v
            | None \<Rightarrow> ''unknown'')
      in push_user_attr un ''sender'' (attr sub attr_sender_display)
        (push_user_attr un ''workspace'' (attr sub attr_workspace_display)
        (push_user_attr un ''name'' (attr sub attr_channel_display)
        (push_optional_attr ''channel'' (attr sub attr_channel)
          (''source='' @ quote (sanitize_for_attribute source))))))"

definition wrap_inbound_text_body :: "unicode_table \<Rightarrow> string \<Rightarrow> subject \<Rightarrow> bool \<Rightarrow> string" where
  "wrap_inbound_text_body un body sub trust_pre_wrapped =
     (if trust_pre_wrapped \<and> pre_wrapped body then body
      else ''<inbound '' @ inbound_attrs un sub @ ''>'' @ xml_escape_body body @ ''</inbound>'')"

definition inbound_text_body :: "unicode_table \<Rightarrow> string \<Rightarrow> subject \<Rightarrow> string" where
  "inbound_text_body un body sub = wrap_inbound_text_body un body sub True"

definition inbound_content_block :: "unicode_table \<Rightarrow> content_block \<Rightarrow> subject \<Rightarrow> content_block" where
  "inbound_content_block un block sub = (case block of
       Text t \<Rightarrow> Text (wrap_inbound_text_body un t sub False)
     | _ \<Rightarrow> block)"

definition synth_event_from_reaction :: "unicode_table \<Rightarrow> inbound_reaction \<Rightarrow> inbound_event" where
  "synth_event_from_reaction un r =
     (let verb = (if ir_added r then ''reacted'' else ''unreacted'')
      in \<lparr>ie_channel = ir_channel r, ie_conv = ir_conv r, ie_kind = None, ie_from = ir_from r,
          ie_message = ir_parent r,
          ie_body = ''[user '' @ verb @ '' with '' @ sanitize_for_prompt un (ir_emoji r)
            @ '' to message '' @ sanitize_for_prompt un (mr_id (ir_parent r)) @ '']'',
          ie_attachments = [], ie_timestamp = ir_timestamp r\<rparr>)"

text \<open>The user content of a request, of a fresh run and of an injected message.\<close>

definition inbound_content :: "unicode_table \<Rightarrow> inbound_event \<Rightarrow> subject \<Rightarrow> content_block list" where
  "inbound_content un e sub = Text (inbound_text_body un (ie_body e) sub)
     # map (\<lambda>b. inbound_content_block un b sub) (ie_attachments e)"

definition event_to_inject_value ::
  "unicode_table \<Rightarrow> (string \<Rightarrow> string) \<Rightarrow> inbound_event \<Rightarrow> subject \<Rightarrow> json" where
  "event_to_inject_value un b64 e sub =
     JObj [(''role'', JStr ''user''),
           (''content'', JArr (JObj [(''type'', JStr ''text''),
                (''text'', JStr (inbound_text_body un (ie_body e) sub))]
              # map (\<lambda>b. block_to_json b64 (inbound_content_block un b sub)) (ie_attachments e)))]"

section \<open>The conversation hint\<close>

datatype delivery_hint = Deliver_Tool | Deliver_Final

definition build_conversation_hint_with_delivery ::
  "unicode_table \<Rightarrow> inbound_event \<Rightarrow> channel_kind option \<Rightarrow> string option \<Rightarrow> delivery_hint \<Rightarrow> string" where
  "build_conversation_hint_with_delivery un e kind channel_display delivery =
     (let channel = (case channel_display of
              Some d \<Rightarrow> if sanitize_field un d \<noteq> ''(unknown)'' then sanitize_field un d
                        else sanitize_field un (ie_channel e)
            | None \<Rightarrow> sanitize_field un (ie_channel e));
          conv = sanitize_field un (ie_conv e);
          sender = sanitize_field un (unwrap_or (pa_id (ie_from e)) (pa_display_name (ie_from e)));
          role = sanitize_field un (role_as_str (pa_role (ie_from e)));
          delivery_text = (case delivery of
              Deliver_Tool \<Rightarrow> ''To reply, call the channel_send tool with conv='' @ quote conv
                @ ''. Plain text in your final response is NOT delivered to the participant.''
            | Deliver_Final \<Rightarrow> ''Reply by writing normal assistant text in your final response; the channel runtime delivers it to the participant. Use channel_send with conv='' @ quote conv
                @ '' only for explicit extra channel messages.'');
          place = (case kind of Some k \<Rightarrow> kind_as_str k @ '' conversation'' | None \<Rightarrow> ''conversation'')
      in ''Conversation context: you are responding inside a '' @ place @ '' on the '' @ quote channel
         @ '' channel (conv='' @ quote conv @ ''). Sender: '' @ quote sender @ '' (role='' @ quote role
         @ ''). '' @ delivery_text)"

section \<open>Channel actions\<close>

definition channel_send_name :: string where "channel_send_name = ''channel.send''"
definition channel_receive_name :: string where "channel_receive_name = ''channel.receive''"
definition channel_list_participants_name :: string where
  "channel_list_participants_name = ''channel.list_participants''"

definition channel_action :: "string \<Rightarrow> string option \<Rightarrow> owner \<Rightarrow> action" where
  "channel_action name channel conv = Act_Targeted name (case channel of
       None \<Rightarrow> action_target_new conv
     | Some c \<Rightarrow> with_qualifier c (action_target_new conv))"

definition channel_send_action :: "string option \<Rightarrow> owner \<Rightarrow> action" where
  "channel_send_action channel conv = channel_action channel_send_name channel conv"

definition channel_receive_action :: "string \<Rightarrow> owner \<Rightarrow> action" where
  "channel_receive_action channel conv = channel_action channel_receive_name (Some channel) conv"

definition channel_list_participants_action :: "string \<Rightarrow> owner \<Rightarrow> action" where
  "channel_list_participants_action channel conv =
     channel_action channel_list_participants_name (Some channel) conv"

datatype channel_rule_kind = Rule_Send | Rule_Receive | Rule_ListParticipants

definition rule_action_name :: "channel_rule_kind \<Rightarrow> string" where
  "rule_action_name k = (case k of
       Rule_Send \<Rightarrow> channel_send_name
     | Rule_Receive \<Rightarrow> channel_receive_name
     | Rule_ListParticipants \<Rightarrow> channel_list_participants_name)"

definition allow_channel ::
  "channel_rule_kind \<Rightarrow> string option \<Rightarrow> target_predicate \<Rightarrow> strict_policy \<Rightarrow> strict_policy" where
  "allow_channel k channel target p =
     add_rule (rule_allow (M_Targeted (rule_action_name k) channel target)) p"

definition channel_name_from_owner :: "owner \<Rightarrow> string option" where
  "channel_name_from_owner conv = Option.bind (split_once CHR '':'' conv)
     (\<lambda>(name, rest). if name \<noteq> [] \<and> rest \<noteq> [] then Some name else None)"

section \<open>What the tag guarantees\<close>

lemma quote_no_tag: "CHR ''<'' \<notin> set s \<Longrightarrow> CHR ''<'' \<notin> set (quote s)"
  "CHR ''>'' \<notin> set s \<Longrightarrow> CHR ''>'' \<notin> set (quote s)"
  by (simp_all add: quote_def)

lemma inbound_attrs_no_tag:
  "CHR ''<'' \<notin> set (inbound_attrs un sub)" "CHR ''>'' \<notin> set (inbound_attrs un sub)"
  by (auto simp: inbound_attrs_def push_user_attr_def push_optional_attr_def push_attr_def quote_def
      Let_def sanitize_attribute_no_tag split: option.splits)

lemma not_pre_wrapped: "CHR ''<'' \<notin> set body \<Longrightarrow> \<not> pre_wrapped body"
  by (auto simp: pre_wrapped_def starts_with_iff)

lemma wrapped_shape:
  assumes "\<not> pre_wrapped body \<or> \<not> trust"
  shows "wrap_inbound_text_body un body sub trust
      = ''<inbound '' @ inbound_attrs un sub @ ''>'' @ xml_escape_body body @ ''</inbound>''"
  using assms by (auto simp: wrap_inbound_text_body_def)

definition enclosed :: "string \<Rightarrow> string \<Rightarrow> bool" where
  "enclosed content t \<longleftrightarrow> count_list t CHR ''<'' = 2 \<and> count_list t CHR ''>'' = 2
     \<and> (\<exists>attrs body. t = ''<inbound '' @ attrs @ ''>'' @ body @ ''</inbound>''
          \<and> CHR ''<'' \<notin> set (attrs @ body) \<and> CHR ''>'' \<notin> set (attrs @ body) \<and> unescape body = content)"

lemma wrapped_enclosed:
  assumes "\<not> pre_wrapped body \<or> \<not> trust"
  shows "enclosed body (wrap_inbound_text_body un body sub trust)"
  unfolding wrapped_shape [OF assms] enclosed_def
proof (intro conjI)
  show "\<exists>attrs esc. ''<inbound '' @ inbound_attrs un sub @ ''>'' @ xml_escape_body body @ ''</inbound>''
        = ''<inbound '' @ attrs @ ''>'' @ esc @ ''</inbound>''
      \<and> CHR ''<'' \<notin> set (attrs @ esc) \<and> CHR ''>'' \<notin> set (attrs @ esc) \<and> unescape esc = body"
    by (intro exI [of _ "inbound_attrs un sub"] exI [of _ "xml_escape_body body"])
      (simp add: inbound_attrs_no_tag escape_body_no_tag unescape_body)
qed (simp_all add: inbound_attrs_no_tag [THEN count_notin] no_tag_count)

lemma block_enclosed: "Text t = inbound_content_block un block sub \<Longrightarrow> \<exists>content. enclosed content t"
  using wrapped_enclosed [of _ False un sub] by (cases block) (auto simp: inbound_content_block_def)

text \<open>C27: text from a channel stays inside its tag. Of an event that an adapter built, the body and every
  text attachment reach the model as one \<open>inbound\<close> element whose two brackets are the only ones,
  whatever the sender wrote and whatever names the subject carries; reading the entities back gives the
  sanitized body, or the attached text.\<close>

theorem inbound_text_enclosed:
  "enclosed (sanitize_for_prompt un (bu_body b)) (inbound_text_body un (ie_body (build_event un b)) sub)
   \<and> list_all (\<lambda>block. case block of Text t \<Rightarrow> (\<exists>content. enclosed content t) | _ \<Rightarrow> True)
        (inbound_content un (build_event un b) sub)"
proof
  have "\<not> pre_wrapped (ie_body (build_event un b))"
    by (simp add: build_event_def sanitize_for_prompt_def not_pre_wrapped escape_body_no_tag)
  then have body: "enclosed (ie_body (build_event un b)) (inbound_text_body un (ie_body (build_event un b)) sub)"
    using wrapped_enclosed by (simp add: inbound_text_body_def)
  then show "enclosed (sanitize_for_prompt un (bu_body b)) (inbound_text_body un (ie_body (build_event un b)) sub)"
    by (simp add: build_event_def)
  show "list_all (\<lambda>block. case block of Text t \<Rightarrow> (\<exists>content. enclosed content t) | _ \<Rightarrow> True)
        (inbound_content un (build_event un b) sub)"
    using body block_enclosed [OF sym]
    by (auto simp: inbound_content_def list_all_iff split: content_block.split)
qed

text \<open>The attributes of a subject, after every operation that writes them.\<close>

lemma stamped_attrs:
  "attr (with_conv_display l s) k = (if k = attr_channel_display \<and> lb_name l \<noteq> None then lb_name l
     else if k = attr_workspace_display \<and> lb_workspace l \<noteq> None then lb_workspace l else attr s k)"
  "attr (with_sender_display d s) k = (if k = attr_sender_display \<and> d \<noteq> None then d else attr s k)"
  "attr (with_participant_role r s) k = (if k = attr_participant_role then Some r else attr s k)"
  by (auto simp: with_conv_display_def with_sender_display_def with_participant_role_def Let_def
      attr_with_attr split: option.splits)

lemma stamped_ref:
  "attr (with_inbound_message_ref m s) k =
     (if k = attr_inbound_msg_id then Some (mr_id m)
      else if k = attr_inbound_thread_root \<and> mr_thread_root m \<noteq> None then mr_thread_root m
      else if k = attr_inbound_broadcast \<and> mr_thread_root m \<noteq> None then Some (show_bool (mr_broadcast m))
      else attr s k)"
  by (auto simp: with_inbound_message_ref_def attr_with_attr split: option.splits)

lemma fresh_subject: "subject_try_new i = Inr s \<Longrightarrow> attr s k = None"
  by (auto simp: subject_try_new_def attr_def split: if_splits)

lemma subject_from_eventE:
  assumes "subject_from_inbound_event e kind = Inr s"
  obtains s0 where "subject_try_new (channel_subject_id (ie_channel e) (pa_id (ie_from e))) = Inr s0"
    "s = with_inbound_message_ref (ie_message e)
       (case opt_or (ie_kind e) kind of
          Some k \<Rightarrow> subject_with_channel (ie_channel e) (ie_conv e) k
            (with_sender_display (pa_display_name (ie_from e))
              (with_participant_role (role_as_str (pa_role (ie_from e))) s0))
        | None \<Rightarrow> with_attr attr_conv (ie_conv e) (with_attr attr_channel (ie_channel e)
            (with_sender_display (pa_display_name (ie_from e))
              (with_participant_role (role_as_str (pa_role (ie_from e))) s0))))"
  using assms
  by (cases "subject_try_new (channel_subject_id (ie_channel e) (pa_id (ie_from e)))")
    (simp_all add: subject_from_inbound_event_def Let_def split: if_splits)

lemma subject_from_event_attrs:
  assumes "subject_from_inbound_event e kind = Inr s"
  shows "attr s attr_channel = Some (ie_channel e)" "attr s attr_conv = Some (ie_conv e)"
    "attr s attr_inbound_msg_id = Some (mr_id (ie_message e))"
    "attr s attr_inbound_thread_root = mr_thread_root (ie_message e)"
    "mr_thread_root (ie_message e) \<noteq> None
      \<Longrightarrow> attr s attr_inbound_broadcast = Some (show_bool (mr_broadcast (ie_message e)))"
proof -
  obtain s0 where s0: "subject_try_new (channel_subject_id (ie_channel e) (pa_id (ie_from e))) = Inr s0"
    and s: "s = with_inbound_message_ref (ie_message e)
       (case opt_or (ie_kind e) kind of
          Some k \<Rightarrow> subject_with_channel (ie_channel e) (ie_conv e) k
            (with_sender_display (pa_display_name (ie_from e))
              (with_participant_role (role_as_str (pa_role (ie_from e))) s0))
        | None \<Rightarrow> with_attr attr_conv (ie_conv e) (with_attr attr_channel (ie_channel e)
            (with_sender_display (pa_display_name (ie_from e))
              (with_participant_role (role_as_str (pa_role (ie_from e))) s0))))"
    using subject_from_eventE [OF assms] .
  note facts = s stamped_ref stamped_attrs subject_with_channel_def attr_with_attr fresh_subject [OF s0]
  show "attr s attr_channel = Some (ie_channel e)" by (simp add: facts split: option.split)
  show "attr s attr_conv = Some (ie_conv e)" by (simp add: facts split: option.split)
  show "attr s attr_inbound_msg_id = Some (mr_id (ie_message e))" by (simp add: facts)
  show "attr s attr_inbound_thread_root = mr_thread_root (ie_message e)"
    by (cases "mr_thread_root (ie_message e)") (simp_all add: facts split: option.split)
  show "mr_thread_root (ie_message e) \<noteq> None
      \<Longrightarrow> attr s attr_inbound_broadcast = Some (show_bool (mr_broadcast (ie_message e)))"
    by (simp add: facts)
qed

text \<open>A hook or a reply finds the message that started a run. From the subject of an event an adapter
  built, with any labels stamped on it later, the reference of the message is rebuilt exactly.\<close>

theorem message_ref_roundtrip:
  assumes "subject_from_inbound_event (build_event un b) kind = Inr s"
  shows "inbound_message_ref (with_conv_display l (with_attr attr_participant_id p s))
    = Some (ie_message (build_event un b))"
proof -
  have other: "attr (with_conv_display l (with_attr attr_participant_id p s)) k = attr s k"
    if "k \<in> {attr_channel, attr_conv, attr_inbound_msg_id, attr_inbound_thread_root, attr_inbound_broadcast}" for k
    using that by (auto simp: stamped_attrs attr_with_attr)
  show ?thesis
    using subject_from_event_attrs [OF assms]
    by (cases "bu_thread_root b") (auto simp: inbound_message_ref_def other build_event_def show_bool_def
        thread_reply_broadcast_def top_level_def)
qed

definition sample_builder :: inbound_event_builder where
  "sample_builder = (builder_new ''slack'' ''slack:T1/C1'' ''m2'' (participant_new ''U1'' Role_Human)
     ''hello'' 0)\<lparr>bu_thread_root := Some ''m1'', bu_broadcast := True\<rparr>"

definition letters_only :: unicode_table where
  "letters_only = \<lparr>un_group = (\<lambda>_. Letter), un_space_separator = (\<lambda>_. False)\<rparr>"

lemma message_ref_roundtrip_witness:
  "\<exists>s. subject_from_inbound_event (build_event letters_only sample_builder) (Some Kind_Group) = Inr s
     \<and> inbound_message_ref (with_conv_display conv_label_default (with_attr attr_participant_id ''U1'' s))
       = Some (thread_reply_broadcast ''slack'' ''slack:T1/C1'' ''m2'' ''m1'' True)"
proof -
  have "\<not> isl (subject_from_inbound_event (build_event letters_only sample_builder) (Some Kind_Group))"
    by code_simp
  then obtain s where s: "subject_from_inbound_event (build_event letters_only sample_builder) (Some Kind_Group) = Inr s"
    by (metis sum.collapse(2))
  have "ie_message (build_event letters_only sample_builder)
      = thread_reply_broadcast ''slack'' ''slack:T1/C1'' ''m2'' ''m1'' True"
    by (simp add: build_event_def sample_builder_def builder_new_def)
  with s message_ref_roundtrip [OF s, of conv_label_default "''U1''"] show ?thesis by simp
qed

end
