(* ===== verification/Channel_Inbox.thy ===== *)
theory Channel_Inbox
  imports Channel_Types "HOL-Library.List_Lexorder" "HOL-Library.Char_ord" "HOL-Library.Word"
begin

text \<open>
  Sending and receiving over channels (\<open>crabgent-channel/src\<close>: \<open>channel.rs\<close>, \<open>sink.rs\<close>,
  \<open>inbox/mod.rs\<close>, \<open>recording_inbox.rs\<close>, \<open>startup_cutoff_inbox.rs\<close>, \<open>stop_pattern.rs\<close>, \<open>pairing\<close>):
  the router that picks an adapter for a message, the inbox trait with the decorators that filter
  events, and the pairing handshake with its two stores.

  An adapter, a sink and an inbox are records of operations over a world \<open>'w\<close>; each operation
  changes the world and answers or fails. The file system under the pairing store is a map from names to
  contents whose operations may fail as a list of faults says.
\<close>

section \<open>Adapters and the router\<close>

record read_message =
  rm_ref :: message_ref
  rm_author :: string
  rm_body :: string
  rm_timestamp :: int

type_synonym ('w, 'a) channel_call = "'w \<Rightarrow> 'w \<times> (channel_error + 'a)"

record 'w sink =
  sk_send :: "subject \<Rightarrow> owner \<Rightarrow> outbound_message \<Rightarrow> ('w, message_ref) channel_call"
  sk_react :: "subject \<Rightarrow> owner \<Rightarrow> message_ref \<Rightarrow> string \<Rightarrow> ('w, message_ref) channel_call"
  sk_edit :: "subject \<Rightarrow> owner \<Rightarrow> message_ref \<Rightarrow> string \<Rightarrow> ('w, unit) channel_call"
  sk_delete :: "subject \<Rightarrow> owner \<Rightarrow> message_ref \<Rightarrow> ('w, unit) channel_call"
  sk_upload :: "subject \<Rightarrow> owner \<Rightarrow> string \<Rightarrow> string \<Rightarrow> string option \<Rightarrow> message_ref option
     \<Rightarrow> ('w, message_ref) channel_call"
  sk_read :: "subject \<Rightarrow> owner \<Rightarrow> message_ref option \<Rightarrow> nat \<Rightarrow> ('w, read_message list) channel_call"
  sk_notify_user :: "subject \<Rightarrow> string \<Rightarrow> outbound_message \<Rightarrow> ('w, message_ref) channel_call"

record 'w channel = "'w sink" +
  ch_name :: string
  ch_kind :: "owner \<Rightarrow> ('w, channel_kind) channel_call"
  ch_conv_display :: "owner \<Rightarrow> 'w \<Rightarrow> 'w \<times> conv_label option"
  ch_participants :: "subject \<Rightarrow> owner \<Rightarrow> ('w, participant list) channel_call"

definition unsupported :: "string \<Rightarrow> ('w, 'a) channel_call" where
  "unsupported operation w = (w, Inl (CH_Unsupported operation))"

text \<open>The methods a sink or an adapter does not write itself.\<close>

definition sink_defaults ::
  "(subject \<Rightarrow> owner \<Rightarrow> outbound_message \<Rightarrow> ('w, message_ref) channel_call)
   \<Rightarrow> (subject \<Rightarrow> owner \<Rightarrow> message_ref \<Rightarrow> string \<Rightarrow> ('w, message_ref) channel_call) \<Rightarrow> 'w sink" where
  "sink_defaults send react =
     \<lparr>sk_send = send, sk_react = react, sk_edit = (\<lambda>_ _ _ _. unsupported ''edit''),
      sk_delete = (\<lambda>_ _ _. unsupported ''delete''), sk_upload = (\<lambda>_ _ _ _ _ _. unsupported ''upload''),
      sk_read = (\<lambda>_ _ _ _. unsupported ''read''),
      sk_notify_user = (\<lambda>_ _ _. unsupported ''notify_user'')\<rparr>"

definition channel_defaults ::
  "string \<Rightarrow> (owner \<Rightarrow> ('w, channel_kind) channel_call)
   \<Rightarrow> (subject \<Rightarrow> owner \<Rightarrow> ('w, participant list) channel_call)
   \<Rightarrow> (subject \<Rightarrow> owner \<Rightarrow> outbound_message \<Rightarrow> ('w, message_ref) channel_call) \<Rightarrow> 'w channel" where
  "channel_defaults name kind participants send =
     sink.extend (sink_defaults send (\<lambda>_ _ _ _. unsupported ''react''))
       (channel.fields name kind (\<lambda>_ w. (w, None)) participants)"

type_synonym 'w router = "(string, 'w channel) hmap"

definition router_with_channel :: "'w channel \<Rightarrow> 'w router \<Rightarrow> 'w router" where
  "router_with_channel c r = AList.update (ch_name c) c r"

definition registered :: "'w router \<Rightarrow> owner \<Rightarrow> string option \<Rightarrow> channel_error + 'w channel" where
  "registered r conv name = (case name of
       None \<Rightarrow> Inl (CH_InvalidOwnerFormat conv)
     | Some n \<Rightarrow> (case map_of r n of None \<Rightarrow> Inl (CH_NotRegistered n) | Some c \<Rightarrow> Inr c))"

definition resolve_channel :: "'w router \<Rightarrow> owner \<Rightarrow> outbound_message \<Rightarrow> channel_error + 'w channel" where
  "resolve_channel r conv m =
     registered r conv (opt_or (map_of (om_metadata m) ''channel'') (channel_name_from_owner conv))"

definition resolve_by_parent :: "'w router \<Rightarrow> message_ref \<Rightarrow> owner \<Rightarrow> channel_error + 'w channel" where
  "resolve_by_parent r parent conv = registered r conv
     (if mr_channel parent = [] then channel_name_from_owner conv else Some (mr_channel parent))"

definition resolve_by_metadata :: "'w router \<Rightarrow> outbound_message \<Rightarrow> channel_error + 'w channel" where
  "resolve_by_metadata r m = (case map_of (om_metadata m) ''channel'' of
       Some n \<Rightarrow> if n = []
          then Inl (CH_InvalidEnvelope ''notify_user requires metadata.channel to select an adapter'')
          else (case map_of r n of None \<Rightarrow> Inl (CH_NotRegistered n) | Some c \<Rightarrow> Inr c)
     | None \<Rightarrow> Inl (CH_InvalidEnvelope ''notify_user requires metadata.channel to select an adapter''))"

definition resolve_by_conv :: "'w router \<Rightarrow> owner \<Rightarrow> channel_error + 'w channel" where
  "resolve_by_conv r conv = registered r conv (channel_name_from_owner conv)"

definition routed :: "(channel_error + 'w channel) \<Rightarrow> ('w channel \<Rightarrow> ('w, 'a) channel_call)
   \<Rightarrow> ('w, 'a) channel_call" where
  "routed target f w = (case target of Inl e \<Rightarrow> (w, Inl e) | Inr c \<Rightarrow> f c w)"

definition parent_or_conv :: "'w router \<Rightarrow> message_ref option \<Rightarrow> owner \<Rightarrow> channel_error + 'w channel" where
  "parent_or_conv r thread_parent conv = (case thread_parent of
       Some parent \<Rightarrow> resolve_by_parent r parent conv | None \<Rightarrow> resolve_by_conv r conv)"

definition router_sink :: "'w router \<Rightarrow> 'w sink" where
  "router_sink r =
     \<lparr>sk_send = (\<lambda>ctx conv m. routed (resolve_channel r conv m) (\<lambda>c. sk_send c ctx conv m)),
      sk_react = (\<lambda>ctx conv parent emoji.
        routed (resolve_by_parent r parent conv) (\<lambda>c. sk_react c ctx conv parent emoji)),
      sk_edit = (\<lambda>ctx conv target text'.
        routed (resolve_by_parent r target conv) (\<lambda>c. sk_edit c ctx conv target text')),
      sk_delete = (\<lambda>ctx conv target.
        routed (resolve_by_parent r target conv) (\<lambda>c. sk_delete c ctx conv target)),
      sk_upload = (\<lambda>ctx conv filename bytes comment thread_parent.
        routed (parent_or_conv r thread_parent conv)
          (\<lambda>c. sk_upload c ctx conv filename bytes comment thread_parent)),
      sk_read = (\<lambda>ctx conv thread_parent limit.
        routed (parent_or_conv r thread_parent conv) (\<lambda>c. sk_read c ctx conv thread_parent limit)),
      sk_notify_user = (\<lambda>ctx recipient m.
        routed (resolve_by_metadata r m) (\<lambda>c. sk_notify_user c ctx recipient m))\<rparr>"

section \<open>Inboxes\<close>

record 'w inbox =
  ib_receive :: "inbound_event \<Rightarrow> ('w, unit) channel_call"
  ib_receive_reaction :: "inbound_reaction \<Rightarrow> ('w, unit) channel_call"
  ib_shutdown :: "nat \<Rightarrow> 'w \<Rightarrow> 'w"
  ib_blocks_outer_command_dispatch :: bool

definition inbox_defaults :: "(inbound_event \<Rightarrow> ('w, unit) channel_call) \<Rightarrow> 'w inbox" where
  "inbox_defaults receive = \<lparr>ib_receive = receive, ib_receive_reaction = (\<lambda>_ w. (w, Inr ())),
     ib_shutdown = (\<lambda>_ w. w), ib_blocks_outer_command_dispatch = False\<rparr>"

definition forward_inbox :: "'w inbox \<Rightarrow> (inbound_event \<Rightarrow> ('w, unit) channel_call) \<Rightarrow> 'w inbox" where
  "forward_inbox inner receive = inner\<lparr>ib_receive := receive\<rparr>"

datatype record_decision = Forward | Stop_Event

definition recording_inbox ::
  "(inbound_event \<Rightarrow> ('w, record_decision) channel_call) \<Rightarrow> 'w inbox \<Rightarrow> 'w inbox" where
  "recording_inbox recorder inner = forward_inbox inner (\<lambda>e w. case recorder e w of
       (w', Inl err) \<Rightarrow> (w', Inl err)
     | (w', Inr Forward) \<Rightarrow> ib_receive inner e w'
     | (w', Inr Stop_Event) \<Rightarrow> (w', Inr ()))"

definition startup_cutoff_inbox :: "instant \<Rightarrow> 'w inbox \<Rightarrow> 'w inbox" where
  "startup_cutoff_inbox cutoff inner =
     \<lparr>ib_receive = (\<lambda>e w. if ie_timestamp e < cutoff then (w, Inr ()) else ib_receive inner e w),
      ib_receive_reaction = (\<lambda>r w.
        if ir_timestamp r < cutoff then (w, Inr ()) else ib_receive_reaction inner r w),
      ib_shutdown = ib_shutdown inner, ib_blocks_outer_command_dispatch = True\<rparr>"

text \<open>A stop pattern is a compiled regular expression, and a parameter.\<close>

type_synonym regex = "string \<Rightarrow> bool"

definition stop_pattern_new ::
  "(string \<Rightarrow> string + regex) \<Rightarrow> string list \<Rightarrow> channel_error + regex list" where
  "stop_pattern_new compile patterns = foldr (\<lambda>p acc. and_then (map_err CH_InvalidPattern (compile (trim p)))
     (\<lambda>re. and_then acc (\<lambda>res. Inr (re # res)))) patterns (Inr [])"

definition stop_matches :: "regex list \<Rightarrow> string \<Rightarrow> bool" where
  "stop_matches patterns body = list_ex (\<lambda>re. re (trim body)) patterns"

section \<open>The pairing handshake\<close>

record 'w pairing_store =
  ps_is_paired :: "string \<Rightarrow> ('w, bool) channel_call"
  ps_add :: "string \<Rightarrow> ('w, bool) channel_call"
  ps_remove :: "string \<Rightarrow> ('w, bool) channel_call"

record 'w pairing_inbox =
  pi_store :: "'w pairing_store"
  pi_inner :: "'w inbox"
  pi_sink :: "'w sink"
  pi_pair_token :: string
  pi_prefix :: string
  pi_not_paired_message :: string
  pi_paired_message :: string
  pi_bad_token_message :: string
  pi_inferred_kind :: channel_kind

definition pairing_inbox_new ::
  "'w pairing_store \<Rightarrow> 'w inbox \<Rightarrow> 'w sink \<Rightarrow> string \<Rightarrow> 'w pairing_inbox" where
  "pairing_inbox_new store inner sk token =
     \<lparr>pi_store = store, pi_inner = inner, pi_sink = sk, pi_pair_token = token, pi_prefix = ''/pair'',
      pi_not_paired_message = ''Not paired. Send /pair <token> to pair.'',
      pi_paired_message = ''Successfully paired.'', pi_bad_token_message = ''Invalid pair token.'',
      pi_inferred_kind = Kind_Direct\<rparr>"

definition strip_prefix :: "string \<Rightarrow> string \<Rightarrow> string option" where
  "strip_prefix p s = (if starts_with p s then Some (drop (length p) s) else None)"

definition extract_token :: "'w pairing_inbox \<Rightarrow> string \<Rightarrow> string option" where
  "extract_token p body = map_option
     (\<lambda>rest. case split_whitespace (trim_start rest) of [] \<Rightarrow> [] | t # _ \<Rightarrow> t) (strip_prefix (pi_prefix p) body)"

definition build_reply_subject :: "'w pairing_inbox \<Rightarrow> inbound_event \<Rightarrow> unit + subject" where
  "build_reply_subject p e = and_then (subject_try_new (ie_channel e @ '':bot'')) (\<lambda>s.
     Inr (with_participant_role (role_as_str Role_Bot)
       (subject_with_channel (ie_channel e) (ie_conv e) (pi_inferred_kind p) s)))"

definition thread_anchor :: "inbound_event \<Rightarrow> message_ref option" where
  "thread_anchor e = (if is_thread_reply (ie_message e) then Some (ie_message e) else None)"

definition send_reply :: "'w pairing_inbox \<Rightarrow> inbound_event \<Rightarrow> string \<Rightarrow> ('w, unit) channel_call" where
  "send_reply p e body w = (case build_reply_subject p e of
       Inl _ \<Rightarrow> (w, Inl CH_InvalidSubject)
     | Inr sub \<Rightarrow>
         (let m = with_metadata ''channel'' (ie_channel e) (outbound_new body);
              m' = (case thread_anchor e of Some parent \<Rightarrow> in_thread parent m | None \<Rightarrow> m)
          in case sk_send (pi_sink p) sub (ie_conv e) m' w of
               (w', Inl err) \<Rightarrow> (w', Inl err) | (w', Inr _) \<Rightarrow> (w', Inr ())))"

definition send_reply_or_warn :: "'w pairing_inbox \<Rightarrow> inbound_event \<Rightarrow> string \<Rightarrow> 'w \<Rightarrow> 'w" where
  "send_reply_or_warn p e body w = fst (send_reply p e body w)"

definition handle_valid_pair :: "'w pairing_inbox \<Rightarrow> inbound_event \<Rightarrow> string \<Rightarrow> ('w, unit) channel_call" where
  "handle_valid_pair p e user_id w = (case ps_add (pi_store p) user_id w of
       (w', Inl err) \<Rightarrow> (w', Inl err)
     | (w', Inr _) \<Rightarrow> (send_reply_or_warn p e (pi_paired_message p) w', Inr ()))"

definition handle_pair_command ::
  "'w pairing_inbox \<Rightarrow> inbound_event \<Rightarrow> string \<Rightarrow> string \<Rightarrow> ('w, unit) channel_call" where
  "handle_pair_command p e user_id token w =
     (if token = pi_pair_token p then handle_valid_pair p e user_id w
      else (send_reply_or_warn p e (pi_bad_token_message p) w, Inr ()))"

definition pairing_receive :: "'w pairing_inbox \<Rightarrow> inbound_event \<Rightarrow> ('w, unit) channel_call" where
  "pairing_receive p e w = (case extract_token p (ie_body e) of
       Some token \<Rightarrow> handle_pair_command p e (pa_id (ie_from e)) token w
     | None \<Rightarrow> (case ps_is_paired (pi_store p) (pa_id (ie_from e)) w of
           (w', Inl err) \<Rightarrow> (w', Inl err)
         | (w', Inr True) \<Rightarrow> ib_receive (pi_inner p) e w'
         | (w', Inr False) \<Rightarrow> (send_reply_or_warn p e (pi_not_paired_message p) w', Inr ())))"

definition pairing_receive_reaction ::
  "'w pairing_inbox \<Rightarrow> inbound_reaction \<Rightarrow> ('w, unit) channel_call" where
  "pairing_receive_reaction p r w = (case ps_is_paired (pi_store p) (pa_id (ir_from r)) w of
       (w', Inl err) \<Rightarrow> (w', Inl err)
     | (w', Inr True) \<Rightarrow> ib_receive_reaction (pi_inner p) r w'
     | (w', Inr False) \<Rightarrow> (w', Inr ()))"

definition pairing_inbox_of :: "'w pairing_inbox \<Rightarrow> 'w inbox" where
  "pairing_inbox_of p = \<lparr>ib_receive = pairing_receive p, ib_receive_reaction = pairing_receive_reaction p,
     ib_shutdown = ib_shutdown (pi_inner p), ib_blocks_outer_command_dispatch = True\<rparr>"

section \<open>The stores of paired users\<close>

definition memory_add :: "string \<Rightarrow> string list \<Rightarrow> string list \<times> (channel_error + bool)" where
  "memory_add u paired = (if u \<in> set paired then (paired, Inr False) else (u # paired, Inr True))"

definition memory_remove :: "string \<Rightarrow> string list \<Rightarrow> string list \<times> (channel_error + bool)" where
  "memory_remove u paired = (removeAll u paired, Inr (u \<in> set paired))"

definition memory_is_paired :: "string \<Rightarrow> string list \<Rightarrow> string list \<times> (channel_error + bool)" where
  "memory_is_paired u paired = (paired, Inr (u \<in> set paired))"

text \<open>Files: the name is \<open>None\<close> for a path that ends in no name. A fault is the text of the error with
  which an operation of the file system fails; a write may fail after some bytes.\<close>

record file_path =
  pt_dir :: string
  pt_name :: "string option"

record disk =
  dk_files :: "(file_path, string) hmap"
  dk_counter :: "64 word"

record io_faults =
  io_read :: "string option"
  io_create :: "string option"
  io_write :: "(nat \<times> string) option"
  io_sync :: "string option"
  io_rename :: "string option"
  io_remove :: "string option"

definition no_faults :: io_faults where
  "no_faults = \<lparr>io_read = None, io_create = None, io_write = None, io_sync = None, io_rename = None,
     io_remove = None\<rparr>"

definition temp_path :: "nat \<Rightarrow> file_path \<Rightarrow> disk \<Rightarrow> disk \<times> (channel_error + file_path)" where
  "temp_path pid path d = (case pt_name path of
       None \<Rightarrow> (d, Inl (CH_Adapter ''pairing file path has no file name''))
     | Some name \<Rightarrow> (d\<lparr>dk_counter := dk_counter d + 1\<rparr>,
         Inr (path\<lparr>pt_name := Some (''.'' @ name @ ''.tmp.'' @ show_nat pid @ ''.'' @ show_nat (unat (dk_counter d)))\<rparr>)))"

definition set_file :: "file_path \<Rightarrow> string \<Rightarrow> disk \<Rightarrow> disk" where
  "set_file p content d = d\<lparr>dk_files := AList.update p content (dk_files d)\<rparr>"

definition cleanup_temp_file :: "io_faults \<Rightarrow> file_path \<Rightarrow> disk \<Rightarrow> disk" where
  "cleanup_temp_file f p d =
     (if io_remove f \<noteq> None then d else d\<lparr>dk_files := AList.delete p (dk_files d)\<rparr>)"

definition write_and_rename :: "io_faults \<Rightarrow> file_path \<Rightarrow> file_path \<Rightarrow> string \<Rightarrow> disk \<Rightarrow> disk \<times> (string + unit)" where
  "write_and_rename f tmp path content d =
     (if map_of (dk_files d) tmp \<noteq> None then (d, Inl ''File exists'')
      else case io_create f of
        Some err \<Rightarrow> (d, Inl err)
      | None \<Rightarrow> (case io_write f of
          Some (k, err) \<Rightarrow> (set_file tmp (take k content) d, Inl err)
        | None \<Rightarrow>
            (let d1 = set_file tmp content d
             in case io_sync f of
                Some err \<Rightarrow> (d1, Inl err)
              | None \<Rightarrow> (case io_rename f of
                  Some err \<Rightarrow> (d1, Inl err)
                | None \<Rightarrow> (set_file path content (d1\<lparr>dk_files := AList.delete tmp (dk_files d1)\<rparr>), Inr ())))))"

definition atomic_write ::
  "io_faults \<Rightarrow> nat \<Rightarrow> file_path \<Rightarrow> string \<Rightarrow> disk \<Rightarrow> disk \<times> (channel_error + unit)" where
  "atomic_write f pid path content d = (case temp_path pid path d of
       (d1, Inl e) \<Rightarrow> (d1, Inl e)
     | (d1, Inr tmp) \<Rightarrow> (case write_and_rename f tmp path content d1 of
           (d2, Inl err) \<Rightarrow> (cleanup_temp_file f tmp d2, Inl (CH_Adapter err))
         | (d2, Inr _) \<Rightarrow> (d2, Inr ())))"

text \<open>One id per line, sorted; \<open>lines\<close> splits at line feeds, drops a carriage return before one and
  an empty rest after the last.\<close>

definition serialize_pairs :: "string list \<Rightarrow> string" where
  "serialize_pairs ids = concat (map (\<lambda>i. i @ [CHR 0x0A]) (sort ids))"

definition strip_cr :: "string \<Rightarrow> string" where
  "strip_cr l = (if l \<noteq> [] \<and> last l = CHR 0x0D then butlast l else l)"

definition str_lines :: "string \<Rightarrow> string list" where
  "str_lines s = (let parts = split_on CHR 0x0A s
     in map strip_cr (butlast parts) @ (if last parts = [] then [] else [last parts]))"

record file_pairing_store =
  fp_path :: file_path
  fp_paired :: "string list"

definition file_pairing_open :: "io_faults \<Rightarrow> file_path \<Rightarrow> disk \<Rightarrow> channel_error + file_pairing_store" where
  "file_pairing_open f path d = (case io_read f of
       Some err \<Rightarrow> Inl (CH_Adapter err)
     | None \<Rightarrow> Inr \<lparr>fp_path = path, fp_paired = (case map_of (dk_files d) path of
           None \<Rightarrow> []
         | Some content \<Rightarrow> remdups (filter (\<lambda>l. l \<noteq> []) (str_lines content)))\<rparr>)"

type_synonym file_world = "file_pairing_store \<times> disk"

definition file_persist ::
  "io_faults \<Rightarrow> nat \<Rightarrow> string list \<Rightarrow> file_world \<Rightarrow> file_world \<times> (channel_error + unit)" where
  "file_persist f pid paired w = (case w of (st, d) \<Rightarrow>
     (case atomic_write f pid (fp_path st) (serialize_pairs paired) d of (d', r) \<Rightarrow> ((st, d'), r)))"

definition file_replace ::
  "io_faults \<Rightarrow> nat \<Rightarrow> string list \<Rightarrow> file_world \<Rightarrow> file_world \<times> (channel_error + bool)" where
  "file_replace f pid paired w = (case file_persist f pid paired w of
       (w', Inl e) \<Rightarrow> (w', Inl e)
     | ((st, d), Inr _) \<Rightarrow> ((st\<lparr>fp_paired := paired\<rparr>, d), Inr True))"

definition file_add :: "io_faults \<Rightarrow> nat \<Rightarrow> string \<Rightarrow> file_world \<Rightarrow> file_world \<times> (channel_error + bool)" where
  "file_add f pid u w =
     (if u \<in> set (fp_paired (fst w)) then (w, Inr False)
      else file_replace f pid (u # fp_paired (fst w)) w)"

definition file_remove :: "io_faults \<Rightarrow> nat \<Rightarrow> string \<Rightarrow> file_world \<Rightarrow> file_world \<times> (channel_error + bool)" where
  "file_remove f pid u w =
     (if u \<notin> set (fp_paired (fst w)) then (w, Inr False)
      else file_replace f pid (removeAll u (fp_paired (fst w))) w)"

definition file_is_paired :: "string \<Rightarrow> file_world \<Rightarrow> file_world \<times> (channel_error + bool)" where
  "file_is_paired u w = (w, Inr (u \<in> set (fp_paired (fst w))))"

section \<open>Paired users survive a restart\<close>

definition clean_id :: "string \<Rightarrow> bool" where
  "clean_id i \<longleftrightarrow> i \<noteq> [] \<and> CHR 0x0A \<notin> set i \<and> last i \<noteq> CHR 0x0D"

lemma split_lines: "\<forall>i\<in>set ids. CHR 0x0A \<notin> set i
    \<Longrightarrow> split_on CHR 0x0A (concat (map (\<lambda>i. i @ [CHR 0x0A]) ids)) = ids @ [[]]"
  by (induction ids) (simp_all add: split_on_append)

lemma lines_of_pairs:
  assumes "\<forall>i\<in>set ids. clean_id i"
  shows "set (filter (\<lambda>l. l \<noteq> []) (str_lines (serialize_pairs ids))) = set ids"
proof -
  have "split_on CHR 0x0A (serialize_pairs ids) = sort ids @ [[]]"
    unfolding serialize_pairs_def using assms by (intro split_lines) (simp add: clean_id_def)
  then have "str_lines (serialize_pairs ids) = map strip_cr (sort ids)"
    by (simp add: str_lines_def)
  moreover have "map strip_cr (sort ids) = sort ids"
    using assms by (intro map_idI) (auto simp: strip_cr_def clean_id_def)
  ultimately show ?thesis using assms by (auto simp: clean_id_def)
qed

lemma temp_path_differs:
  assumes "temp_path pid path d = (d1, Inr tmp)"
  shows "tmp \<noteq> path" "dk_files d1 = dk_files d"
proof -
  obtain name where name: "pt_name path = Some name" and tmp: "tmp = path\<lparr>pt_name := Some (''.'' @ name @ ''.tmp.''
      @ show_nat pid @ ''.'' @ show_nat (unat (dk_counter d)))\<rparr>" and files: "dk_files d1 = dk_files d"
    using assms by (auto simp: temp_path_def split: option.splits)
  have "pt_name tmp \<noteq> pt_name path"
    unfolding tmp name by (auto dest: arg_cong [of _ _ length])
  then show "tmp \<noteq> path" by blast
  show "dk_files d1 = dk_files d" by (rule files)
qed

lemma write_and_rename_file:
  assumes "write_and_rename f tmp path content d = (d', r)" "tmp \<noteq> path"
  shows "map_of (dk_files d') path = (if isl r then map_of (dk_files d) path else Some content)"
  using assms by (auto simp: write_and_rename_def set_file_def update_conv' Let_def
      split: if_splits option.splits)

lemma atomic_write_file:
  assumes "atomic_write f pid path content d = (d', r)"
  shows "map_of (dk_files d') path = (if isl r then map_of (dk_files d) path else Some content)"
proof (cases "temp_path pid path d")
  case (Pair d1 t)
  show ?thesis
  proof (cases t)
    case (Inl e)
    with assms Pair show ?thesis by (auto simp: atomic_write_def temp_path_def split: option.splits)
  next
    case (Inr tmp)
    note tmp = temp_path_differs [OF Pair [unfolded Inr]]
    obtain d2 r2 where w: "write_and_rename f tmp path content d1 = (d2, r2)" by fastforce
    show ?thesis
      using assms Pair Inr w write_and_rename_file [OF w tmp(1)] tmp
      by (cases r2) (auto simp: atomic_write_def cleanup_temp_file_def delete_conv')
  qed
qed

text \<open>Memory and file agree: opening the file again gives the ids in memory.\<close>

definition pairs_agree :: "file_world \<Rightarrow> bool" where
  "pairs_agree w \<longleftrightarrow> (\<forall>i\<in>set (fp_paired (fst w)). clean_id i)
     \<and> (\<exists>st. file_pairing_open no_faults (fp_path (fst w)) (snd w) = Inr st
          \<and> set (fp_paired st) = set (fp_paired (fst w)))"

lemma reopen_written:
  assumes "map_of (dk_files d) path = Some (serialize_pairs ids)" "\<forall>i\<in>set ids. clean_id i"
  shows "\<exists>st. file_pairing_open no_faults path d = Inr st \<and> set (fp_paired st) = set ids"
  using assms(1) lines_of_pairs [OF assms(2)] by (simp add: file_pairing_open_def no_faults_def)

lemma file_replace_agrees:
  assumes "pairs_agree w" "\<forall>i\<in>set ids. clean_id i" "file_replace f pid ids w = (w', r)"
  shows "pairs_agree w' \<and> fp_path (fst w') = fp_path (fst w)
    \<and> set (fp_paired (fst w')) = (if isl r then set (fp_paired (fst w)) else set ids)"
proof -
  obtain st d where w: "w = (st, d)" by fastforce
  obtain d' q where wr: "atomic_write f pid (fp_path st) (serialize_pairs ids) d = (d', q)" by fastforce
  note content = atomic_write_file [OF wr]
  show ?thesis
  proof (cases q)
    case (Inl e)
    then have "w' = (st, d')" "isl r" using assms(3) wr w by (auto simp: file_replace_def file_persist_def)
    then show ?thesis
      using assms(1) content Inl w by (auto simp: pairs_agree_def file_pairing_open_def no_faults_def)
  next
    case (Inr u)
    then have "w' = (st\<lparr>fp_paired := ids\<rparr>, d')" "\<not> isl r"
      using assms(3) wr w by (auto simp: file_replace_def file_persist_def)
    then show ?thesis using reopen_written [of d' "fp_path st" ids] content Inr assms(2) w
      by (auto simp: pairs_agree_def)
  qed
qed

datatype pair_op = Pair_Add string | Pair_Remove string

definition file_step ::
  "io_faults \<times> nat \<times> pair_op \<Rightarrow> file_world \<Rightarrow> file_world \<times> (channel_error + bool)" where
  "file_step c w = (case c of (f, pid, Pair_Add u) \<Rightarrow> file_add f pid u w
     | (f, pid, Pair_Remove u) \<Rightarrow> file_remove f pid u w)"

text \<open>What an operation does to the set of paired users: nothing when it fails.\<close>

definition pair_spec :: "pair_op \<Rightarrow> channel_error + bool \<Rightarrow> string set \<Rightarrow> string set" where
  "pair_spec c r s = (if isl r then s else (case c of Pair_Add u \<Rightarrow> insert u s | Pair_Remove u \<Rightarrow> s - {u}))"

fun file_run ::
  "(io_faults \<times> nat \<times> pair_op) list \<Rightarrow> file_world \<Rightarrow> string set \<Rightarrow> file_world \<times> string set" where
  "file_run [] w s = (w, s)"
| "file_run (c # cs) w s = (case file_step c w of
     (w', r) \<Rightarrow> file_run cs w' (pair_spec (snd (snd c)) r s))"

definition op_id :: "pair_op \<Rightarrow> string" where
  "op_id c = (case c of Pair_Add u \<Rightarrow> u | Pair_Remove u \<Rightarrow> u)"

lemma file_step_agrees:
  assumes "pairs_agree w" "clean_id (op_id (snd (snd c)))" "file_step c w = (w', r)"
  shows "pairs_agree w' \<and> fp_path (fst w') = fp_path (fst w)
    \<and> set (fp_paired (fst w')) = pair_spec (snd (snd c)) r (set (fp_paired (fst w)))"
proof -
  have clean: "\<forall>i\<in>set (fp_paired (fst w)). clean_id i" using assms(1) by (simp add: pairs_agree_def)
  obtain f pid q where c: "c = (f, pid, q)" by (cases c)
  show ?thesis
  proof (cases q)
    case (Pair_Add u)
    then show ?thesis
      using assms clean file_replace_agrees [OF assms(1), of "u # fp_paired (fst w)" f pid w' r] c
      by (auto simp: file_step_def file_add_def pair_spec_def op_id_def split: if_splits)
  next
    case (Pair_Remove u)
    then show ?thesis
      using assms clean file_replace_agrees [OF assms(1), of "removeAll u (fp_paired (fst w))" f pid w' r] c
      by (auto simp: file_step_def file_remove_def pair_spec_def split: if_splits)
  qed
qed


section \<open>Who gets past the pairing\<close>

text \<open>The store of paired users beside everything else that senders, sinks and runs change.\<close>

record ('s, 'x) paired_world =
  pw_store :: 's
  pw_rest :: 'x

definition on_pairs :: "('s \<Rightarrow> 's \<times> 'r) \<Rightarrow> ('s, 'x) paired_world \<Rightarrow> ('s, 'x) paired_world \<times> 'r" where
  "on_pairs op w = (case op (pw_store w) of (s, r) \<Rightarrow> (w\<lparr>pw_store := s\<rparr>, r))"

definition memory_pairing_store :: "(string list, 'x) paired_world pairing_store" where
  "memory_pairing_store = \<lparr>ps_is_paired = on_pairs \<circ> memory_is_paired, ps_add = on_pairs \<circ> memory_add,
     ps_remove = on_pairs \<circ> memory_remove\<rparr>"

definition file_store_calls ::
  "(file_world \<Rightarrow> io_faults) \<Rightarrow> nat \<Rightarrow> (file_world, 'x) paired_world pairing_store" where
  "file_store_calls faults pid = \<lparr>ps_is_paired = on_pairs \<circ> file_is_paired,
     ps_add = (\<lambda>u. on_pairs (\<lambda>s. file_add (faults s) pid u s)),
     ps_remove = (\<lambda>u. on_pairs (\<lambda>s. file_remove (faults s) pid u s))\<rparr>"

datatype arrival = Message_Arrives inbound_event | Reaction_Arrives inbound_reaction

definition arrival_sender :: "arrival \<Rightarrow> string" where
  "arrival_sender a = (case a of Message_Arrives e \<Rightarrow> pa_id (ie_from e) | Reaction_Arrives r \<Rightarrow> pa_id (ir_from r))"

definition inbox_arrival :: "'w inbox \<Rightarrow> arrival \<Rightarrow> ('w, unit) channel_call" where
  "inbox_arrival ib a = (case a of
       Message_Arrives e \<Rightarrow> ib_receive ib e | Reaction_Arrives r \<Rightarrow> ib_receive_reaction ib r)"

definition inbox_run :: "'w inbox \<Rightarrow> arrival list \<Rightarrow> 'w \<Rightarrow> 'w" where
  "inbox_run ib as w = fold (\<lambda>a w. fst (inbox_arrival ib a w)) as w"

definition presents_token :: "'w pairing_inbox \<Rightarrow> arrival \<Rightarrow> bool" where
  "presents_token p a = (case a of
       Message_Arrives e \<Rightarrow> extract_token p (ie_body e) = Some (pi_pair_token p) | Reaction_Arrives _ \<Rightarrow> False)"

text \<open>What the handshake relies on: a lookup answers with the set, an addition adds no one else.\<close>

locale pairing_contract =
  fixes store :: "'w pairing_store" and members :: "'w \<Rightarrow> string set"
  assumes lookup: "ps_is_paired store u w = (w', r) \<Longrightarrow>
      members w' = members w \<and> (\<forall>b. r = Inr b \<longrightarrow> b = (u \<in> members w))"
    and addition: "ps_add store u w = (w', r) \<Longrightarrow>
      members w' = (if isl r then members w else insert u (members w))"
begin

definition discreet :: "'w pairing_inbox \<Rightarrow> bool" where
  "discreet p \<longleftrightarrow> pi_store p = store
     \<and> (\<forall>sub conv m w. members (fst (sk_send (pi_sink p) sub conv m w)) \<subseteq> members w)
     \<and> (\<forall>a w. members (fst (inbox_arrival (pi_inner p) a w)) \<subseteq> members w)"

lemma reply_members:
  assumes "discreet p" shows "members (send_reply_or_warn p e body w) \<subseteq> members w"
proof -
  have sent: "members w' \<subseteq> members w" if "sk_send (pi_sink p) sub conv m w = (w', r)" for sub conv m w' r
    using assms that by (metis discreet_def fst_conv)
  show ?thesis
    by (auto simp: send_reply_or_warn_def send_reply_def Let_def dest: sent [THEN subsetD]
        split: sum.splits prod.splits option.splits)
qed

lemma command_members:
  assumes "discreet p" "token \<noteq> pi_pair_token p \<or> pa_id (ie_from e) \<noteq> u" "u \<notin> members w"
  shows "u \<notin> members (fst (handle_pair_command p e (pa_id (ie_from e)) token w))"
proof (cases "token = pi_pair_token p")
  case True
  obtain w1 r where add: "ps_add store (pa_id (ie_from e)) w = (w1, r)" by fastforce
  then have "u \<notin> members w1" using addition [OF add] True assms(2,3) by auto
  with True add assms(1) reply_members [OF assms(1)] show ?thesis
    by (cases r) (auto simp: handle_pair_command_def handle_valid_pair_def discreet_def)
next
  case False
  then show ?thesis using assms reply_members [OF assms(1)] by (auto simp: handle_pair_command_def)
qed

lemma arrival_gate:
  assumes "discreet p" "u \<notin> members w" "\<not> (presents_token p a \<and> arrival_sender a = u)"
    and "\<forall>a. arrival_sender a \<noteq> u \<longrightarrow> inbox_arrival inner' a = inbox_arrival (pi_inner p) a"
  shows "u \<notin> members (fst (inbox_arrival (pairing_inbox_of p) a w))
    \<and> inbox_arrival (pairing_inbox_of (p\<lparr>pi_inner := inner'\<rparr>)) a w = inbox_arrival (pairing_inbox_of p) a w"
proof -
  have reply: "send_reply_or_warn (p\<lparr>pi_inner := inner'\<rparr>) = send_reply_or_warn p"
    by (intro ext) (simp add: send_reply_or_warn_def send_reply_def build_reply_subject_def Let_def
        cong: sum.case_cong)
  then have "handle_valid_pair (p\<lparr>pi_inner := inner'\<rparr>) = handle_valid_pair p"
    by (intro ext) (simp add: handle_valid_pair_def cong: sum.case_cong prod.case_cong)
  with reply have same: "extract_token (p\<lparr>pi_inner := inner'\<rparr>) = extract_token p"
      "handle_pair_command (p\<lparr>pi_inner := inner'\<rparr>) = handle_pair_command p"
      "send_reply_or_warn (p\<lparr>pi_inner := inner'\<rparr>) = send_reply_or_warn p"
    by (simp_all add: fun_eq_iff extract_token_def handle_pair_command_def)
  have store: "pi_store p = store" using assms(1) by (simp add: discreet_def)
  obtain w1 r where look: "ps_is_paired store (arrival_sender a) w = (w1, r)" by fastforce
  have w1: "u \<notin> members w1" "r = Inr True \<Longrightarrow> arrival_sender a \<noteq> u"
    using lookup [OF look] assms(2) by auto
  have inner: "members (fst (inbox_arrival (pi_inner p) a w1)) \<subseteq> members w1"
    using assms(1) by (simp add: discreet_def)
  show ?thesis
  proof (cases a)
    case (Reaction_Arrives x)
    then show ?thesis
      using look w1 inner assms(4) [rule_format, of a]
      by (cases r) (auto simp: inbox_arrival_def pairing_inbox_of_def pairing_receive_reaction_def store
          arrival_sender_def split: bool.splits)
  next
    case (Message_Arrives e)
    show ?thesis
    proof (cases "extract_token p (ie_body e)")
      case None
      then show ?thesis
        using look w1 inner assms(4) [rule_format, of a] Message_Arrives
        by (cases r) (auto simp: inbox_arrival_def pairing_inbox_of_def pairing_receive_def store same
            arrival_sender_def split: bool.splits dest: reply_members [OF assms(1), THEN subsetD])
    next
      case (Some token)
      then show ?thesis
        using command_members [OF assms(1), of token e u w] assms(2,3) Message_Arrives
        by (auto simp: inbox_arrival_def pairing_inbox_of_def pairing_receive_def same
            arrival_sender_def presents_token_def)
    qed
  qed
qed

lemma run_gate:
  assumes "discreet p" "u \<notin> members w" "\<forall>a\<in>set as. \<not> (presents_token p a \<and> arrival_sender a = u)"
    and "\<forall>a. arrival_sender a \<noteq> u \<longrightarrow> inbox_arrival inner' a = inbox_arrival (pi_inner p) a"
  shows "inbox_run (pairing_inbox_of (p\<lparr>pi_inner := inner'\<rparr>)) as w = inbox_run (pairing_inbox_of p) as w
    \<and> u \<notin> members (inbox_run (pairing_inbox_of p) as w)"
  using assms(2,3)
proof (induction as arbitrary: w)
  case (Cons a as)
  with arrival_gate [OF assms(1) _ _ assms(4), of w a] show ?case by (simp add: inbox_run_def)
qed (simp add: inbox_run_def)

end

interpretation memory_gate: pairing_contract memory_pairing_store "\<lambda>w. set (pw_store w)"
  by unfold_locales (auto simp: memory_pairing_store_def on_pairs_def memory_is_paired_def memory_add_def
      split: if_splits)

lemma file_replace_members:
  "file_replace f pid ids w = (w', r) \<Longrightarrow> fp_paired (fst w') = (if isl r then fp_paired (fst w) else ids)"
  by (auto simp: file_replace_def file_persist_def split: prod.splits sum.splits)

interpretation file_gate: pairing_contract "file_store_calls faults pid" "\<lambda>w. set (fp_paired (fst (pw_store w)))"
  for faults pid
proof
  fix u w w' r
  assume "ps_is_paired (file_store_calls faults pid) u w = (w', r)"
  then show "set (fp_paired (fst (pw_store w'))) = set (fp_paired (fst (pw_store w)))
      \<and> (\<forall>b. r = Inr b \<longrightarrow> b = (u \<in> set (fp_paired (fst (pw_store w)))))"
    by (auto simp: file_store_calls_def on_pairs_def file_is_paired_def)
next
  fix u w w' r
  assume "ps_add (file_store_calls faults pid) u w = (w', r)"
  then show "set (fp_paired (fst (pw_store w'))) = (if isl r then set (fp_paired (fst (pw_store w)))
      else insert u (set (fp_paired (fst (pw_store w)))))"
    by (auto simp: file_store_calls_def on_pairs_def file_add_def dest!: file_replace_members
        split: prod.splits if_splits)
qed

text \<open>C24: no one gets past the pairing without the token. Over the file store, with any failures of
  the file system: as long as a user who is not paired sends no message that carries the token, the
  inbox behind the handshake is never given a message or a reaction of that user. However else the inner
  inbox might react to them, nothing changes; and the user stays unpaired.\<close>

theorem unpaired_never_gets_through:
  assumes "pi_store p = file_store_calls faults pid"
    and "\<forall>sub conv m w. set (fp_paired (fst (pw_store (fst (sk_send (pi_sink p) sub conv m w)))))
           \<subseteq> set (fp_paired (fst (pw_store w)))"
    and "\<forall>a w. set (fp_paired (fst (pw_store (fst (inbox_arrival (pi_inner p) a w)))))
           \<subseteq> set (fp_paired (fst (pw_store w)))"
    and "u \<notin> set (fp_paired (fst (pw_store w)))"
    and "\<forall>a\<in>set as. \<not> (presents_token p a \<and> arrival_sender a = u)"
    and "\<forall>a. arrival_sender a \<noteq> u \<longrightarrow> inbox_arrival inner' a = inbox_arrival (pi_inner p) a"
  shows "inbox_run (pairing_inbox_of (p\<lparr>pi_inner := inner'\<rparr>)) as w = inbox_run (pairing_inbox_of p) as w
    \<and> u \<notin> set (fp_paired (fst (pw_store (inbox_run (pairing_inbox_of p) as w))))"
  by (rule file_gate.run_gate) (use assms in \<open>simp_all add: file_gate.discreet_def\<close>)

section \<open>Witnesses\<close>

definition sample_file :: file_path where
  "sample_file = \<lparr>pt_dir = ''/var'', pt_name = Some ''pairs''\<rparr>"

definition sample_disk :: disk where
  "sample_disk = \<lparr>dk_files = [], dk_counter = 0\<rparr>"

definition sample_pairings :: "(io_faults \<times> nat \<times> pair_op) list" where
  "sample_pairings = [(no_faults, 7, Pair_Add ''@a''), (no_faults, 7, Pair_Add ''@b''),
     (no_faults, 7, Pair_Remove ''@a''), (no_faults\<lparr>io_rename := Some ''disk full''\<rparr>, 7, Pair_Add ''@c'')]"


definition sample_guard :: "(file_world, bool) paired_world pairing_inbox" where
  "sample_guard = pairing_inbox_new (file_store_calls (\<lambda>_. no_faults) 7)
     (inbox_defaults (\<lambda>e w. (w\<lparr>pw_rest := True\<rparr>, Inr ())))
     (sink_defaults (\<lambda>_ _ _ w. (w, Inl CH_Cancelled)) (\<lambda>_ _ _ _. unsupported ''react'')) ''secret''"

definition eve_writes :: arrival where
  "eve_writes = Message_Arrives \<lparr>ie_channel = ''matrix'', ie_conv = ''matrix:!r'', ie_kind = None,
     ie_from = participant_new ''@eve'' Role_Human, ie_message = top_level ''matrix'' ''matrix:!r'' ''1'',
     ie_body = ''/pair guess'', ie_attachments = [], ie_timestamp = 0\<rparr>"

lemma guess_extracted: "pi_prefix p = ''/pair'' \<Longrightarrow> extract_token p ''/pair guess'' = Some ''guess''"
  unfolding extract_token_def by (simp only:) code_simp

lemma sample_guard_parts:
  "pi_store sample_guard = file_store_calls (\<lambda>_. no_faults) 7" "pi_pair_token sample_guard = ''secret''"
  "pi_prefix sample_guard = ''/pair''" "sk_send (pi_sink sample_guard) sub conv m w = (w, Inl CH_Cancelled)"
  "pw_store (fst (inbox_arrival (pi_inner sample_guard) a v)) = pw_store v"
  by (auto simp: sample_guard_def pairing_inbox_new_def sink_defaults_def inbox_arrival_def inbox_defaults_def
      split: arrival.split)

lemma unpaired_never_gets_through_witness:
  "\<not> pw_rest (inbox_run (pairing_inbox_of sample_guard) [eve_writes]
      \<lparr>pw_store = (\<lparr>fp_path = sample_file, fp_paired = []\<rparr>, sample_disk), pw_rest = False\<rparr>)"
proof -
  let ?w = "\<lparr>pw_store = (\<lparr>fp_path = sample_file, fp_paired = []\<rparr>, sample_disk), pw_rest = False\<rparr>"
  let ?deaf = "inbox_defaults (\<lambda>e w. if pa_id (ie_from e) = ''@eve'' then (w, Inr ()) else (w\<lparr>pw_rest := True\<rparr>, Inr ()))"
  have "inbox_run (pairing_inbox_of (sample_guard\<lparr>pi_inner := ?deaf\<rparr>)) [eve_writes] ?w
      = inbox_run (pairing_inbox_of sample_guard) [eve_writes] ?w"
  proof (rule unpaired_never_gets_through [where faults = "\<lambda>_. no_faults" and pid = 7 and u = "''@eve''", THEN conjunct1])
    show "\<forall>a. arrival_sender a \<noteq> ''@eve'' \<longrightarrow> inbox_arrival ?deaf a = inbox_arrival (pi_inner sample_guard) a"
      by (auto simp: fun_eq_iff inbox_arrival_def inbox_defaults_def arrival_sender_def sample_guard_def
          pairing_inbox_new_def split: arrival.split)
  qed (simp_all add: sample_guard_parts presents_token_def eve_writes_def guess_extracted)
  moreover have "\<not> pw_rest (inbox_run (pairing_inbox_of (sample_guard\<lparr>pi_inner := ?deaf\<rparr>)) [eve_writes] ?w)"
    by (simp add: inbox_run_def inbox_arrival_def eve_writes_def pairing_inbox_of_def pairing_receive_def
        guess_extracted sample_guard_parts handle_pair_command_def send_reply_or_warn_def send_reply_def
        Let_def split: sum.split prod.split)
  ultimately show ?thesis by simp
qed

end
