(* ===== verification/Commands.thy ===== *)
theory Commands
  imports Channel_Inbox Session_Persist Goal_Runtime Tool_Turn
begin

text \<open>
  Slash commands (\<open>crabgent-command/src\<close>, \<open>crabgent-command-goal\<close>, \<open>crabgent-command-model\<close>,
  \<open>crabgent-command-compact\<close>): names and prefixes, the registry, the inbox decorator that parses a
  command line, asks the policy twice, runs the command in the session of the conversation and
  records the exchange, and the three commands that ship with the library.

  A command is a record of its two asynchronous methods over a world \<open>'w\<close>; the session store, the
  policy and the sink act on the same world.
\<close>

section \<open>Names, prefixes and errors\<close>

datatype command_name_error = Name_Empty | Name_Whitespace | Name_InvalidCharacter

datatype token_error = Token_Empty | Token_Whitespace

datatype command_error =
    Cmd_InvalidName command_name_error
  | Cmd_InvalidPrefix token_error
  | Cmd_InvalidAgentName token_error
  | Cmd_DuplicateRegistration string
  | Cmd_EmptyRegistry
  | Cmd_InvalidComposition
  | Cmd_InvalidArgs string
  | Cmd_PermissionDenied string
  | Cmd_Execution string
  | Cmd_Tool tool_error
  | Cmd_Store store_error

definition safe_reply :: "command_error \<Rightarrow> string" where
  "safe_reply err = (case err of
       Cmd_PermissionDenied reason \<Rightarrow> reason
     | Cmd_InvalidName _ \<Rightarrow> ''command rejected''
     | Cmd_InvalidPrefix _ \<Rightarrow> ''command rejected''
     | Cmd_InvalidAgentName _ \<Rightarrow> ''command rejected''
     | Cmd_DuplicateRegistration _ \<Rightarrow> ''command rejected''
     | Cmd_EmptyRegistry \<Rightarrow> ''command rejected''
     | Cmd_InvalidComposition \<Rightarrow> ''command rejected''
     | Cmd_InvalidArgs _ \<Rightarrow> ''command rejected''
     | Cmd_Execution _ \<Rightarrow> ''command failed''
     | Cmd_Tool _ \<Rightarrow> ''command failed''
     | Cmd_Store _ \<Rightarrow> ''command failed'')"

text \<open>The text up to the first white space is the whole text exactly when there is none.\<close>

definition has_whitespace :: "string \<Rightarrow> bool" where
  "has_whitespace s \<longleftrightarrow> snd (span_word s) \<noteq> []"

definition name_char :: "char \<Rightarrow> bool" where
  "name_char c \<longleftrightarrow> 97 \<le> (of_char c :: nat) \<and> (of_char c :: nat) \<le> 122 \<or> is_digit c
     \<or> c = CHR ''.'' \<or> c = CHR ''-'' \<or> c = CHR ''_''"

definition validate_name :: "string \<Rightarrow> command_name_error + unit" where
  "validate_name v =
     (if v = [] then Inl Name_Empty
      else if has_whitespace v then Inl Name_Whitespace
      else if list_all name_char v then Inr () else Inl Name_InvalidCharacter)"

definition command_name_parse :: "string \<Rightarrow> command_name_error + string" where
  "command_name_parse v = and_then (validate_name v) (\<lambda>_. Inr v)"

definition command_prefix_parse :: "string \<Rightarrow> token_error + string" where
  "command_prefix_parse v =
     (if v = [] then Inl Token_Empty else if has_whitespace v then Inl Token_Whitespace else Inr v)"

definition command_prefix_default :: string where "command_prefix_default = ''/''"

definition command_agent_name_parse :: "string \<Rightarrow> token_error + string" where
  "command_agent_name_parse v =
     (if v = [] then Inl Token_Empty else if has_whitespace v then Inl Token_Whitespace else Inr v)"

section \<open>Commands and their registry\<close>

record 'w command_ctx =
  cc_subject :: subject
  cc_session_id :: session_id
  cc_event :: inbound_event
  cc_sink :: "'w sink"

definition ctx_send_reply :: "'w command_ctx \<Rightarrow> string \<Rightarrow> ('w, message_ref) channel_call" where
  "ctx_send_reply ctx body = sk_send (cc_sink ctx) (cc_subject ctx) (ie_conv (cc_event ctx))
     (with_metadata ''channel'' (ie_channel (cc_event ctx)) (outbound_new body))"

record 'w command =
  cm_name :: string
  cm_description :: string
  cm_policy_action :: "string \<Rightarrow> 'w command_ctx \<Rightarrow> ('w, command_error, action) store_op"
  cm_execute :: "string \<Rightarrow> 'w command_ctx \<Rightarrow> ('w, command_error, string) store_op"

type_synonym 'w command_registry = "(string, 'w command) hmap"

definition register_command :: "'w command \<Rightarrow> 'w command_registry \<Rightarrow> command_error + 'w command_registry" where
  "register_command c reg =
     (if map_of reg (cm_name c) \<noteq> None then Inl (Cmd_DuplicateRegistration (cm_name c))
      else Inr (AList.update (cm_name c) c reg))"

definition command_names :: "'w command_registry \<Rightarrow> string list" where
  "command_names reg = sort (map fst reg)"

text \<open>The store trait as commands use it: the operations of the persistence hook and \<open>load\<close>.\<close>

record 's command_sessions = "'s session_api" +
  cs_load :: "session_id \<Rightarrow> 's \<Rightarrow> 's \<times> (store_error + session option)"

record 'w command_handles =
  hd_registry :: "'w command_registry"
  hd_store :: "'w command_sessions"
  hd_policy :: "subject \<Rightarrow> action \<Rightarrow> 'w \<Rightarrow> 'w \<times> policy_decision"
  hd_agent_name :: string

definition command_handles_new ::
  "'w command_registry \<Rightarrow> 'w command_sessions \<Rightarrow> (subject \<Rightarrow> action \<Rightarrow> 'w \<Rightarrow> 'w \<times> policy_decision) \<Rightarrow> string
   \<Rightarrow> command_error + 'w command_handles" where
  "command_handles_new reg store policy agent =
     (if reg = [] then Inl Cmd_EmptyRegistry
      else Inr \<lparr>hd_registry = reg, hd_store = store, hd_policy = policy, hd_agent_name = agent\<rparr>)"

section \<open>The dispatching inbox\<close>

definition parse_command :: "string \<Rightarrow> string \<Rightarrow> (string \<times> string) option" where
  "parse_command prefix body = Option.bind (strip_prefix prefix body) (\<lambda>rest0.
     let rest = trim_start rest0 in
     if rest = [] then None
     else case command_name_parse (fst (span_word rest)) of
         Inl _ \<Rightarrow> None
       | Inr name \<Rightarrow> Some (name, trim_start (snd (span_word rest))))"

record 'w command_inbox =
  cd_handles :: "'w command_handles"
  cd_prefix :: string
  cd_inner :: "'w inbox"
  cd_sink :: "'w sink"
  cd_resolver :: "(inbound_event \<Rightarrow> subject) option"

definition ensure_wrap_allowed :: "'w inbox \<Rightarrow> command_error + unit" where
  "ensure_wrap_allowed inner =
     (if ib_blocks_outer_command_dispatch inner then Inl Cmd_InvalidComposition else Inr ())"

definition agent_attr :: string where "agent_attr = ''agent''"

definition default_command_subject :: "inbound_event \<Rightarrow> unit + subject" where
  "default_command_subject e = map_sum id (with_attr attr_participant_id (pa_id (ie_from e)))
     (subject_from_inbound_event e None)"

definition command_subject :: "'w command_inbox \<Rightarrow> inbound_event \<Rightarrow> channel_error + subject" where
  "command_subject cd e = map_sum (\<lambda>_. CH_InvalidSubject)
     (with_attr agent_attr (hd_agent_name (cd_handles cd)))
     (case cd_resolver cd of Some f \<Rightarrow> Inr (f e) | None \<Rightarrow> default_command_subject e)"

definition command_allow ::
  "'w command_inbox \<Rightarrow> subject \<Rightarrow> action \<Rightarrow> ('w, command_error, unit) store_op" where
  "command_allow cd sub a w = (case hd_policy (cd_handles cd) sub a w of
       (w', Allow) \<Rightarrow> (w', Inr ())
     | (w', Deny reason) \<Rightarrow> (w', Inl (Cmd_PermissionDenied reason)))"

definition reply_error ::
  "'w command_inbox \<Rightarrow> subject \<Rightarrow> inbound_event \<Rightarrow> command_error \<Rightarrow> ('w, unit) channel_call" where
  "reply_error cd sub e err = op_bind
     (sk_send (cd_sink cd) sub (ie_conv e)
       (with_metadata ''channel'' (ie_channel e) (outbound_new (safe_reply err))))
     (\<lambda>_. op_return ())"

definition command_user_message :: "inbound_event \<Rightarrow> message" where
  "command_user_message e = user_at (Text (ie_body e) # ie_attachments e) (ie_timestamp e)"

definition store_failed :: "store_error \<Rightarrow> channel_error" where
  "store_failed err = CH_Adapter (show_store_error err)"

definition record_success ::
  "'w command_inbox \<Rightarrow> inbound_event \<Rightarrow> session_id \<Rightarrow> string \<Rightarrow> ('w, unit) channel_call" where
  "record_success cd e sid reply =
     op_bind (op_map_err store_failed (cs_load (hd_store (cd_handles cd)) sid)) (\<lambda>found. case found of
         None \<Rightarrow> op_fail (CH_Adapter ''command session disappeared'')
       | Some se \<Rightarrow> (\<lambda>w. case sa_now (hd_store (cd_handles cd)) w of (w', now) \<Rightarrow>
           op_map_err store_failed (sa_save (hd_store (cd_handles cd)) sid
             (se_messages se @ [command_user_message e, Assistant reply []]) now) w'))"

text \<open>The scope of the session: the conversation owns it, whoever speaks.\<close>

definition command_scope :: "'w command_inbox \<Rightarrow> subject \<Rightarrow> inbound_event \<Rightarrow> memory_scope" where
  "command_scope cd sub e = (scope_from_subject sub)\<lparr>sc_owner := Some (ie_conv e),
     sc_agent := Some (hd_agent_name (cd_handles cd))\<rparr>"

text \<open>A step of the dispatch whose failure is answered in the conversation.\<close>

definition or_reply ::
  "'w command_inbox \<Rightarrow> subject \<Rightarrow> inbound_event \<Rightarrow> ('w, command_error, 'a) store_op
   \<Rightarrow> ('a \<Rightarrow> ('w, unit) channel_call) \<Rightarrow> ('w, unit) channel_call" where
  "or_reply cd sub e m k w = (case m w of
       (w', Inl err) \<Rightarrow> reply_error cd sub e err w'
     | (w', Inr x) \<Rightarrow> k x w')"

definition run_command ::
  "'w command_inbox \<Rightarrow> inbound_event \<Rightarrow> subject \<Rightarrow> 'w command \<Rightarrow> string \<Rightarrow> string \<Rightarrow> ('w, unit) channel_call" where
  "run_command cd e sub c name input =
     or_reply cd sub e (command_allow cd sub (Act_ToolCall name)) (\<lambda>_.
     op_bind (op_map_err store_failed
         (sa_find (hd_store (cd_handles cd)) (ie_conv e) None (command_scope cd sub e))) (\<lambda>se.
     let ctx = \<lparr>cc_subject = sub, cc_session_id = se_id se, cc_event = e, cc_sink = cd_sink cd\<rparr> in
     or_reply cd sub e (cm_policy_action c input ctx) (\<lambda>a.
     or_reply cd sub e (command_allow cd sub a) (\<lambda>_.
     or_reply cd sub e (cm_execute c input ctx) (\<lambda>reply.
     record_success cd e (se_id se) reply)))))"

definition dispatch_command ::
  "'w command_inbox \<Rightarrow> inbound_event \<Rightarrow> string \<Rightarrow> string \<Rightarrow> ('w, unit) channel_call" where
  "dispatch_command cd e name input = (case map_of (hd_registry (cd_handles cd)) name of
       None \<Rightarrow> ib_receive (cd_inner cd) e
     | Some c \<Rightarrow> (case command_subject cd e of
         Inl err \<Rightarrow> op_fail err | Inr sub \<Rightarrow> run_command cd e sub c name input))"

definition command_receive :: "'w command_inbox \<Rightarrow> inbound_event \<Rightarrow> ('w, unit) channel_call" where
  "command_receive cd e = (case parse_command (cd_prefix cd) (ie_body e) of
       None \<Rightarrow> ib_receive (cd_inner cd) e
     | Some (name, input) \<Rightarrow> dispatch_command cd e name input)"

definition command_inbox_of :: "'w command_inbox \<Rightarrow> 'w inbox" where
  "command_inbox_of cd = forward_inbox (cd_inner cd) (command_receive cd)"

text \<open>The wiring an adapter is built with.\<close>

record 'w command_wiring =
  wr_handles :: "'w command_handles"
  wr_prefix :: string
  wr_resolver :: "(inbound_event \<Rightarrow> subject) option"

definition command_wiring_new ::
  "'w inbox \<Rightarrow> 'w command_registry \<Rightarrow> string \<Rightarrow> string \<Rightarrow> 'w command_sessions
   \<Rightarrow> (subject \<Rightarrow> action \<Rightarrow> 'w \<Rightarrow> 'w \<times> policy_decision) \<Rightarrow> command_error + 'w command_wiring" where
  "command_wiring_new inner reg agent prefix store policy =
     and_then (ensure_wrap_allowed inner) (\<lambda>_.
     and_then (command_handles_new reg store policy agent) (\<lambda>h.
     Inr \<lparr>wr_handles = h, wr_prefix = prefix, wr_resolver = None\<rparr>))"

definition wrap_inbox :: "'w command_wiring \<Rightarrow> 'w inbox \<Rightarrow> 'w channel \<Rightarrow> 'w inbox" where
  "wrap_inbox wr inner ch = command_inbox_of
     \<lparr>cd_handles = wr_handles wr, cd_prefix = wr_prefix wr, cd_inner = inner,
      cd_sink = router_sink (router_with_channel ch []), cd_resolver = wr_resolver wr\<rparr>"

section \<open>The goal command\<close>

datatype goal_cmd = Goal_Show | Goal_Set string | Goal_Pause | Goal_Resume | Goal_Clear

definition goal_cmd_parse :: "string \<Rightarrow> goal_cmd" where
  "goal_cmd_parse input = (let t = trim input in
     if t = [] then Goal_Show
     else if t = ''pause'' then Goal_Pause
     else if t = ''resume'' then Goal_Resume
     else if t = ''clear'' then Goal_Clear
     else Goal_Set t)"

definition format_goal :: "thread_goal \<Rightarrow> string" where
  "format_goal g = ''Goal: '' @ gl_objective g @ newline @ ''Status: '' @ goal_status_as_str (gl_status g)
     @ newline @ ''Tokens used: '' @ show_int (gl_tokens_used g) @ '' / ''
     @ (case gl_token_budget g of None \<Rightarrow> ''unbounded'' | Some b \<Rightarrow> show_int b)
     @ '' | Time: '' @ show_int (gl_time_used_seconds g) @ ''s''"

definition reply_for :: "bool \<Rightarrow> string \<Rightarrow> string \<Rightarrow> string" where
  "reply_for applied yes no = (if applied then yes else no)"

definition map_goal_error :: "goal_error \<Rightarrow> command_error" where
  "map_goal_error err = (case err of
       GE_Invalid m \<Rightarrow> Cmd_InvalidArgs m | GE_Store s \<Rightarrow> Cmd_Store s)"

text \<open>The end of every command: the reply is sent, and a failure to send fails the command.\<close>

definition send_and_return ::
  "string \<Rightarrow> 'w command_ctx \<Rightarrow> string \<Rightarrow> ('w, command_error, string) store_op" where
  "send_and_return what ctx reply = op_bind
     (op_map_err (\<lambda>err. Cmd_Execution (what @ '' reply send failed: '' @ show_channel_error err))
       (ctx_send_reply ctx reply))
     (\<lambda>_. op_return reply)"

definition goal_policy_action :: "string \<Rightarrow> 'w command_ctx \<Rightarrow> ('w, command_error, action) store_op" where
  "goal_policy_action input ctx = op_return (case goal_cmd_parse input of
       Goal_Show \<Rightarrow> Act_GoalGet (Some (sub_id (cc_subject ctx)))
     | _ \<Rightarrow> Act_GoalManage (Some (sub_id (cc_subject ctx))))"

definition goal_reply ::
  "'w goal_api \<Rightarrow> owner \<Rightarrow> session_id \<Rightarrow> goal_cmd \<Rightarrow> ('w, command_error, string) store_op" where
  "goal_reply api ow sid cmd = (case cmd of
       Goal_Show \<Rightarrow> op_bind (op_map_err Cmd_Store (runtime_get api sid)) (\<lambda>found.
         op_return (case found of Some g \<Rightarrow> format_goal g | None \<Rightarrow> ''No goal set for this thread.''))
     | Goal_Set objective \<Rightarrow>
         op_bind (op_map_err map_goal_error (set_objective api ow sid objective None)) (\<lambda>g.
         op_return (''Goal set: '' @ gl_objective g))
     | Goal_Pause \<Rightarrow> op_bind (op_map_err Cmd_Store (runtime_pause api sid)) (\<lambda>b.
         op_return (reply_for b ''Goal paused.'' ''No goal to pause.''))
     | Goal_Resume \<Rightarrow> op_bind (op_map_err Cmd_Store (runtime_resume api sid)) (\<lambda>b.
         op_return (reply_for b ''Goal resumed.'' ''No goal to resume.''))
     | Goal_Clear \<Rightarrow> op_bind (op_map_err Cmd_Store (runtime_clear api sid)) (\<lambda>b.
         op_return (reply_for b ''Goal cleared.'' ''No goal to clear.'')))"

definition goal_execute ::
  "'w goal_api \<Rightarrow> string \<Rightarrow> 'w command_ctx \<Rightarrow> ('w, command_error, string) store_op" where
  "goal_execute api input ctx = op_bind
     (goal_reply api (sub_id (cc_subject ctx)) (cc_session_id ctx) (goal_cmd_parse input))
     (send_and_return ''goal'' ctx)"

definition goal_command :: "'w goal_api \<Rightarrow> 'w command" where
  "goal_command api = \<lparr>cm_name = ''goal'', cm_description = ''Show or control this thread'' @ [CHR 0x27]
       @ ''s goal: `/goal` shows it, `/goal <objective>` sets it, `/goal pause|resume|clear` control it.'',
     cm_policy_action = goal_policy_action, cm_execute = goal_execute api\<rparr>"

section \<open>The model and the compact command\<close>

datatype cli_args = Cli_List | Cli_Get model_id | Cli_Set model_id

definition parse_model_id :: "string list \<Rightarrow> string \<Rightarrow> command_error + model_id" where
  "parse_model_id parts context = (case parts of
       [] \<Rightarrow> Inl (Cmd_InvalidArgs (context @ '': missing model id''))
     | [i] \<Rightarrow> Inr (model_id_new i)
     | _ \<Rightarrow> Inl (Cmd_InvalidArgs (context @ '': unexpected extra arguments'')))"

definition parse_no_more :: "string list \<Rightarrow> cli_args \<Rightarrow> string \<Rightarrow> command_error + cli_args" where
  "parse_no_more parts parsed context =
     (if parts \<noteq> [] then Inl (Cmd_InvalidArgs (context @ '': unexpected extra arguments'')) else Inr parsed)"

definition cli_args_parse :: "string \<Rightarrow> command_error + cli_args" where
  "cli_args_parse input = (case split_whitespace input of
       [] \<Rightarrow> Inl (Cmd_InvalidArgs ''model command requires a subcommand: list, get, or set'')
     | op # parts \<Rightarrow>
         if op = ''list'' then parse_no_more parts Cli_List ''model list''
         else if op = ''get'' then map_sum id Cli_Get (parse_model_id parts ''model get'')
         else if op = ''set'' then map_sum id Cli_Set (parse_model_id parts ''model set'')
         else Inl (Cmd_InvalidArgs (''unknown model subcommand: '' @ op)))"

definition model_tool_args :: "cli_args \<Rightarrow> json" where
  "model_tool_args a = (case a of
       Cli_List \<Rightarrow> JObj [(''op'', JStr ''list'')]
     | Cli_Get i \<Rightarrow> JObj [(''op'', JStr ''get''), (''id'', JStr i)]
     | Cli_Set i \<Rightarrow> JObj [(''op'', JStr ''set_session''), (''model'', JStr i)])"

text \<open>The pretty printer of \<open>serde_json\<close> is a parameter.\<close>

definition stringify_tool_output :: "(json \<Rightarrow> string) \<Rightarrow> json \<Rightarrow> string" where
  "stringify_tool_output pretty output = (case output of JStr t \<Rightarrow> t | _ \<Rightarrow> pretty output)"

definition str_field :: "json \<Rightarrow> string \<Rightarrow> string" where
  "str_field v k = unwrap_or ''?'' (Option.bind (json_get k v) as_str)"

definition bool_field :: "json \<Rightarrow> string \<Rightarrow> bool" where
  "bool_field v k = (json_get k v = Some (JBool True))"

definition as_u64 :: "json \<Rightarrow> nat option" where
  "as_u64 v = (case v of
       JNum n \<Rightarrow> if list_all is_digit n then parse_unsigned (2 ^ 64 - 1) n else None
     | _ \<Rightarrow> None)"

definition number_field :: "json \<Rightarrow> string \<Rightarrow> nat" where
  "number_field v k = unwrap_or 0 (Option.bind (json_get k v) as_u64)"

definition max_formatted_models :: nat where "max_formatted_models = 20"

definition format_model_list :: "(json \<Rightarrow> string) \<Rightarrow> json \<Rightarrow> string" where
  "format_model_list pretty output = (case Option.bind (json_get ''models'' output) as_array of
       None \<Rightarrow> stringify_tool_output pretty output
     | Some models \<Rightarrow>
         (let total = unwrap_or (length models) (Option.bind (json_get ''total'' output) as_u64);
              shown = min (length models) max_formatted_models
          in join_with newline
               ([''Models (showing '' @ show_nat shown @ '' of '' @ show_nat total @ '')'']
                @ map (\<lambda>m. ''- '' @ str_field m ''id'' @ '' ['' @ str_field m ''provider'' @ ''] ''
                     @ str_field m ''display_name'') (take max_formatted_models models)
                @ (if total > shown
                   then [''... '' @ show_nat (total - shown) @ '' more models not shown''] else []))))"

definition format_model_get :: "(json \<Rightarrow> string) \<Rightarrow> json \<Rightarrow> string" where
  "format_model_get pretty output = (case json_get ''model'' output of
       None \<Rightarrow> stringify_tool_output pretty output
     | Some m \<Rightarrow>
         (let caps = unwrap_or JNull (json_get ''caps'' m)
          in str_field m ''id'' @ '' ['' @ str_field m ''provider'' @ '']'' @ newline
             @ str_field m ''display_name'' @ newline
             @ ''capabilities: tools='' @ show_bool (bool_field caps ''supports_tools'')
             @ '' vision='' @ show_bool (bool_field caps ''supports_vision'')
             @ '' audio='' @ show_bool (bool_field caps ''supports_audio'')
             @ '' thinking='' @ show_bool (bool_field caps ''supports_thinking'')
             @ '' prompt_cache='' @ show_bool (bool_field caps ''supports_prompt_cache'')
             @ '' max_input='' @ show_nat (number_field caps ''max_input_tokens'')
             @ '' max_output='' @ show_nat (number_field caps ''max_output_tokens'')))"

definition format_model_set :: "json \<Rightarrow> string" where
  "format_model_set output = ''Session model override set to '' @ str_field output ''model''
     @ '' for session '' @ str_field output ''session_id'' @ ''.''"

definition format_model_reply :: "(json \<Rightarrow> string) \<Rightarrow> cli_args \<Rightarrow> json \<Rightarrow> string" where
  "format_model_reply pretty a output = (case a of
       Cli_List \<Rightarrow> format_model_list pretty output
     | Cli_Get _ \<Rightarrow> format_model_get pretty output
     | Cli_Set _ \<Rightarrow> format_model_set output)"

text \<open>A tool behind a command gets the subject and the session of the command.\<close>

definition tool_command_execute ::
  "(json \<Rightarrow> tool_ctx \<Rightarrow> ('w, tool_error, tool_result) store_op) \<Rightarrow> json \<Rightarrow> 'w command_ctx
   \<Rightarrow> ('w, command_error, tool_result) store_op" where
  "tool_command_execute tool args ctx = op_map_err Cmd_Tool
     (tool args ((tool_ctx_new (cc_subject ctx))\<lparr>tx_session_id := Some (cc_session_id ctx)\<rparr>))"

definition model_policy_action :: "string \<Rightarrow> 'w command_ctx \<Rightarrow> ('w, command_error, action) store_op" where
  "model_policy_action input ctx = op_lift (map_sum id (\<lambda>a. case a of
       Cli_List \<Rightarrow> Act_ModelList
     | Cli_Get i \<Rightarrow> Act_ModelGet i
     | Cli_Set i \<Rightarrow> Act_ModelsSetSessionOverride (cc_session_id ctx) i) (cli_args_parse input))"

definition model_execute ::
  "(json \<Rightarrow> string) \<Rightarrow> (json \<Rightarrow> tool_ctx \<Rightarrow> ('w, tool_error, tool_result) store_op) \<Rightarrow> string
   \<Rightarrow> 'w command_ctx \<Rightarrow> ('w, command_error, string) store_op" where
  "model_execute pretty tool input ctx =
     op_bind (op_lift (cli_args_parse input)) (\<lambda>parsed.
     op_bind (tool_command_execute tool (model_tool_args parsed) ctx) (\<lambda>r.
       if tr_is_error r then op_fail (Cmd_Execution (format_model_reply pretty parsed (tr_output r)))
       else send_and_return ''model'' ctx (format_model_reply pretty parsed (tr_output r))))"

definition model_command ::
  "(json \<Rightarrow> string) \<Rightarrow> (json \<Rightarrow> tool_ctx \<Rightarrow> ('w, tool_error, tool_result) store_op) \<Rightarrow> 'w command" where
  "model_command pretty tool = \<lparr>cm_name = ''model'',
     cm_description = ''Inspect and set the current session model.'',
     cm_policy_action = model_policy_action, cm_execute = model_execute pretty tool\<rparr>"

text \<open>The compaction itself is a parameter; its errors are those of the store or shown as text.\<close>

definition map_compact_error :: "store_error + string \<Rightarrow> command_error" where
  "map_compact_error err = (case err of Inl s \<Rightarrow> Cmd_Store s | Inr shown \<Rightarrow> Cmd_Execution shown)"

definition compact_success_reply :: string where "compact_success_reply = ''Session compacted.''"

definition compact_command ::
  "(session_id \<Rightarrow> subject \<Rightarrow> ('w, store_error + string, unit) store_op) \<Rightarrow> 'w command" where
  "compact_command run_compaction = \<lparr>cm_name = ''compact'',
     cm_description = ''Compact the current persisted session.'',
     cm_policy_action = (\<lambda>_ _. op_return (Act_Custom ''compact.session'')),
     cm_execute = (\<lambda>_ ctx. op_bind
       (op_map_err map_compact_error (run_compaction (cc_session_id ctx) (cc_subject ctx)))
       (\<lambda>_. send_and_return ''compact'' ctx compact_success_reply))\<rparr>"

section \<open>Commands cannot be wrapped around a gate\<close>

text \<open>An inbox as hosts build it: decorators around an inner inbox.\<close>

datatype 'w layer =
    Recorded "inbound_event \<Rightarrow> ('w, record_decision) channel_call"
  | Started_At instant
  | Paired "'w pairing_inbox"
  | Commanded "'w command_inbox"

fun layered :: "'w layer list \<Rightarrow> 'w inbox \<Rightarrow> 'w inbox" where
  "layered [] ib = ib"
| "layered (Recorded r # ls) ib = recording_inbox r (layered ls ib)"
| "layered (Started_At t # ls) ib = startup_cutoff_inbox t (layered ls ib)"
| "layered (Paired p # ls) ib = pairing_inbox_of (p\<lparr>pi_inner := layered ls ib\<rparr>)"
| "layered (Commanded cd # ls) ib = command_inbox_of (cd\<lparr>cd_inner := layered ls ib\<rparr>)"

fun is_gate :: "'w layer \<Rightarrow> bool" where
  "is_gate (Started_At _) = True"
| "is_gate (Paired _) = True"
| "is_gate _ = False"

lemma layered_blocks:
  "ib_blocks_outer_command_dispatch (layered ls ib)
     \<longleftrightarrow> list_ex is_gate ls \<or> ib_blocks_outer_command_dispatch ib"
  by (induction ls ib rule: layered.induct)
    (simp_all add: recording_inbox_def forward_inbox_def startup_cutoff_inbox_def pairing_inbox_of_def
      command_inbox_of_def)

text \<open>C30: an adapter cannot put commands in front of a gate. Wiring commands around a stack of decorators
  succeeds exactly when there is a command to run and no layer of the stack, however deep, is a
  pairing or a startup gate; a gate is reported as such.\<close>

theorem gates_cannot_be_bypassed:
  "command_wiring_new (layered ls ib) reg agent prefix store policy =
     (if list_ex is_gate ls \<or> ib_blocks_outer_command_dispatch ib then Inl Cmd_InvalidComposition
      else if reg = [] then Inl Cmd_EmptyRegistry
      else Inr \<lparr>wr_handles = \<lparr>hd_registry = reg, hd_store = store, hd_policy = policy, hd_agent_name = agent\<rparr>,
             wr_prefix = prefix, wr_resolver = None\<rparr>)"
  by (simp add: command_wiring_new_def ensure_wrap_allowed_def layered_blocks command_handles_new_def)

section \<open>A command runs only when it is allowed\<close>

definition with_command :: "string \<Rightarrow> 'w command \<Rightarrow> 'w command_inbox \<Rightarrow> 'w command_inbox" where
  "with_command name c cd = cd\<lparr>cd_handles := (cd_handles cd)\<lparr>hd_registry :=
     AList.update name c (hd_registry (cd_handles cd))\<rparr>\<rparr>"

lemma with_command_parts [simp]:
  "map_of (hd_registry (cd_handles (with_command name c cd))) n
     = (if n = name then Some c else map_of (hd_registry (cd_handles cd)) n)"
  "hd_store (cd_handles (with_command name c cd)) = hd_store (cd_handles cd)"
  "hd_policy (cd_handles (with_command name c cd)) = hd_policy (cd_handles cd)"
  "hd_agent_name (cd_handles (with_command name c cd)) = hd_agent_name (cd_handles cd)"
  "cd_inner (with_command name c cd) = cd_inner cd" "cd_prefix (with_command name c cd) = cd_prefix cd"
  "cd_sink (with_command name c cd) = cd_sink cd" "cd_resolver (with_command name c cd) = cd_resolver cd"
  by (simp_all add: with_command_def hm_get_update)

lemma with_command_run [simp]:
  "command_subject (with_command name c cd) = command_subject cd"
  "run_command (with_command name c cd) = run_command cd"
proof -
  have parts: "command_scope (with_command name c cd) = command_scope cd"
      "command_allow (with_command name c cd) = command_allow cd"
      "reply_error (with_command name c cd) = reply_error cd"
      "record_success (with_command name c cd) = record_success cd"
    by (intro ext, simp only: command_scope_def command_allow_def reply_error_def record_success_def with_command_parts)+
  have replies: "or_reply (with_command name c cd) = or_reply cd"
    by (intro ext) (simp only: or_reply_def parts)
  show "run_command (with_command name c cd) = run_command cd"
    by (intro ext) (simp only: run_command_def with_command_parts parts replies)
  show "command_subject (with_command name c cd) = command_subject cd"
    by (intro ext) (simp add: command_subject_def)
qed

text \<open>Two continuations of a step differ only after it succeeded.\<close>

lemma or_reply_differs:
  assumes "or_reply cd sub e m k w \<noteq> or_reply cd sub e m k' w"
  obtains w' x where "m w = (w', Inr x)" "k x w' \<noteq> k' x w'"
  using assms by (cases "m w") (auto simp: or_reply_def split: sum.splits)

lemma op_bind_differs:
  assumes "op_bind m k w \<noteq> op_bind m k' w"
  obtains w' x where "m w = (w', Inr x)" "k x w' \<noteq> k' x w'"
  using assms by (cases "m w") (auto simp: op_bind_def split: sum.splits)

lemma or_reply_same:
  assumes "or_reply cd sub e m k w \<noteq> or_reply cd sub e m' k w"
  shows "m w \<noteq> m' w"
  using assms by (auto simp: or_reply_def)

lemma command_allow_Inr: "command_allow cd sub a w = (w', Inr u) \<longleftrightarrow> hd_policy (cd_handles cd) sub a w = (w', Allow)"
  by (auto simp: command_allow_def split: prod.splits policy_decision.splits)

lemma op_map_err_Inr: "op_map_err f m w = (w', Inr x) \<longleftrightarrow> m w = (w', Inr x)"
  by (cases "m w"; cases "snd (m w)") (auto simp: op_map_err_def map_err_def)

lemma run_command_differs:
  assumes "run_command cd e sub (c\<lparr>cm_execute := x\<rparr>) name input w
      \<noteq> run_command cd e sub (c\<lparr>cm_execute := y\<rparr>) name input w"
  obtains w1 w2 se w3 a w4 where
    "hd_policy (cd_handles cd) sub (Act_ToolCall name) w = (w1, Allow)"
    "sa_find (hd_store (cd_handles cd)) (ie_conv e) None (command_scope cd sub e) w1 = (w2, Inr se)"
    "cm_policy_action c input \<lparr>cc_subject = sub, cc_session_id = se_id se, cc_event = e, cc_sink = cd_sink cd\<rparr> w2
       = (w3, Inr a)"
    "hd_policy (cd_handles cd) sub a w3 = (w4, Allow)"
    "x input \<lparr>cc_subject = sub, cc_session_id = se_id se, cc_event = e, cc_sink = cd_sink cd\<rparr> w4
       \<noteq> y input \<lparr>cc_subject = sub, cc_session_id = se_id se, cc_event = e, cc_sink = cd_sink cd\<rparr> w4"
  using assms unfolding run_command_def Let_def
  by (elim or_reply_differs op_bind_differs)
    (auto simp: command_allow_Inr op_map_err_Inr dest!: or_reply_same elim!: or_reply_differs)

text \<open>C28: a command executes only after two decisions of the policy. Where the execution of a
  command matters at all, the line named it, the policy allowed the subject the command, the session
  was there, the command named the action it was about to take, and the policy allowed the same subject
  that action, in this order, right before the execution.\<close>

theorem command_runs_only_when_allowed:
  assumes "command_receive (with_command name (c\<lparr>cm_execute := x\<rparr>) cd) e w
      \<noteq> command_receive (with_command name (c\<lparr>cm_execute := y\<rparr>) cd) e w"
  shows "\<exists>input sub w1 w2 se w3 a w4. parse_command (cd_prefix cd) (ie_body e) = Some (name, input)
    \<and> command_subject cd e = Inr sub
    \<and> hd_policy (cd_handles cd) sub (Act_ToolCall name) w = (w1, Allow)
    \<and> sa_find (hd_store (cd_handles cd)) (ie_conv e) None (command_scope cd sub e) w1 = (w2, Inr se)
    \<and> (let ctx = \<lparr>cc_subject = sub, cc_session_id = se_id se, cc_event = e, cc_sink = cd_sink cd\<rparr>
       in cm_policy_action c input ctx w2 = (w3, Inr a)
        \<and> hd_policy (cd_handles cd) sub a w3 = (w4, Allow) \<and> x input ctx w4 \<noteq> y input ctx w4)"
proof -
  obtain n input where p: "parse_command (cd_prefix cd) (ie_body e) = Some (n, input)"
    using assms by (cases "parse_command (cd_prefix cd) (ie_body e)") (auto simp: command_receive_def)
  then have n: "n = name"
    using assms by (cases "n = name")
      (simp_all add: command_receive_def dispatch_command_def cong: option.case_cong sum.case_cong)
  obtain sub where sub: "command_subject cd e = Inr sub"
    using assms p n by (cases "command_subject cd e") (simp_all add: command_receive_def dispatch_command_def)
  with assms p n have "run_command cd e sub (c\<lparr>cm_execute := x\<rparr>) name input w
      \<noteq> run_command cd e sub (c\<lparr>cm_execute := y\<rparr>) name input w"
    by (simp add: command_receive_def dispatch_command_def)
  then show ?thesis using p n sub unfolding Let_def by (elim run_command_differs) blast
qed

section \<open>What a failed command says\<close>

text \<open>An error with its texts blanked, but for the reason of a denial.\<close>

definition hush :: "command_error \<Rightarrow> command_error" where
  "hush err = (case err of
       Cmd_PermissionDenied reason \<Rightarrow> Cmd_PermissionDenied reason
     | Cmd_Execution _ \<Rightarrow> Cmd_Execution []
     | Cmd_Tool _ \<Rightarrow> Cmd_Execution []
     | Cmd_Store _ \<Rightarrow> Cmd_Execution []
     | _ \<Rightarrow> Cmd_InvalidArgs [])"

definition hush_command :: "'w command \<Rightarrow> 'w command" where
  "hush_command c = c\<lparr>cm_policy_action := (\<lambda>i ctx. op_map_err hush (cm_policy_action c i ctx)),
     cm_execute := (\<lambda>i ctx. op_map_err hush (cm_execute c i ctx))\<rparr>"

definition hushed :: "'w command_inbox \<Rightarrow> 'w command_inbox" where
  "hushed cd = cd\<lparr>cd_handles := (cd_handles cd)\<lparr>hd_registry :=
     map (\<lambda>(n, c). (n, hush_command c)) (hd_registry (cd_handles cd))\<rparr>\<rparr>"

lemma hush_reply: "safe_reply (hush err) = safe_reply err"
  by (cases err) (simp_all add: safe_reply_def hush_def)

lemma or_reply_hush: "or_reply cd sub e (op_map_err hush m) k = or_reply cd sub e m k"
proof
  fix w
  show "or_reply cd sub e (op_map_err hush m) k w = or_reply cd sub e m k w"
    by (cases "m w"; cases "snd (m w)") (auto simp: or_reply_def op_map_err_def map_err_def reply_error_def hush_reply)
qed

lemma hushed_parts [simp]:
  "map_of (hd_registry (cd_handles (hushed cd))) n = map_option hush_command (map_of (hd_registry (cd_handles cd)) n)"
  "hd_store (cd_handles (hushed cd)) = hd_store (cd_handles cd)"
  "hd_policy (cd_handles (hushed cd)) = hd_policy (cd_handles cd)"
  "hd_agent_name (cd_handles (hushed cd)) = hd_agent_name (cd_handles cd)"
  "cd_inner (hushed cd) = cd_inner cd" "cd_prefix (hushed cd) = cd_prefix cd"
  "cd_sink (hushed cd) = cd_sink cd" "cd_resolver (hushed cd) = cd_resolver cd"
  by (simp_all add: hushed_def map_of_map)

lemma hushed_run: "command_subject (hushed cd) = command_subject cd"
  "run_command (hushed cd) e sub (hush_command c) name input = run_command cd e sub c name input"
proof -
  have parts: "command_scope (hushed cd) = command_scope cd" "command_allow (hushed cd) = command_allow cd"
      "reply_error (hushed cd) = reply_error cd" "record_success (hushed cd) = record_success cd"
    by (intro ext, simp only: command_scope_def command_allow_def reply_error_def record_success_def hushed_parts)+
  have replies: "or_reply (hushed cd) = or_reply cd"
    by (intro ext) (simp only: or_reply_def parts)
  have blanked: "cm_policy_action (hush_command c) i ctx = op_map_err hush (cm_policy_action c i ctx)"
      "cm_execute (hush_command c) i ctx = op_map_err hush (cm_execute c i ctx)" for i ctx
    by (simp_all add: hush_command_def)
  show "run_command (hushed cd) e sub (hush_command c) name input = run_command cd e sub c name input"
    by (simp only: run_command_def hushed_parts parts replies blanked or_reply_hush)
  show "command_subject (hushed cd) = command_subject cd"
    by (intro ext) (simp add: command_subject_def)
qed

text \<open>C31: a failed command tells the conversation nothing of its input. Whatever texts the errors of the
  commands carry, of arguments, paths, tools or stores, blanking them all changes nothing that the
  dispatch does: neither what is sent nor what is stored. Only the reason of a denial is passed on.\<close>

theorem failures_reveal_nothing:
  "command_receive (hushed cd) = command_receive cd"
proof (intro ext)
  fix e w
  have "dispatch_command (hushed cd) e name input = dispatch_command cd e name input" for name input
    by (cases "map_of (hd_registry (cd_handles cd)) name"; cases "command_subject cd e")
      (simp_all add: dispatch_command_def hushed_run)
  then show "command_receive (hushed cd) e w = command_receive cd e w"
    by (simp add: command_receive_def split: option.split)
qed

section \<open>The session of a command\<close>

lemma find_or_create_identity:
  assumes "session_wf st" "find_or_create i now ow th scope st = (st', se)"
  shows "identity_of se = (th, session_identity_scope ow scope)"
proof (cases "max_by_key se_updated_at (filter (is_identity ow th scope) (hm_values (ss_sessions st)))")
  case None
  then show ?thesis
    using assms(2) by (auto simp: find_or_create_def Let_def new_empty_session_def identity_of_def
        normalized_session_scope_def session_identity_scope_def)
next
  case (Some s)
  then have "is_identity ow th scope s" using max_by_key_Some by fastforce
  with Some assms(2) show ?thesis by (auto simp: find_or_create_def is_identity_iff)
qed

lemma mem_find_identity:
  assumes "mem_inv w" "mem_find ow th scope w = (w', Inr se)"
  shows "identity_of se = (th, session_identity_scope ow scope)"
  using assms find_or_create_identity
  by (force simp: mem_inv_def mem_find_def mem_now_def Let_def split: prod.splits)

text \<open>The attributes that make the scope of a subject from a channel.\<close>

lemma event_scope:
  assumes "subject_from_inbound_event e kind = Inr s"
  shows "attr s ''channel'' = Some (ie_channel e)" "attr s ''conv'' = Some (ie_conv e)"
    "attr s ''channel_kind'' = map_option kind_as_str (opt_or (ie_kind e) kind)"
proof -
  show "attr s ''channel'' = Some (ie_channel e)" "attr s ''conv'' = Some (ie_conv e)"
    using subject_from_event_attrs(1,2) [OF assms] by (simp_all add: attr_channel_def attr_conv_def)
  obtain s0 where s0: "subject_try_new (channel_subject_id (ie_channel e) (pa_id (ie_from e))) = Inr s0"
    and s: "s = with_inbound_message_ref (ie_message e)
       (case opt_or (ie_kind e) kind of
          Some k \<Rightarrow> subject_with_channel (ie_channel e) (ie_conv e) k
            (with_sender_display (pa_display_name (ie_from e))
              (with_participant_role (role_as_str (pa_role (ie_from e))) s0))
        | None \<Rightarrow> with_attr attr_conv (ie_conv e) (with_attr attr_channel (ie_channel e)
            (with_sender_display (pa_display_name (ie_from e))
              (with_participant_role (role_as_str (pa_role (ie_from e))) s0))))"
    using subject_from_eventE [OF assms] .
  have "attr s attr_channel_kind = map_option kind_as_str (opt_or (ie_kind e) kind)"
    by (cases "opt_or (ie_kind e) kind")
      (simp_all add: s stamped_ref stamped_attrs subject_with_channel_def attr_with_attr fresh_subject [OF s0])
  then show "attr s ''channel_kind'' = map_option kind_as_str (opt_or (ie_kind e) kind)"
    by (simp add: attr_channel_kind_def)
qed

lemma kind_as_str_inj: "kind_as_str k = kind_as_str k' \<longleftrightarrow> k = k'"
  by (cases k; cases k') (simp_all add: kind_as_str_def)

lemma command_scope_is:
  assumes "cd_resolver cd = None" "command_subject cd e = Inr sub"
  shows "command_scope cd sub e = \<lparr>sc_owner = Some (ie_conv e), sc_channel = Some (ie_channel e),
    sc_conv = Some (ie_conv e), sc_agent = Some (hd_agent_name (cd_handles cd)),
    sc_kind = map_option kind_as_str (ie_kind e)\<rparr>"
proof -
  obtain s where s: "subject_from_inbound_event e None = Inr s"
      "sub = with_attr agent_attr (hd_agent_name (cd_handles cd)) (with_attr attr_participant_id (pa_id (ie_from e)) s)"
    using assms by (cases "subject_from_inbound_event e None") (auto simp: command_subject_def default_command_subject_def)
  then show ?thesis
    using event_scope [OF s(1)]
    by (simp add: command_scope_def scope_from_subject_def attr_with_attr agent_attr_def attr_participant_id_def
        opt_or_def split: option.split)
qed

lemma run_scope_is:
  assumes "subject_from_inbound_event e k = Inr s"
  shows "(scope_from_subject (with_attr agent_attr agent (with_conv_display l s)))\<lparr>sc_owner := Some (ie_conv e)\<rparr>
    = \<lparr>sc_owner = Some (ie_conv e), sc_channel = Some (ie_channel e), sc_conv = Some (ie_conv e),
       sc_agent = Some agent, sc_kind = map_option kind_as_str (opt_or (ie_kind e) k)\<rparr>"
  using event_scope [OF assms]
  by (simp add: scope_from_subject_def attr_with_attr agent_attr_def stamped_attrs attr_channel_display_def
      attr_workspace_display_def)

text \<open>C29: a command works on the session of the conversation's runs, if the kind of the conversation
  is known to both. With sessions keyed by the conversation, a later run for the same event and agent opens
  the very session the command used, whatever happened to the store in between, exactly when the event
  carries its kind or the inbox infers none; otherwise the run has a session of its own.\<close>

theorem command_session_is_the_runs:
  assumes "cd_resolver cd = None" "sa_find (hd_store (cd_handles cd)) = mem_find"
    and "command_subject cd e = Inr sub" "mem_inv s"
    and "sa_find (hd_store (cd_handles cd)) (ie_conv e) None (command_scope cd sub e) s = (s', Inr se)"
    and "subject_from_inbound_event e k = Inr run_sub"
    and "cx_subject ctx = with_attr agent_attr (hd_agent_name (cd_handles cd)) (with_conv_display l run_sub)"
    and "sa_find (ph_store h) = mem_find" "ph_resolve_owner h (cx_subject ctx) = ie_conv e"
    and "ph_resolve_thread h ctx = None"
    and "mem_inv (ps_store w)" "session_load (se_id se) (mw_store (ps_store w)) = Some row"
    and "identity_of row = identity_of se"
  shows "map_option se_id (snd (open_session h ctx w)) = Some (se_id se) \<longleftrightarrow> ie_kind e \<noteq> None \<or> k = None"
proof -
  let ?scope = "(scope_from_subject (cx_subject ctx))\<lparr>sc_owner := Some (ie_conv e)\<rparr>"
  have key: "identity_of row = (None, session_identity_scope (ie_conv e) (command_scope cd sub e))"
    using mem_find_identity assms(2,4,5,13) by metis
  have scopes: "?scope = command_scope cd sub e \<longleftrightarrow> ie_kind e \<noteq> None \<or> k = None"
    using run_scope_is [OF assms(6)] command_scope_is [OF assms(1,3)] assms(7)
    by (cases "ie_kind e"; cases k) (auto simp: opt_or_def)
  obtain st r where f: "mem_find (ie_conv e) None ?scope (ps_store w) = (st, r)" by fastforce
  obtain t where t: "r = Inr t" "session_load (se_id t) (mw_store st) = Some t"
      "session_load (se_id se) (mw_store st) = Some row"
    using mem_found [OF assms(11) f] assms(12) by metis
  have opened: "map_option se_id (snd (open_session h ctx w)) = Some (se_id t)"
    using f t(1) assms(8-10) by (simp add: open_session_def Let_def)
  have tkey: "identity_of t = (None, session_identity_scope (ie_conv e) ?scope)"
    using mem_find_identity [OF assms(11)] f t(1) by blast
  have same: "se_id t = se_id se \<longleftrightarrow> identity_of t = identity_of row"
  proof
    assume "se_id t = se_id se"
    with t show "identity_of t = identity_of row" by simp
  next
    assume eq: "identity_of t = identity_of row"
    have "find_or_create i now (ie_conv e) None ?scope (mw_store (ps_store w)) = (mw_store (ps_store w), row)" for i now
      using assms(11,12) eq tkey by (intro found_by_identity) (auto simp: mem_inv_def session_load_def)
    then have "t = row" using f t(1) by (simp add: mem_find_def Let_def split: prod.splits)
    moreover have "se_id row = se_id se"
      using session_wfD(1) [of "mw_store (ps_store w)" "se_id se" row] assms(11,12)
      by (simp add: mem_inv_def session_load_def)
    ultimately show "se_id t = se_id se" by simp
  qed
  have "session_identity_scope (ie_conv e) ?scope = session_identity_scope (ie_conv e) (command_scope cd sub e)
      \<longleftrightarrow> ?scope = command_scope cd sub e"
    by (cases "scope_from_subject sub") (simp add: session_identity_scope_def command_scope_def)
  then have "se_id t = se_id se \<longleftrightarrow> ie_kind e \<noteq> None \<or> k = None"
    using same tkey key scopes by simp
  then show ?thesis unfolding opened by simp
qed

section \<open>Witnesses\<close>

definition help_line :: inbound_event where
  "help_line = \<lparr>ie_channel = ''matrix'', ie_conv = ''matrix:!r'', ie_kind = None,
     ie_from = participant_new ''@eve'' Role_Human, ie_message = top_level ''matrix'' ''matrix:!r'' ''1'',
     ie_body = ''/help me'', ie_attachments = [], ie_timestamp = 0\<rparr>"

definition help_help :: "nat command" where
  "help_help = \<lparr>cm_name = ''help'', cm_description = ''Help'',
     cm_policy_action = (\<lambda>input _ w. (w + 10, Inr (Act_Custom input))),
     cm_execute = (\<lambda>_ _ w. (w, Inr []))\<rparr>"

text \<open>The policy counts how often it is asked.\<close>

definition counted_inbox :: "nat command_inbox" where
  "counted_inbox = \<lparr>cd_handles = \<lparr>hd_registry = [], hd_store =
       \<lparr>sa_find = (\<lambda>ow _ _ w. (w, Inr (new_empty_session ''s1'' ow None 0))),
        sa_save = (\<lambda>_ _ _ w. (w, Inr ())), sa_now = (\<lambda>w. (w, 0)), cs_load = (\<lambda>_ w. (w, Inr None))\<rparr>,
       hd_policy = (\<lambda>_ _ w. (w + 1, Allow)), hd_agent_name = ''bot''\<rparr>,
     cd_prefix = ''/'', cd_inner = inbox_defaults (\<lambda>_ w. (w, Inr ())),
     cd_sink = sink_defaults (\<lambda>_ _ _ w. (w, Inl CH_Cancelled)) (\<lambda>_ _ _ _. unsupported ''react''),
     cd_resolver = Some (\<lambda>_. \<lparr>sub_id = ''eve'', sub_attrs = []\<rparr>)\<rparr>"

definition eve :: subject where "eve = \<lparr>sub_id = ''eve'', sub_attrs = [(''agent'', ''bot'')]\<rparr>"

lemma counted_parts:
  "command_subject counted_inbox help_line = Inr eve" "cd_prefix counted_inbox = ''/''"
  "hd_policy (cd_handles counted_inbox) = (\<lambda>_ _ w. (w + 1, Allow))"
  "sa_find (hd_store (cd_handles counted_inbox)) ow th scope w = (w, Inr (new_empty_session ''s1'' ow None 0))"
  "cs_load (hd_store (cd_handles counted_inbox)) i w = (w, Inr None)"
  by (simp_all add: counted_inbox_def command_subject_def eve_def with_attr_def agent_attr_def)

lemma help_line_parts:
  "parse_command ''/'' ''/help me'' = Some (''help'', ''me'')" "ie_body help_line = ''/help me''"
  "trim (ie_channel help_line) \<noteq> []" "trim (pa_id (ie_from help_line)) \<noteq> []"
  "trim (channel_subject_id (ie_channel help_line) (pa_id (ie_from help_line))) \<noteq> []"
  by code_simp+

lemma command_runs_only_when_allowed_witness:
  "\<exists>w1 a w4. hd_policy (cd_handles counted_inbox) eve (Act_ToolCall ''help'') 0 = (w1, Allow)
     \<and> hd_policy (cd_handles counted_inbox) eve a (w1 + 10) = (w4, Allow)
     \<and> parse_command ''/'' ''/help me'' = Some (''help'', case a of Act_Custom i \<Rightarrow> i) \<and> w4 = 12"
proof -
  let ?x = "\<lambda>_ _ w. (w, Inr ''done'')" and ?y = "\<lambda>_ _ w. (w + 1, Inr ''done'')"
  have run: "run_command counted_inbox help_line eve (help_help\<lparr>cm_execute := z\<rparr>) ''help'' ''me'' 0
      = or_reply counted_inbox eve help_line (z ''me'' \<lparr>cc_subject = eve, cc_session_id = ''s1'',
          cc_event = help_line, cc_sink = cd_sink counted_inbox\<rparr>)
          (record_success counted_inbox help_line ''s1'') 12" for z
    by (simp add: run_command_def or_reply_def command_allow_def counted_parts op_bind_def op_map_err_def
        map_err_def help_help_def op_return_def new_empty_session_def Let_def)
  have "command_receive (with_command ''help'' (help_help\<lparr>cm_execute := ?x\<rparr>) counted_inbox) help_line 0
      \<noteq> command_receive (with_command ''help'' (help_help\<lparr>cm_execute := ?y\<rparr>) counted_inbox) help_line 0"
    by (simp add: command_receive_def dispatch_command_def counted_parts help_line_parts run or_reply_def record_success_def
        op_bind_def op_map_err_def map_err_def op_fail_def)
  from command_runs_only_when_allowed [OF this] show ?thesis
    by (auto simp: counted_parts help_line_parts help_help_def intro!: exI [of _ "Act_Custom ''me''"])
qed

definition session_commands :: "session_world command_inbox" where
  "session_commands = \<lparr>cd_handles = \<lparr>hd_registry = [], hd_store =
       \<lparr>sa_find = mem_find, sa_save = mem_save, sa_now = mem_now,
        cs_load = (\<lambda>i w. (w, Inr (session_load i (mw_store w))))\<rparr>,
       hd_policy = (\<lambda>_ _ w. (w, Allow)), hd_agent_name = ''bot''\<rparr>,
     cd_prefix = ''/'', cd_inner = inbox_defaults (\<lambda>_ w. (w, Inr ())),
     cd_sink = sink_defaults (\<lambda>_ _ _ w. (w, Inl CH_Cancelled)) (\<lambda>_ _ _ _. unsupported ''react''),
     cd_resolver = None\<rparr>"

definition conv_hook :: "session_world persist_hook" where
  "conv_hook = \<lparr>ph_store = mem_api, ph_resolve_owner = (\<lambda>_. ''matrix:!r''), ph_resolve_thread = (\<lambda>_. None)\<rparr>"

text \<open>A conversation whose events carry no kind, with an inbox that takes them for direct ones: the
  command's session and the run's are two.\<close>

lemma command_session_is_the_runs_witness:
  "\<exists>sub run_sub w se. command_subject session_commands help_line = Inr sub
     \<and> subject_from_inbound_event help_line (Some Kind_Direct) = Inr run_sub
     \<and> mem_find ''matrix:!r'' None (command_scope session_commands sub help_line) (ps_store sample_world)
       = (ps_store w, Inr se)
     \<and> map_option se_id (snd (open_session conv_hook
         (run_ctx_new ''r1'' (with_attr agent_attr ''bot'' (with_conv_display \<lparr>lb_name = None, lb_workspace = None\<rparr> run_sub))) w))
       \<noteq> Some (se_id se)"
proof -
  let ?agent = "with_attr agent_attr ''bot''" and ?label = "\<lparr>lb_name = None, lb_workspace = None\<rparr>"
  have "\<exists>sub. subject_from_inbound_event help_line None = Inr sub"
      "\<exists>sub. subject_from_inbound_event help_line (Some Kind_Direct) = Inr sub"
    by (simp_all add: subject_from_inbound_event_def help_line_parts subject_try_new_def Let_def)
  then obtain plain run_sub where subs: "subject_from_inbound_event help_line None = Inr plain"
      "subject_from_inbound_event help_line (Some Kind_Direct) = Inr run_sub"
    by blast
  then obtain sub where sub: "command_subject session_commands help_line = Inr sub"
    by (simp add: command_subject_def default_command_subject_def session_commands_def)
  have inv: "mem_inv (ps_store sample_world)"
    using session_store_new_wf
    by (auto simp: mem_inv_def sample_world_def hm_contains_def
        session_store_new_def inj_on_def dest: arg_cong [where f = length])
  obtain st r where found: "mem_find ''matrix:!r'' None (command_scope session_commands sub help_line)
      (ps_store sample_world) = (st, r)"
    by fastforce
  obtain se where se: "r = Inr se" "mem_inv st" "session_load (se_id se) (mw_store st) = Some se"
    using mem_found [OF inv found] by metis
  define w where "w = sample_world\<lparr>ps_store := st\<rparr>"
  have parts: "cd_resolver session_commands = None" "sa_find (hd_store (cd_handles session_commands)) = mem_find"
      "hd_agent_name (cd_handles session_commands) = ''bot''" "ps_store w = st"
      "ie_conv help_line = ''matrix:!r''" "ie_kind help_line = None"
      "sa_find (ph_store conv_hook) = mem_find"
    by (simp_all add: session_commands_def w_def help_line_def conv_hook_def mem_api_def)
  have "map_option se_id (snd (open_session conv_hook
         (run_ctx_new ''r1'' (?agent (with_conv_display ?label run_sub))) w)) \<noteq> Some (se_id se)"
    using command_session_is_the_runs [of session_commands help_line sub "ps_store sample_world" st se
        "Some Kind_Direct" run_sub "run_ctx_new ''r1'' (?agent (with_conv_display ?label run_sub))" ?label conv_hook w se]
      sub inv found se subs parts
    by (simp add: conv_hook_def run_ctx_new_def)
  with sub subs found se(1) parts show ?thesis by blast
qed

end
