(* ===== verification/Spec2Isabelle.thy ===== *)
theory Spec2Isabelle
  imports Run_Guarantees Policy Selection Cron_Store Task_Store Goal_Runtime Session_Persist Memory_Store Task_Guarantees Cron_Guarantees Kernel_Inbox Commands Compaction
begin

text \<open>
  A verification library for crabgent, an agent kernel in Rust: one run of a language model with
  tools, hooks, a policy and provider fallbacks (\<open>crabgent/crabgent-core\<close>), and the stores that
  keep sessions, memories, scheduled jobs, background tasks and goals (\<open>crabgent/crabgent-store\<close>),
  with the hooks that persist sessions and steer goals (\<open>crabgent-session\<close>, \<open>crabgent-hook-goal\<close>),
  the executors of background tasks and of scheduled jobs (\<open>crabgent-task\<close>, \<open>crabgent-cron\<close>), and
  the inbox that turns messages of a channel into runs (\<open>crabgent-channel\<close>, \<open>crabgent-hook-inject\<close>).
  Paths below are relative to these crates' \<open>src\<close> directories.

  \<^bold>\<open>How the parts interact.\<close> A host builds a kernel from providers, a policy, tools and hooks. A run
  (\<open>run/stream.rs\<close>) repeats turns until the model answers without calling a tool. A turn asks the
  policy, lets hooks rewrite the log and the request, resolves the model through the override
  layers, drops fallbacks that cannot serve the request, opens the first attempt that works,
  accumulates its events, and dispatches the tool calls one after the other. Observers follow the
  run through hooks and a bounded channel. The stores hand work to executors through claims.

  \<^bold>\<open>Theories, in the order they build on one another.\<close>

  \<^item> \<open>Prelude\<close>: options, results, saturating arithmetic, keyed maps (locale \<open>keyed_map\<close>), simplifier
    collections.
  \<^item> \<open>Rust_Text\<close> (\<open>text.rs\<close>, \<open>sanitize.rs\<close>): UTF-8 boundaries, truncation, boundary tags.
  \<^item> \<open>Core_Types\<close> (\<open>subject.rs\<close>, \<open>memory/scope.rs\<close>, \<open>message.rs\<close>, \<open>types.rs\<close>, \<open>error.rs\<close>,
    \<open>message/tail.rs\<close>): subjects, scopes, messages and their serialization, requests, errors.
  \<^item> \<open>Policy_Action\<close>, \<open>Policy\<close> (\<open>action.rs\<close>, \<open>policy.rs\<close>, \<open>policy/strict\<close>): actions, matchers, rules,
    every builder call, first-match evaluation.
  \<^item> \<open>Models\<close>, \<open>Selection\<close> (\<open>model\<close>, \<open>provider_set.rs\<close>): the registry, lookups, layered model choice,
    the attempt chain.
  \<^item> \<open>Run_State\<close>, \<open>Hooks\<close> (\<open>hook\<close>, \<open>hook_chain.rs\<close>, \<open>run/stream/events.rs\<close>): the run context with its
    write-once cells, the hook chains, the event channel.
  \<^item> \<open>Fallback\<close> (\<open>run/fallback.rs\<close>, the capability checks, \<open>provider.rs\<close>): classification of errors,
    pre-flight, opening a stream over the chain of attempts.
  \<^item> \<open>Tool_Turn\<close> (\<open>tool/mod.rs\<close>, \<open>run/shared/build_request.rs\<close>): the message log, the policy gate, the
    dispatch of one tool call.
  \<^item> \<open>Run_Loop\<close> (\<open>run/stream.rs\<close>, \<open>run/stream\<close>): the pump, a turn, the loop of turns, the driver and
    both ways it finishes.
  \<^item> \<open>Run_Safety\<close>, \<open>Run_Guarantees\<close>: trace properties carried through the loop by locales, and the
    guarantees of a run.
  \<^item> \<open>Store_Base\<close>, \<open>Scope_Query\<close>, \<open>Cron_Store\<close>, \<open>Task_Store\<close>, \<open>Goal_Store\<close> (\<open>records.rs\<close>, \<open>page.rs\<close>,
    \<open>scope_query.rs\<close>, \<open>memory\<close>): pages, scope filters, the in-memory stores with all operations;
    operations of a store behind a trait, as functions that may fail and may take time.
  \<^item> \<open>Search_Query\<close>, \<open>Session_Store\<close>, \<open>Memory_Store\<close> (\<open>memory/query.rs\<close>, \<open>memory_search.rs\<close>,
    \<open>memory/session.rs\<close>, \<open>session_support.rs\<close>, \<open>memory/memory_store.rs\<close>, \<open>relation_type.rs\<close>): search
    plans, conversations found by identity, archives and excerpts, documents with their relation graph.
  \<^item> \<open>Session_Persist\<close> (\<open>crabgent-session/src/hook.rs\<close>, \<open>hook/safe_prefix.rs\<close>): what a run leaves in its
    session, over the locale \<open>session_contract\<close> that the in-memory store interprets.
  \<^item> \<open>Goal_Runtime\<close> (\<open>crabgent-hook-goal/src\<close>): the steering blocks, the host's control of goals, the hook
    that injects and charges, over the locale \<open>goal_contract\<close>.
  \<^item> \<open>Activity\<close> (\<open>activity.rs\<close>): what observers of background work are told.
  \<^item> \<open>Task_Drain\<close>, \<open>Task_Executor\<close>, \<open>Task_Guarantees\<close> (\<open>crabgent-task/src\<close>): draining a stream into a row,
    timeouts, verdicts; spawn, cancel, shutdown, restart and blocking waits; what they promise. The
    store is the locale \<open>task_contract\<close>, interpreted by the in-memory store, and lifted to the world of
    the executor by a \<open>sublocale\<close>.
  \<^item> \<open>Rust_Parse\<close>, \<open>Cron_Schedule\<close> (\<open>crabgent-cron/src/schedule.rs\<close>): number and word parsing of the
    standard library; schedules and the rewriting of POSIX expressions for the \<open>cron\<close> crate.
  \<^item> \<open>Cron_Scheduler\<close>, \<open>Cron_Guarantees\<close> (\<open>crabgent-cron/src\<close>): ticks, workers, deliveries, the run loop and
    the kernel executor; the claim protocol over the locale \<open>cron_contract\<close>, with ticks and workers
    interleaved in any order as a step relation.
  \<^item> \<open>Channel_Types\<close>, \<open>Channel_Inbox\<close>, \<open>Kernel_Inbox\<close> (\<open>crabgent-channel/src\<close>,
    \<open>crabgent-hook-inject/src\<close>): messages and the subjects made from them, the tag around their text,
    the router, the decorators of an inbox, the pairing handshake over the locale \<open>pairing_contract\<close>
    that both stores interpret; the inbox of the kernel, its dispatchers, runs, stop messages and
    shutdown as a step relation.
  \<^item> \<open>Commands\<close> (\<open>crabgent-command/src\<close>, \<open>crabgent-command-goal\<close>, \<open>crabgent-command-model\<close>,
    \<open>crabgent-command-compact\<close>): names, prefixes and the registry, the inbox that dispatches command
    lines, the three commands of the library.
  \<^item> \<open>Compaction\<close> (\<open>crabgent-hook-compact/src\<close>): the plan that cuts a log, the chain of summary
    providers, the hook with its locks, cache and muted runs, the compaction of a stored session; the
    context that a call may rely on is the locale \<open>stable_context\<close>.

  \<^bold>\<open>The model of a run.\<close> The kernel suspends at every \<open>await\<close>. What it awaits (a hook, a tool, a
  provider, the policy, the consumer of the channel) is a parameter of type \<open>call\<close>: given the world
  \<open>'w\<close> it changes the world, performs any list of operations on the shared state of the run (writes
  to the write-once cells, firing the cancel, pause or shutdown token, dropping the receiver), and
  answers or never answers. Concurrent actors act through these calls too, so a property of the loop
  quantifies over everything they may do at an \<open>await\<close>. A computation returns, fails with a kernel
  error, or is parked: parked means that an awaited call never answered, and the driver's \<open>select!\<close>
  then turns a cancelled token or a dropped receiver into a cancelled run. The state carries a trace
  of policy decisions, opened streams, tool executions, appended messages, terminal callbacks and
  delivered items; the guarantees speak about that trace. \<open>trace_invariant\<close>, \<open>run_invariant\<close> and
  \<open>loop_invariant\<close> are the contracts of such properties: an instance states how the property treats
  each event and gets preservation for every operation of the loop.

  \<^bold>\<open>Bounds.\<close> The loop of turns recurses on the number of turns left. A provider stream is the finite
  list of the answers of \<open>next\<close>; the pump terminates by the attempts left and the stream left, since a
  retry always opens a later attempt. A stream that never ends and is never cancelled is outside the
  model. \<open>get\<close> and \<open>get_target\<close> of the registry call each other: they are a partial function, and
  every lookup in a built registry is shown to return. The page scan of a restart is a partial function
  too, shown to return. The graces of a shutdown and the polls of a blocking wait are parameters: what
  happened meanwhile and whether the time was up. The resume counter is a 32 bit word, token
  counts saturate at 64 bits.

  \<^bold>\<open>What the lemmas show.\<close> Run: it ends exactly once and tells its observers first, the policy gates
  every tool, turns are bounded, a pause leaves a clean log, attempts are tried in order and those
  that survive the pre-flight pass it, failures are classified. Policy: evaluation is first match,
  scoped rules confine a subject. Models: resolution agrees with a search of the model lists. Stores:
  each claim is granted at most once, the invariants of the records hold over any sequence of
  operations, the goal store refines a map, a conversation is never forked, relation edges join stored
  documents, a caller reaches only its own rows or shared ones. Hooks: a session keeps what its
  outcome calls for, a paused log can be resumed, only the hook speaks for the goal, a pause keeps its
  author. Tasks: the verdict of a run reaches its row, streamed text its output column; a user's cancel
  outlives a shutdown; a restart returns, resumes children first, from the row and a transcript with
  no open call. Cron: every claim of the scheduler has one worker, a message reaches the conversation of
  its job, weekdays keep their meaning. Channels: a conversation
  has one run and is released by it, queued messages reach that run in order, a stop message frees the
  conversation, no one passes the pairing without the token, pairs survive a restart, subject ids
  are unambiguous, inbound text stays inside its tag. Commands: they cannot be put in front of a gate, run only after
  two decisions of the policy, fail without repeating their input, and share the session of the
  runs when the kind of the conversation is known. Compaction: it replaces only what was archived, keeps
  tool exchanges whole, and a stored session can be put together again. Text: a tool output cannot forge its wrapper.
  Lemmas outside the properties record where the code differs from its comments: \<open>snippet_may_be_whole_text\<close>, \<open>relation_race_leaves_dangling_edge\<close>,
  \<open>resume_reactivates_terminal_goal\<close>, \<open>second_adoption_pauses_running\<close>, \<open>full_week_becomes_sunday\<close>,
  \<open>wrapped_step_keeps_saturday\<close>, \<open>huge_interval_panics\<close>, \<open>late_message_is_lost\<close>,
  \<open>stop_ignores_policy\<close>, \<open>run_message_orphans_answer\<close>, \<open>first_summary_stays\<close>, \<open>idle_compaction_succeeds\<close>,
  \<open>failed_summary_archives\<close>, \<open>manual_compaction_stays_cached\<close>, \<open>provider_blocks_are_free\<close>.

  \<^bold>\<open>Not modelled.\<close> The SQL backends and the provider and channel adapters, whose behaviour is that of
  external engines and services; the runtime around the driver (task spawning, drop guards); the
  live progress messages, media and speech of a channel; the other optional hooks and the tools, which a run takes as
  parameters; floating point scoring of memories; the application host.
\<close>

end
